(* ===== verification/Polycall_Prelude.thy ===== *)
theory Polycall_Prelude
  imports "HOL-Library.Word"
begin

text \<open>
  The shared vocabulary of the development: fixed-width integers, C strings in
  fixed-size buffers (a \<open>char name[32]\<close> is a list of 32 characters read up to its
  first NUL), arrays updated by index, the rolling checksums, and the locale of
  transition systems with an invariant that every component with state instantiates.
  The target is the LP64 little-endian data model the Makefile builds for
  (\<open>unsigned int\<close> 32 bits, \<open>size_t\<close>, \<open>time_t\<close> and pointers 64 bits).
\<close>

unbundle bit_operations_syntax

type_synonym u8 = "8 word"
type_synonym u16 = "16 word"
type_synonym u32 = "32 word"
type_synonym u64 = "64 word"

text \<open>A pointer the code only compares with NULL, copies or calls is its address; NULL is 0.\<close>

type_synonym address = u64

named_theorems frame_simps \<open>what an operation leaves alone\<close>
named_theorems wf_intros \<open>well-formedness is kept by an operation\<close>


section \<open>C strings\<close>

abbreviation NUL :: char where "NUL \<equiv> CHR 0x00"

text \<open>The string a buffer holds: its characters before the first NUL.\<close>

definition cstr :: "string \<Rightarrow> string" where
  "cstr b = takeWhile (\<lambda>c. c \<noteq> NUL) b"

text \<open>
  \<open>strncpy(dst, src, n - 1); dst[n - 1] = '\0';\<close> into a buffer of \<open>n\<close> bytes: at most
  \<open>n - 1\<close> characters of the source, padded with NUL to the full size.
\<close>

definition strncpy_buf :: "nat \<Rightarrow> string \<Rightarrow> string" where
  "strncpy_buf n src =
     (let t = take (n - 1) (cstr src) in t @ replicate (n - length t) NUL)"

text \<open>\<open>snprintf(dst, n, "%s", src)\<close>: the string the buffer then holds.\<close>

definition snprintf_s :: "nat \<Rightarrow> string \<Rightarrow> string" where
  "snprintf_s n src = take (n - 1) (cstr src)"

lemma cstr_no_NUL [simp]: "NUL \<notin> set (cstr b)"
  unfolding cstr_def by (auto dest: set_takeWhileD)

lemma cstr_simps: "cstr [] = []" "cstr (c # s) = (if c = NUL then [] else c # cstr s)"
  by (simp_all add: cstr_def)

lemma cstr_id: "NUL \<notin> set s \<Longrightarrow> cstr s = s"
  by (auto simp: cstr_def takeWhile_eq_all_conv)

lemma cstr_cstr [simp]: "cstr (cstr b) = cstr b"
  by (rule cstr_id) simp

lemma length_cstr_le: "length (cstr b) \<le> length b"
  by (simp add: cstr_def length_takeWhile_le)

lemma cstr_append_NUL: "NUL \<notin> set s \<Longrightarrow> cstr (s @ NUL # r) = s"
  by (auto simp: cstr_def takeWhile_append)

lemma cstr_replicate: "NUL \<notin> set s \<Longrightarrow> cstr (s @ replicate k NUL) = s"
  by (cases k) (simp_all add: cstr_append_NUL cstr_id)

lemma length_strncpy_buf [simp]: "0 < n \<Longrightarrow> length (strncpy_buf n s) = n"
  by (simp add: strncpy_buf_def Let_def)

lemma NUL_notin_take_cstr: "NUL \<notin> set (take k (cstr s))"
  using cstr_no_NUL [of s] in_set_takeD by fastforce

lemma cstr_strncpy_buf: "0 < n \<Longrightarrow> cstr (strncpy_buf n s) = take (n - 1) (cstr s)"
  by (simp add: strncpy_buf_def Let_def cstr_replicate NUL_notin_take_cstr)

lemma last_strncpy_buf: "0 < n \<Longrightarrow> strncpy_buf n s ! (n - 1) = NUL"
  by (auto simp: strncpy_buf_def Let_def nth_append min_def)

text \<open>The bytes of a buffer, as the checksum loops read them.\<close>

definition char_bytes :: "string \<Rightarrow> u8 list" where
  "char_bytes s = map of_char s"

lemma length_char_bytes [simp]: "length (char_bytes s) = length s"
  by (simp add: char_bytes_def)

lemma of_char_word8_inject: "(of_char c :: u8) = of_char d \<longleftrightarrow> c = d"
proof
  assume "(of_char c :: u8) = of_char d"
  then have "unat (word_of_nat (of_char c) :: u8) = unat (word_of_nat (of_char d) :: u8)"
    by (simp only: of_nat_of_char)
  moreover have "(of_char e :: nat) < 256" for e
    using nat_of_char_less_256 by simp
  ultimately have "(of_char c :: nat) = of_char d"
    by (simp add: unat_of_nat)
  then show "c = d" by simp
qed simp

lemma char_bytes_inject [simp]: "char_bytes s = char_bytes t \<longleftrightarrow> s = t"
  unfolding char_bytes_def
  by (rule inj_map_eq_map) (auto simp: inj_on_def of_char_word8_inject)

text \<open>Little-endian bytes of machine words.\<close>

definition le16 :: "u16 \<Rightarrow> u8 list" where
  "le16 w = [ucast w, ucast (drop_bit 8 w)]"

definition le32 :: "u32 \<Rightarrow> u8 list" where
  "le32 w = [ucast w, ucast (drop_bit 8 w), ucast (drop_bit 16 w), ucast (drop_bit 24 w)]"

definition le64 :: "u64 \<Rightarrow> u8 list" where
  "le64 w = le32 (ucast w) @ le32 (ucast (drop_bit 32 w))"

definition of_le16 :: "u8 \<Rightarrow> u8 \<Rightarrow> u16" where
  "of_le16 a b = ucast a OR push_bit 8 (ucast b)"

definition of_le32 :: "u8 \<Rightarrow> u8 \<Rightarrow> u8 \<Rightarrow> u8 \<Rightarrow> u32" where
  "of_le32 a b c d = ucast a OR push_bit 8 (ucast b) OR push_bit 16 (ucast c) OR push_bit 24 (ucast d)"

lemma length_le [simp]: "length (le16 x) = 2" "length (le32 y) = 4" "length (le64 z) = 8"
  by (simp_all add: le16_def le32_def le64_def)

lemma of_le16_le16 [simp]: "of_le16 (ucast w) (ucast (drop_bit 8 w)) = w"
  unfolding of_le16_def
  by (rule bit_word_eqI) (auto simp: bit_simps)

lemma of_le32_le32 [simp]:
  "of_le32 (ucast w) (ucast (drop_bit 8 w)) (ucast (drop_bit 16 w)) (ucast (drop_bit 24 w)) = w"
proof (rule bit_word_eqI)
  fix n assume "n < LENGTH(32)"
  then have "n < 8 \<or> 8 \<le> n \<and> n < 16 \<or> 16 \<le> n \<and> n < 24 \<or> 24 \<le> n \<and> n < 32" by auto
  then show "bit (of_le32 (ucast w) (ucast (drop_bit 8 w)) (ucast (drop_bit 16 w))
      (ucast (drop_bit 24 w))) n = bit w n"
    by (elim disjE conjE) (simp_all add: of_le32_def bit_simps, auto)
qed


section \<open>Decimal numerals\<close>

text \<open>What \<open>%d\<close>, \<open>%u\<close> and \<open>%zu\<close> print of a value that is not negative.\<close>

definition digit_char :: "nat \<Rightarrow> char" where
  "digit_char d = char_of (48 + d)"

fun show_nat :: "nat \<Rightarrow> string" where
  "show_nat n = (if n < 10 then [digit_char n] else show_nat (n div 10) @ [digit_char (n mod 10)])"

declare show_nat.simps [simp del]

definition is_digit :: "char \<Rightarrow> bool" where
  "is_digit c \<longleftrightarrow> 48 \<le> (of_char c :: nat) \<and> (of_char c :: nat) \<le> 57"

definition digit_value :: "char \<Rightarrow> nat" where
  "digit_value c = of_char c - 48"

text \<open>The value of a string of digits after a value \<open>v\<close>.\<close>

definition digits_value :: "nat \<Rightarrow> string \<Rightarrow> nat" where
  "digits_value v s = foldl (\<lambda>a c. 10 * a + digit_value c) v s"

lemma digit_char_facts: "d < 10 \<Longrightarrow> is_digit (digit_char d) \<and> digit_value (digit_char d) = d"
  by (simp add: is_digit_def digit_value_def digit_char_def)

lemma show_nat_digits: "\<forall>c \<in> set (show_nat n). is_digit c"
proof (induction n rule: show_nat.induct)
  case (1 n)
  then show ?case by (subst show_nat.simps) (auto simp: digit_char_facts)
qed

lemma show_nat_not_Nil [simp]: "show_nat n \<noteq> []"
  by (subst show_nat.simps) simp

lemma digits_value_show_nat: "digits_value 0 (show_nat n) = n"
proof (induction n rule: show_nat.induct)
  case (1 n)
  then show ?case
    by (subst show_nat.simps) (auto simp: digits_value_def digit_char_facts)
qed

lemma show_nat_length: "n < 10 ^ k \<Longrightarrow> 0 < k \<Longrightarrow> length (show_nat n) \<le> k"
proof (induction n arbitrary: k rule: show_nat.induct)
  case (1 n)
  show ?case
  proof (cases "n < 10")
    case True
    with "1.prems" show ?thesis by (subst show_nat.simps) simp
  next
    case False
    obtain j where k: "k = Suc j" using "1.prems"(2) by (cases k) auto
    with "1.prems"(1) False have "n div 10 < 10 ^ j" "0 < j"
      by (auto simp: less_mult_imp_div_less mult.commute intro: Nat.gr0I)
    with "1.IH" [OF False] False k show ?thesis by (subst show_nat.simps) simp
  qed
qed
lemma is_digit_not_NUL: "is_digit c \<Longrightarrow> c \<noteq> NUL"
  by (auto simp: is_digit_def)


section \<open>Characters\<close>

text \<open>
  \<open>isspace\<close>, \<open>isalpha\<close> and \<open>isalnum\<close> in the C locale. Characters above 127, negative as
  a \<open>char\<close>, belong to no class.
\<close>

definition is_space :: "char \<Rightarrow> bool" where
  "is_space c \<longleftrightarrow> (of_char c :: nat) = 32 \<or> 9 \<le> (of_char c :: nat) \<and> (of_char c :: nat) \<le> 13"

definition is_alpha :: "char \<Rightarrow> bool" where
  "is_alpha c \<longleftrightarrow> 65 \<le> (of_char c :: nat) \<and> (of_char c :: nat) \<le> 90 \<or>
     97 \<le> (of_char c :: nat) \<and> (of_char c :: nat) \<le> 122"

definition is_alnum :: "char \<Rightarrow> bool" where
  "is_alnum c \<longleftrightarrow> is_alpha c \<or> is_digit c"

lemma is_space_simps [simp]:
  "is_space (CHR 0x0A)" "is_space CHR '' ''" "\<not> is_space CHR ''=''" "\<not> is_space CHR '':''" "\<not> is_space NUL"
  by (simp_all add: is_space_def)

lemma is_digit_not_space: "is_digit c \<Longrightarrow> \<not> is_space c"
  by (auto simp: is_digit_def is_space_def)


section \<open>Counters\<close>

lemma unat_inc32: "unat (n :: u32) < k \<Longrightarrow> k < 2 ^ 32 \<Longrightarrow> unat (n + 1) = Suc (unat n)"
  by (simp add: unat_word_ariths)

lemma less_inc32: "(i :: u32) < n + 1 \<Longrightarrow> unat n < k \<Longrightarrow> k < 2 ^ 32 \<Longrightarrow> i < n \<or> i = n"
  by (auto simp: word_less_nat_alt unat_inc32 less_Suc_eq word_unat_eq_iff)


section \<open>Records of a fixed size on the wire\<close>

text \<open>
  A struct copied into the front of a buffer and read back from there: it takes a fixed
  number of bytes and comes back whatever follows it.
\<close>

locale fixed_codec =
  fixes enc :: "'a \<Rightarrow> u8 list"
    and dec :: "u8 list \<Rightarrow> 'a"
    and width :: nat
  assumes length_enc: "length (enc x) = width"
    and dec_enc: "dec (enc x @ r) = x"
begin

lemma drop_enc: "drop width (enc x @ r) = r"
  by (simp add: length_enc)

lemma frame_inject: "enc x @ r = enc y @ s \<longleftrightarrow> x = y \<and> r = s"
  using dec_enc drop_enc by metis

lemma update_payload: "i < length r \<Longrightarrow> (enc x @ r)[width + i := b] = enc x @ r[i := b]"
  by (simp add: list_update_append length_enc)

end


section \<open>Stores with a bound\<close>

text \<open>
  A store of keyed values whose update may be refused. An update that is accepted is an
  update of the map the store stands for; then a sequence of updates adds to that map, the
  last value of a key winning.
\<close>

locale partial_store =
  fixes get :: "'s \<Rightarrow> 'k \<Rightarrow> 'v option"
    and put :: "'k \<Rightarrow> 'v \<Rightarrow> 's \<Rightarrow> 's option"
  assumes get_put: "put k v s = Some s' \<Longrightarrow> get s' = (get s)(k \<mapsto> v)"
begin

definition puts :: "('k \<times> 'v) list \<Rightarrow> 's option \<Rightarrow> 's option" where
  "puts kvs so = fold (\<lambda>(k, v) so. Option.bind so (put k v)) kvs so"

lemma puts_simps [simp]:
  "puts [] so = so" "puts ((k, v) # kvs) so = puts kvs (Option.bind so (put k v))"
  by (simp_all add: puts_def)

lemma puts_None [simp]: "puts kvs None = None"
  by (induction kvs) auto

lemma get_puts: "puts kvs (Some s) = Some s' \<Longrightarrow> get s' = get s ++ map_of (rev kvs)"
proof (induction kvs arbitrary: s)
  case (Cons kv kvs)
  obtain k v where kv: "kv = (k, v)" by (cases kv)
  with Cons.prems obtain t where t: "put k v s = Some t" "puts kvs (Some t) = Some s'"
    by (cases "put k v s") auto
  from Cons.IH [OF t(2)] get_put [OF t(1)] show ?case
    by (auto simp: kv fun_eq_iff map_add_def split: option.splits)
qed simp

end


section \<open>Operations that keep an invariant\<close>

text \<open>
  A component is a state and operations that change it. Its invariant is proved
  operation by operation; that it holds after any sequence of them is proved here, once.
\<close>

locale stepwise_invariant =
  fixes step :: "'e \<Rightarrow> 's \<Rightarrow> 's"
    and inv :: "'s \<Rightarrow> bool"
  assumes inv_step: "inv s \<Longrightarrow> inv (step e s)"
begin

lemma inv_run: "inv s \<Longrightarrow> inv (fold step es s)"
  by (induction es arbitrary: s) (auto simp: inv_step)

lemma inv_run_prefix: "inv s \<Longrightarrow> inv (fold step (take n es) s)"
  by (rule inv_run)

end

text \<open>
  Where a step also never decreases a measure of the state (a version, a count), no
  sequence of steps does.
\<close>

locale monotone_invariant = stepwise_invariant step inv
  for step :: "'e \<Rightarrow> 's \<Rightarrow> 's" and inv :: "'s \<Rightarrow> bool" +
  fixes rank :: "'s \<Rightarrow> 'c :: preorder"
  assumes rank_step: "inv s \<Longrightarrow> rank s \<le> rank (step e s)"
begin

lemma rank_run: "inv s \<Longrightarrow> rank s \<le> rank (fold step es s)"
proof (induction es arbitrary: s)
  case Nil
  show ?case by simp
next
  case (Cons e es)
  from Cons.prems have "rank s \<le> rank (step e s)" by (rule rank_step)
  also have "\<dots> \<le> rank (fold step es (step e s))"
    by (rule Cons.IH) (rule inv_step [OF Cons.prems])
  finally show ?case by simp
qed

end

end
