(* ===== verification/Checksum.thy ===== *)
theory Checksum
  imports Polycall_Prelude
begin

text \<open>
  The rolling checksum both \<open>calculate_state_checksum\<close> (\<open>polycall_state_machine.c\<close>) and
  \<open>polycall_protocol_calculate_checksum\<close> (\<open>polycall_protocol.c\<close>) are built on: an
  accumulator of 32 bits that is rotated and then added to a byte, over the bytes of a
  buffer. What the two share is stated once, in the locale \<open>rolling_checksum\<close>: a mixing
  step that is injective in the accumulator and in the byte detects every corruption of a
  single byte, wherever it is and whatever follows it.
\<close>

unbundle bit_operations_syntax

section \<open>Rotation\<close>

text \<open>\<open>(x << k) | (x >> (32 - k))\<close> on \<open>uint32_t\<close>.\<close>

definition rotate_left32 :: "nat \<Rightarrow> u32 \<Rightarrow> u32" where
  "rotate_left32 k x = (push_bit k x OR drop_bit (32 - k) x)"

lemma bit_rotate_left32:
  "0 < k \<Longrightarrow> k < 32 \<Longrightarrow>
   bit (rotate_left32 k x) n \<longleftrightarrow> n < 32 \<and> (if k \<le> n then bit x (n - k) else bit x (n + 32 - k))"
  by (auto simp: rotate_left32_def bit_simps add.commute dest: bit_imp_le_length)

lemma rotate_left32_inject:
  assumes k: "0 < k" "k < 32" and eq: "rotate_left32 k x = rotate_left32 k y"
  shows "x = y"
proof (rule bit_word_eqI)
  fix n assume "n < LENGTH(32)"
  then have n: "n < 32" by simp
  define m where "m = (if n + k < 32 then n + k else n + k - 32)"
  have "bit (rotate_left32 k z) m = bit z n" for z
    using k n by (auto simp: bit_rotate_left32 m_def)
  with eq show "bit x n = bit y n" by metis
qed

section \<open>A mixing step and the checksum it gives\<close>

definition checksum_bytes :: "(u32 \<Rightarrow> u8 \<Rightarrow> u32) \<Rightarrow> u8 list \<Rightarrow> u32" where
  "checksum_bytes mix bs = foldl mix 0 bs"

locale rolling_checksum =
  fixes mix :: "u32 \<Rightarrow> u8 \<Rightarrow> u32"
  assumes mix_acc_inject: "mix a b = mix a' b \<Longrightarrow> a = a'"
    and mix_byte_inject: "mix a b = mix a b' \<Longrightarrow> b = b'"
begin

lemma foldl_mix_inject: "foldl mix a bs = foldl mix a' bs \<Longrightarrow> a = a'"
  by (induction bs arbitrary: a a') (auto dest: mix_acc_inject)

lemma single_byte_detected:
  assumes "checksum_bytes mix (xs @ b # ys) = checksum_bytes mix (xs @ b' # ys)"
  shows "b = b'"
proof -
  from assms have "mix (foldl mix 0 xs) b = mix (foldl mix 0 xs) b'"
    by (auto simp: checksum_bytes_def dest: foldl_mix_inject)
  then show ?thesis by (rule mix_byte_inject)
qed

lemma list_update_detected:
  assumes "i < length bs" and "bs ! i \<noteq> b"
  shows "checksum_bytes mix (bs[i := b]) \<noteq> checksum_bytes mix bs"
proof
  assume eq: "checksum_bytes mix (bs[i := b]) = checksum_bytes mix bs"
  have "bs = take i bs @ bs ! i # drop (Suc i) bs"
    using assms(1) by (rule id_take_nth_drop)
  moreover have "bs[i := b] = take i bs @ b # drop (Suc i) bs"
    using assms(1) by (simp add: upd_conv_take_nth_drop)
  ultimately have "b = bs ! i"
    using eq single_byte_detected by metis
  with assms(2) show False by simp
qed

end

text \<open>The mixing step of the code: rotate by \<open>k\<close>, then add the byte.\<close>

definition rotate_add :: "nat \<Rightarrow> u32 \<Rightarrow> u8 \<Rightarrow> u32" where
  "rotate_add k c b = rotate_left32 k c + ucast b"

lemma ucast_byte_inject: "(ucast (b :: u8) :: u32) = ucast b' \<longleftrightarrow> b = b'"
proof
  assume eq: "(ucast b :: u32) = ucast b'"
  show "b = b'"
  proof (rule bit_word_eqI)
    fix n assume "n < LENGTH(8)"
    then have "bit (ucast c :: u32) n = bit c n" for c :: u8
      by (simp add: bit_simps)
    with eq show "bit b n = bit b' n" by metis
  qed
qed simp

lemma rolling_rotate_add: "0 < k \<Longrightarrow> k < 32 \<Longrightarrow> rolling_checksum (rotate_add k)"
  by unfold_locales
    (auto simp: rotate_add_def ucast_byte_inject intro: rotate_left32_inject)

end
