(* ===== verification/Polycall_Context.thy ===== *)
theory Polycall_Context
  imports Polycall_Prelude
begin

text \<open>
  \<open>src/polycall.c\<close> and \<open>include/polycall.h\<close>: the library context and its creation from
  a configuration. A context lives at the address \<open>malloc\<close> returned; a failed
  allocation is the address 0.
\<close>

section \<open>Types\<close>

datatype polycall_status =
    POLYCALL_SUCCESS
  | POLYCALL_ERROR_INVALID_PARAMETERS
  | POLYCALL_ERROR_INITIALIZATION_FAILED
  | POLYCALL_ERROR_OUT_OF_MEMORY
  | POLYCALL_ERROR

record polycall_config =
  cfg_flags :: u32
  cfg_memory_pool_size :: u64
  cfg_user_data :: address

definition MAX_ERROR_LENGTH :: nat where "MAX_ERROR_LENGTH = 256"

definition POLYCALL_VERSION :: string where "POLYCALL_VERSION = ''1.0.1''"

record polycall_context =
  ctx_last_error :: string
  ctx_user_data :: address
  ctx_memory_pool_size :: u64
  ctx_flags :: u32
  ctx_is_initialized :: bool

section \<open>Operations\<close>

text \<open>A NULL context or message changes nothing.\<close>

definition set_error :: "polycall_context option \<Rightarrow> string option \<Rightarrow> polycall_context option" where
  "set_error ctx error =
     (case (ctx, error) of
        (Some c, Some e) \<Rightarrow> Some (c\<lparr>ctx_last_error := strncpy_buf MAX_ERROR_LENGTH e\<rparr>)
      | _ \<Rightarrow> ctx)"

text \<open>
  \<open>has_ctx\<close> is \<open>ctx != NULL\<close>; \<open>block\<close> is what \<open>malloc\<close> returns. The result holds the
  pointer and the object stored through \<open>ctx\<close>.
\<close>

definition polycall_init_with_config ::
  "address \<Rightarrow> bool \<Rightarrow> polycall_config option
     \<Rightarrow> polycall_status \<times> (address \<times> polycall_context) option" where
  "polycall_init_with_config block has_ctx config =
     (if \<not> has_ctx then (POLYCALL_ERROR_INVALID_PARAMETERS, None)
      else if block = 0 then (POLYCALL_ERROR_OUT_OF_MEMORY, None)
      else
        let c0 = \<lparr>ctx_last_error = replicate MAX_ERROR_LENGTH NUL, ctx_user_data = 0,
                  ctx_memory_pool_size = 1024 * 1024, ctx_flags = 0, ctx_is_initialized = False\<rparr>;
            c1 = (case config of None \<Rightarrow> c0
                  | Some cfg \<Rightarrow> c0\<lparr>ctx_flags := cfg_flags cfg,
                      ctx_memory_pool_size :=
                        (if cfg_memory_pool_size cfg > 0 then cfg_memory_pool_size cfg
                         else ctx_memory_pool_size c0),
                      ctx_user_data := cfg_user_data cfg\<rparr>)
        in (POLYCALL_SUCCESS,
            Some (block, c1\<lparr>ctx_is_initialized := True,
                            ctx_last_error := (ctx_last_error c1)[0 := NUL]\<rparr>)))"

text \<open>The object is freed: the caller's pointer dangles.\<close>

definition polycall_cleanup :: "polycall_context option \<Rightarrow> polycall_context option" where
  "polycall_cleanup ctx = None"

definition polycall_get_version :: string where
  "polycall_get_version = POLYCALL_VERSION"

definition polycall_get_last_error :: "polycall_context option \<Rightarrow> string" where
  "polycall_get_last_error ctx =
     (case ctx of None \<Rightarrow> ''Invalid context'' | Some c \<Rightarrow> cstr (ctx_last_error c))"

section \<open>The context invariant\<close>

text \<open>The error buffer has its full size and is terminated; the pool is never empty.\<close>

definition context_wf :: "polycall_context \<Rightarrow> bool" where
  "context_wf c \<longleftrightarrow>
     length (ctx_last_error c) = MAX_ERROR_LENGTH \<and>
     ctx_last_error c ! (MAX_ERROR_LENGTH - 1) = NUL \<and>
     0 < ctx_memory_pool_size c"

lemma context_wf_init:
  "polycall_init_with_config block has_ctx config = (s, Some (p, c)) \<Longrightarrow> context_wf c \<and> p \<noteq> 0"
  by (auto simp: polycall_init_with_config_def context_wf_def MAX_ERROR_LENGTH_def Let_def
      split: if_splits option.splits)

lemma context_wf_set_error:
  "context_wf c \<Longrightarrow> set_error (Some c) e = Some c' \<Longrightarrow> context_wf c'"
  by (auto simp: set_error_def context_wf_def MAX_ERROR_LENGTH_def last_strncpy_buf [of 256, simplified]
      split: option.splits)

lemma init_status_iff:
  "fst (polycall_init_with_config block has_ctx config) = POLYCALL_SUCCESS \<longleftrightarrow> has_ctx \<and> block \<noteq> 0"
  by (simp add: polycall_init_with_config_def Let_def)

lemma get_last_error_set_error:
  "polycall_get_last_error (set_error (Some c) (Some e)) = take 255 (cstr e)"
  by (simp add: polycall_get_last_error_def set_error_def cstr_strncpy_buf MAX_ERROR_LENGTH_def)

end
