(* ===== verification/State_Machine.thy ===== *)
theory State_Machine
  imports Checksum Polycall_Context
begin

text \<open>
  \<open>src/polycall_state_machine.c\<close> and \<open>include/polycall_state_machine.h\<close>: a machine of at
  most 32 states and 64 transitions held in fixed arrays, its checksums, locks, versions
  and snapshots. \<open>time(NULL)\<close> is the parameter \<open>now\<close>; a machine pointer is an
  option (\<open>None\<close> for NULL); a callback is its address, and an operation that calls
  callbacks returns the calls it made, each with the context pointer it passed.
\<close>

section \<open>Data\<close>

definition POLYCALL_MAX_NAME_LENGTH :: nat where [simp]: "POLYCALL_MAX_NAME_LENGTH = 32"
definition POLYCALL_MAX_STATES :: u32 where [simp]: "POLYCALL_MAX_STATES = 32"
definition POLYCALL_MAX_TRANSITIONS :: u32 where [simp]: "POLYCALL_MAX_TRANSITIONS = 64"

datatype sm_status =
    SM_SUCCESS
  | SM_ERROR_INVALID_STATE
  | SM_ERROR_INVALID_TRANSITION
  | SM_ERROR_MAX_STATES_REACHED
  | SM_ERROR_MAX_TRANSITIONS_REACHED
  | SM_ERROR_INVALID_CONTEXT
  | SM_ERROR_NOT_INITIALIZED
  | SM_ERROR_INTEGRITY_CHECK_FAILED
  | SM_ERROR_STATE_LOCKED
  | SM_ERROR_VERSION_MISMATCH

record sm_state =
  st_name :: string
  st_on_enter :: address
  st_on_exit :: address
  st_is_final :: bool
  st_id :: u32
  st_checksum :: u32
  st_timestamp :: u64
  st_version :: u32
  st_is_locked :: bool

record sm_transition =
  tr_name :: string
  tr_from_state :: u32
  tr_to_state :: u32
  tr_action :: address
  tr_is_valid :: bool
  tr_guard_condition :: "(sm_state \<Rightarrow> sm_state \<Rightarrow> bool) option"
  tr_guard_checksum :: u32

record state_machine =
  sm_states :: "sm_state list"
  sm_transitions :: "sm_transition list"
  sm_current_state :: u32
  sm_num_states :: u32
  sm_num_transitions :: u32
  sm_ctx :: address
  sm_is_initialized :: bool
  sm_integrity_check :: "(sm_state \<Rightarrow> bool) option"
  sm_machine_checksum :: u32
  sm_failed_transitions :: u32
  sm_integrity_violations :: u32
  sm_last_verification :: u64

record sm_snapshot =
  ss_state :: sm_state
  ss_timestamp :: u64
  ss_checksum :: u32

record sm_diagnostics =
  dg_state_id :: u32
  dg_creation_time :: u64
  dg_last_modified :: u64
  dg_transition_count :: u32
  dg_integrity_check_count :: u32
  dg_is_locked :: bool
  dg_current_checksum :: u32

text \<open>A callback that was called, and the context pointer it got.\<close>

type_synonym callback_call = "address \<times> address"

text \<open>The zeroed slots \<open>calloc\<close> gives.\<close>

definition zero_state :: sm_state where
  "zero_state = \<lparr>st_name = replicate POLYCALL_MAX_NAME_LENGTH NUL, st_on_enter = 0, st_on_exit = 0,
     st_is_final = False, st_id = 0, st_checksum = 0, st_timestamp = 0, st_version = 0,
     st_is_locked = False\<rparr>"

definition zero_transition :: sm_transition where
  "zero_transition = \<lparr>tr_name = replicate POLYCALL_MAX_NAME_LENGTH NUL, tr_from_state = 0,
     tr_to_state = 0, tr_action = 0, tr_is_valid = False, tr_guard_condition = None,
     tr_guard_checksum = 0\<rparr>"

section \<open>Checksum and version of a state\<close>

text \<open>
  The bytes from the start of the struct up to \<open>offsetof(PolyCall_State, checksum)\<close>: the
  name, the two callback pointers, \<open>is_final\<close> with its three padding bytes (zero, from
  \<open>calloc\<close>) and the id; 56 bytes in all.
\<close>

definition state_bytes :: "sm_state \<Rightarrow> u8 list" where
  "state_bytes st =
     char_bytes (st_name st) @ le64 (st_on_enter st) @ le64 (st_on_exit st) @
     [if st_is_final st then 1 else 0, 0, 0, 0] @ le32 (st_id st)"

definition calculate_state_checksum :: "sm_state \<Rightarrow> u32" where
  "calculate_state_checksum st = checksum_bytes (rotate_add 8) (state_bytes st)"

definition update_state_timestamp :: "u64 \<Rightarrow> sm_state \<Rightarrow> sm_state" where
  "update_state_timestamp now st = st\<lparr>st_timestamp := now, st_version := st_version st + 1\<rparr>"

section \<open>Creation and destruction\<close>

text \<open>\<open>has_sm\<close> is \<open>sm != NULL\<close>, \<open>calloc_ok\<close> whether the allocation succeeds.\<close>

definition polycall_sm_create_with_integrity ::
  "bool \<Rightarrow> u64 \<Rightarrow> address \<Rightarrow> bool \<Rightarrow> (sm_state \<Rightarrow> bool) option
     \<Rightarrow> sm_status \<times> state_machine option" where
  "polycall_sm_create_with_integrity calloc_ok now ctx has_sm integrity_check =
     (if ctx = 0 \<or> \<not> has_sm then (SM_ERROR_INVALID_CONTEXT, None)
      else if \<not> calloc_ok then (SM_ERROR_NOT_INITIALIZED, None)
      else (SM_SUCCESS, Some
        \<lparr>sm_states = replicate 32 zero_state, sm_transitions = replicate 64 zero_transition,
         sm_current_state = 0, sm_num_states = 0, sm_num_transitions = 0, sm_ctx = ctx,
         sm_is_initialized = True, sm_integrity_check = integrity_check,
         sm_machine_checksum = 0, sm_failed_transitions = 0, sm_integrity_violations = 0,
         sm_last_verification = now\<rparr>))"

text \<open>The object is gone whatever it was: the pointer the caller keeps dangles.\<close>

definition polycall_sm_destroy :: "state_machine option \<Rightarrow> state_machine option" where
  "polycall_sm_destroy sm = None"

text \<open>The guard every operation opens with: \<open>if (!sm || !sm->is_initialized) return err;\<close>\<close>

definition sm_guarded ::
  "sm_status \<Rightarrow> (state_machine \<Rightarrow> sm_status \<times> state_machine) \<Rightarrow> state_machine option
     \<Rightarrow> sm_status \<times> state_machine option" where
  "sm_guarded err body sm =
     (case sm of
        None \<Rightarrow> (err, None)
      | Some m \<Rightarrow> if \<not> sm_is_initialized m then (err, Some m)
                  else (case body m of (s, m') \<Rightarrow> (s, Some m')))"

definition sm_guarded_read ::
  "sm_status \<Rightarrow> (state_machine \<Rightarrow> sm_status + 'a) \<Rightarrow> state_machine option \<Rightarrow> sm_status + 'a" where
  "sm_guarded_read err body sm =
     (case sm of
        None \<Rightarrow> Inl err
      | Some m \<Rightarrow> if \<not> sm_is_initialized m then Inl err else body m)"

section \<open>States and transitions\<close>

text \<open>\<open>sm->states[i] = st\<close>; the machine is unchanged otherwise.\<close>

definition write_state :: "u32 \<Rightarrow> sm_state \<Rightarrow> state_machine \<Rightarrow> state_machine" where
  "write_state i st m = m\<lparr>sm_states := (sm_states m)[unat i := st]\<rparr>"

definition read_state :: "state_machine \<Rightarrow> u32 \<Rightarrow> sm_state" where
  "read_state m i = sm_states m ! unat i"

text \<open>What \<open>polycall_sm_add_state\<close> makes of the slot it takes, field by field.\<close>

definition fill_state :: "u64 \<Rightarrow> string \<Rightarrow> address \<Rightarrow> address \<Rightarrow> bool \<Rightarrow> u32 \<Rightarrow> sm_state \<Rightarrow> sm_state" where
  "fill_state now name on_enter on_exit is_final i slot =
     (let st = slot
        \<lparr>st_name := strncpy_buf POLYCALL_MAX_NAME_LENGTH name, st_on_enter := on_enter,
         st_on_exit := on_exit, st_is_final := is_final, st_id := i,
         st_version := 1, st_is_locked := False\<rparr>;
          st = update_state_timestamp now st
      in st\<lparr>st_checksum := calculate_state_checksum st\<rparr>)"

definition polycall_sm_add_state ::
  "u64 \<Rightarrow> string option \<Rightarrow> address \<Rightarrow> address \<Rightarrow> bool \<Rightarrow> state_machine option
     \<Rightarrow> sm_status \<times> state_machine option" where
  "polycall_sm_add_state now name on_enter on_exit is_final = sm_guarded SM_ERROR_INVALID_STATE (\<lambda>m.
     case name of None \<Rightarrow> (SM_ERROR_INVALID_STATE, m) | Some nm \<Rightarrow>
     if sm_num_states m \<ge> POLYCALL_MAX_STATES then (SM_ERROR_MAX_STATES_REACHED, m)
     else
       let n = sm_num_states m;
           st = fill_state now nm on_enter on_exit is_final n (read_state m n)
       in (SM_SUCCESS, (write_state n st m)\<lparr>sm_num_states := n + 1\<rparr>))"

definition polycall_sm_add_transition ::
  "string option \<Rightarrow> u32 \<Rightarrow> u32 \<Rightarrow> address \<Rightarrow> (sm_state \<Rightarrow> sm_state \<Rightarrow> bool) option
     \<Rightarrow> state_machine option \<Rightarrow> sm_status \<times> state_machine option" where
  "polycall_sm_add_transition name from_state to_state action guard_condition =
     sm_guarded SM_ERROR_INVALID_TRANSITION (\<lambda>m.
     case name of None \<Rightarrow> (SM_ERROR_INVALID_TRANSITION, m) | Some nm \<Rightarrow>
     if sm_num_transitions m \<ge> POLYCALL_MAX_TRANSITIONS then (SM_ERROR_MAX_TRANSITIONS_REACHED, m)
     else if from_state \<ge> sm_num_states m \<or> to_state \<ge> sm_num_states m
     then (SM_ERROR_INVALID_STATE, m)
     else
       let n = sm_num_transitions m;
           t = (sm_transitions m ! unat n)
             \<lparr>tr_name := strncpy_buf POLYCALL_MAX_NAME_LENGTH nm, tr_from_state := from_state,
              tr_to_state := to_state, tr_action := action,
              tr_guard_condition := guard_condition, tr_is_valid := True\<rparr>
       in (SM_SUCCESS, m\<lparr>sm_transitions := (sm_transitions m)[unat n := t],
                         sm_num_transitions := n + 1\<rparr>))"

text \<open>The search loop: the first transition in use with that name.\<close>

definition find_transition :: "string \<Rightarrow> state_machine \<Rightarrow> sm_transition option" where
  "find_transition name m =
     List.find (\<lambda>t. cstr (tr_name t) = cstr name)
       (take (unat (sm_num_transitions m)) (sm_transitions m))"

definition call_if_set :: "address \<Rightarrow> address \<Rightarrow> callback_call list" where
  "call_if_set f ctx = (if f \<noteq> 0 then [(f, ctx)] else [])"

definition polycall_sm_execute_transition ::
  "u64 \<Rightarrow> string option \<Rightarrow> state_machine option
     \<Rightarrow> sm_status \<times> state_machine option \<times> callback_call list" where
  "polycall_sm_execute_transition now transition_name sm =
     (case sm of None \<Rightarrow> (SM_ERROR_INVALID_TRANSITION, None, []) | Some m \<Rightarrow>
      case transition_name of None \<Rightarrow> (SM_ERROR_INVALID_TRANSITION, Some m, []) | Some nm \<Rightarrow>
      if \<not> sm_is_initialized m then (SM_ERROR_INVALID_TRANSITION, Some m, [])
      else
        let failed = m\<lparr>sm_failed_transitions := sm_failed_transitions m + 1\<rparr> in
        case find_transition nm m of
          None \<Rightarrow> (SM_ERROR_INVALID_TRANSITION, Some failed, [])
        | Some t \<Rightarrow>
            if \<not> tr_is_valid t then (SM_ERROR_INVALID_TRANSITION, Some failed, [])
            else
              let from_state = read_state m (tr_from_state t);
                  to_state = read_state m (tr_to_state t)
              in if st_is_locked from_state \<or> st_is_locked to_state
                 then (SM_ERROR_STATE_LOCKED, Some m, [])
                 else if (case tr_guard_condition t of None \<Rightarrow> False | Some g \<Rightarrow> \<not> g from_state to_state)
                 then (SM_ERROR_INVALID_TRANSITION, Some failed, [])
                 else (SM_SUCCESS,
                   Some (write_state (tr_to_state t) (update_state_timestamp now to_state)
                           (m\<lparr>sm_current_state := tr_to_state t\<rparr>)),
                   call_if_set (st_on_exit from_state) (sm_ctx m) @
                   call_if_set (tr_action t) (sm_ctx m) @
                   call_if_set (st_on_enter to_state) (sm_ctx m)))"

section \<open>Integrity, locks, snapshots, diagnostics\<close>

definition polycall_sm_verify_state_integrity ::
  "u32 \<Rightarrow> state_machine option \<Rightarrow> sm_status \<times> state_machine option" where
  "polycall_sm_verify_state_integrity state_id = sm_guarded SM_ERROR_NOT_INITIALIZED (\<lambda>m.
     if state_id \<ge> sm_num_states m then (SM_ERROR_INVALID_STATE, m)
     else
       let st = read_state m state_id;
           violated = m\<lparr>sm_integrity_violations := sm_integrity_violations m + 1\<rparr>
       in if calculate_state_checksum st \<noteq> st_checksum st
          then (SM_ERROR_INTEGRITY_CHECK_FAILED, violated)
          else if (case sm_integrity_check m of None \<Rightarrow> False | Some check \<Rightarrow> \<not> check st)
          then (SM_ERROR_INTEGRITY_CHECK_FAILED, violated)
          else (SM_SUCCESS, m))"

text \<open>\<open>polycall_sm_lock_state\<close> and \<open>polycall_sm_unlock_state\<close> differ in the flag they set.\<close>

definition set_state_lock :: "u64 \<Rightarrow> bool \<Rightarrow> u32 \<Rightarrow> state_machine option
    \<Rightarrow> sm_status \<times> state_machine option" where
  "set_state_lock now locked state_id = sm_guarded SM_ERROR_NOT_INITIALIZED (\<lambda>m.
     if state_id \<ge> sm_num_states m then (SM_ERROR_INVALID_STATE, m)
     else
       let st = (read_state m state_id)\<lparr>st_is_locked := locked\<rparr>
       in (SM_SUCCESS, write_state state_id (update_state_timestamp now st) m))"

definition polycall_sm_lock_state ::
  "u64 \<Rightarrow> u32 \<Rightarrow> state_machine option \<Rightarrow> sm_status \<times> state_machine option" where
  "polycall_sm_lock_state now = set_state_lock now True"

definition polycall_sm_unlock_state ::
  "u64 \<Rightarrow> u32 \<Rightarrow> state_machine option \<Rightarrow> sm_status \<times> state_machine option" where
  "polycall_sm_unlock_state now = set_state_lock now False"

text \<open>\<open>has_snapshot\<close> is \<open>snapshot != NULL\<close>; the snapshot written through it is the result.\<close>

definition polycall_sm_create_state_snapshot ::
  "u64 \<Rightarrow> u32 \<Rightarrow> bool \<Rightarrow> state_machine option \<Rightarrow> sm_status + sm_snapshot" where
  "polycall_sm_create_state_snapshot now state_id has_snapshot =
     sm_guarded_read SM_ERROR_NOT_INITIALIZED (\<lambda>m.
     if \<not> has_snapshot then Inl SM_ERROR_NOT_INITIALIZED
     else if state_id \<ge> sm_num_states m then Inl SM_ERROR_INVALID_STATE
     else
       let st = read_state m state_id
       in Inr \<lparr>ss_state = st, ss_timestamp = now, ss_checksum = calculate_state_checksum st\<rparr>)"

definition polycall_sm_restore_state_from_snapshot ::
  "u64 \<Rightarrow> sm_snapshot option \<Rightarrow> state_machine option \<Rightarrow> sm_status \<times> state_machine option" where
  "polycall_sm_restore_state_from_snapshot now snapshot = sm_guarded SM_ERROR_NOT_INITIALIZED (\<lambda>m.
     case snapshot of None \<Rightarrow> (SM_ERROR_NOT_INITIALIZED, m) | Some ss \<Rightarrow>
     if st_id (ss_state ss) \<ge> sm_num_states m then (SM_ERROR_INVALID_STATE, m)
     else
       let st = read_state m (st_id (ss_state ss))
       in if st_is_locked st then (SM_ERROR_STATE_LOCKED, m)
          else if st_version st \<noteq> st_version (ss_state ss) then (SM_ERROR_VERSION_MISMATCH, m)
          else (SM_SUCCESS, write_state (st_id (ss_state ss))
                              (update_state_timestamp now (ss_state ss)) m))"

definition polycall_sm_get_state_version ::
  "u32 \<Rightarrow> bool \<Rightarrow> state_machine option \<Rightarrow> sm_status + u32" where
  "polycall_sm_get_state_version state_id has_version =
     sm_guarded_read SM_ERROR_NOT_INITIALIZED (\<lambda>m.
     if \<not> has_version then Inl SM_ERROR_NOT_INITIALIZED
     else if state_id \<ge> sm_num_states m then Inl SM_ERROR_INVALID_STATE
     else Inr (st_version (read_state m state_id)))"

definition polycall_sm_get_state_diagnostics ::
  "u32 \<Rightarrow> bool \<Rightarrow> state_machine option \<Rightarrow> sm_status + sm_diagnostics" where
  "polycall_sm_get_state_diagnostics state_id has_diagnostics =
     sm_guarded_read SM_ERROR_NOT_INITIALIZED (\<lambda>m.
     if \<not> has_diagnostics then Inl SM_ERROR_NOT_INITIALIZED
     else if state_id \<ge> sm_num_states m then Inl SM_ERROR_INVALID_STATE
     else
       let st = read_state m state_id
       in Inr \<lparr>dg_state_id = st_id st, dg_creation_time = st_timestamp st,
               dg_last_modified = st_timestamp st, dg_transition_count = 0,
               dg_integrity_check_count = 0, dg_is_locked = st_is_locked st,
               dg_current_checksum = st_checksum st\<rparr>)"

section \<open>The default machine\<close>

text \<open>
  The static callbacks of the file; where the linker puts them is the parameter
  \<open>linker\<close>. They print to stderr and change nothing.
\<close>

datatype state_callback = on_init | on_ready | on_running | on_paused | on_error

record state_config =
  sc_name :: string
  sc_on_enter :: address
  sc_on_exit :: address
  sc_is_final :: bool

definition DEFAULT_STATES :: "(state_callback \<Rightarrow> address) \<Rightarrow> state_config list" where
  "DEFAULT_STATES linker =
     [\<lparr>sc_name = ''INIT'', sc_on_enter = linker on_init, sc_on_exit = 0, sc_is_final = False\<rparr>,
      \<lparr>sc_name = ''READY'', sc_on_enter = linker on_ready, sc_on_exit = 0, sc_is_final = False\<rparr>,
      \<lparr>sc_name = ''RUNNING'', sc_on_enter = linker on_running, sc_on_exit = 0, sc_is_final = False\<rparr>,
      \<lparr>sc_name = ''PAUSED'', sc_on_enter = linker on_paused, sc_on_exit = 0, sc_is_final = False\<rparr>,
      \<lparr>sc_name = ''ERROR'', sc_on_enter = linker on_error, sc_on_exit = 0, sc_is_final = True\<rparr>]"

definition init_state :: "u64 \<Rightarrow> state_config \<Rightarrow> state_machine option
    \<Rightarrow> sm_status \<times> state_machine option" where
  "init_state now config sm =
     polycall_sm_add_state now (Some (sc_name config)) (sc_on_enter config) (sc_on_exit config)
       (sc_is_final config) sm"

text \<open>A loop that calls a fallible operation for every element and stops at the first failure.\<close>

fun sm_for_each :: "('a \<Rightarrow> state_machine option \<Rightarrow> sm_status \<times> state_machine option)
    \<Rightarrow> 'a list \<Rightarrow> state_machine option \<Rightarrow> sm_status \<times> state_machine option" where
  "sm_for_each f [] sm = (SM_SUCCESS, sm)"
| "sm_for_each f (x # xs) sm =
     (case f x sm of (status, sm') \<Rightarrow>
      if status \<noteq> SM_SUCCESS then (status, sm') else sm_for_each f xs sm')"

text \<open>The inner loop has no \<open>break\<close>: the last state of that name wins, state 0 if there is none.\<close>

definition state_id_named :: "string \<Rightarrow> state_machine \<Rightarrow> u32" where
  "state_id_named name m =
     foldl (\<lambda>found j. if cstr (st_name (sm_states m ! j)) = cstr name then of_nat j else found)
       0 [0..<unat (sm_num_states m)]"

definition DEFAULT_TRANSITIONS :: "(string \<times> string \<times> string) list" where
  "DEFAULT_TRANSITIONS =
     [(''to_ready'', ''INIT'', ''READY''),
      (''to_running'', ''READY'', ''RUNNING''),
      (''to_paused'', ''RUNNING'', ''PAUSED''),
      (''pause_to_running'', ''PAUSED'', ''RUNNING''),
      (''to_error'', ''RUNNING'', ''ERROR'')]"

definition init_default_transitions ::
  "state_machine option \<Rightarrow> sm_status \<times> state_machine option" where
  "init_default_transitions =
     sm_for_each (\<lambda>(name, from, to) sm.
       case sm of None \<Rightarrow> (SM_ERROR_INVALID_TRANSITION, None)
       | Some m \<Rightarrow> polycall_sm_add_transition (Some name) (state_id_named from m)
                   (state_id_named to m) 0 None (Some m)) DEFAULT_TRANSITIONS"

text \<open>
  \<open>block\<close> is what \<open>malloc\<close> returns for the context, \<open>has_ctx\<close> and \<open>has_sm\<close> say
  that the two out-pointers are not NULL. On a failure both objects have been freed.
\<close>

definition initialize_state_machine ::
  "(state_callback \<Rightarrow> address) \<Rightarrow> address \<Rightarrow> bool \<Rightarrow> u64 \<Rightarrow> bool \<Rightarrow> bool
     \<Rightarrow> sm_status \<times> (address \<times> polycall_context) option \<times> state_machine option" where
  "initialize_state_machine linker block calloc_ok now has_ctx has_sm =
     (case polycall_init_with_config block has_ctx
        (Some \<lparr>cfg_flags = 0, cfg_memory_pool_size = 0, cfg_user_data = 0\<rparr>) of
       (POLYCALL_SUCCESS, Some (ctx, c)) \<Rightarrow>
         (case polycall_sm_create_with_integrity calloc_ok now ctx has_sm None of
           (SM_SUCCESS, sm) \<Rightarrow>
             (case sm_for_each (init_state now) (DEFAULT_STATES linker) sm of (status, sm1) \<Rightarrow>
              if status \<noteq> SM_SUCCESS then (status, None, polycall_sm_destroy sm1)
              else case init_default_transitions sm1 of (status, sm2) \<Rightarrow>
                   if status \<noteq> SM_SUCCESS then (status, None, polycall_sm_destroy sm2)
                   else (SM_SUCCESS, Some (ctx, c), sm2))
         | _ \<Rightarrow> (SM_ERROR_NOT_INITIALIZED, None, None))
     | _ \<Rightarrow> (SM_ERROR_INVALID_CONTEXT, None, None))"

end
