(* ===== verification/State_Machine_Invariant.thy ===== *)
theory State_Machine_Invariant
  imports State_Machine
begin

text \<open>
  Well-formed state machines: what the tables of a machine satisfy whenever it was built
  by the API, a lemma per operation that says the operation keeps it, and the two
  characterisations of \<open>polycall_sm_execute_transition\<close> (when a transition is taken, and
  what taking it does) the other theories reason with.
\<close>

section \<open>Well-formed machines\<close>

text \<open>
  A sealed state is one the API built: a terminated name of full size and a checksum
  that matches. Locks, timestamps and versions are outside the checksummed bytes.
\<close>

definition state_sealed :: "sm_state \<Rightarrow> bool" where
  "state_sealed st \<longleftrightarrow>
     length (st_name st) = 32 \<and> st_name st ! 31 = NUL \<and> st_checksum st = calculate_state_checksum st"

definition states_wf :: "state_machine \<Rightarrow> bool" where
  "states_wf m \<longleftrightarrow>
     length (sm_states m) = 32 \<and> sm_num_states m \<le> 32 \<and>
     (\<forall>i < unat (sm_num_states m).
        state_sealed (sm_states m ! i) \<and> st_id (sm_states m ! i) = of_nat i)"

definition transitions_wf :: "state_machine \<Rightarrow> bool" where
  "transitions_wf m \<longleftrightarrow>
     length (sm_transitions m) = 64 \<and> sm_num_transitions m \<le> 64 \<and>
     (\<forall>i < unat (sm_num_transitions m).
        tr_is_valid (sm_transitions m ! i) \<and>
        length (tr_name (sm_transitions m ! i)) = 32 \<and> tr_name (sm_transitions m ! i) ! 31 = NUL \<and>
        tr_from_state (sm_transitions m ! i) < sm_num_states m \<and>
        tr_to_state (sm_transitions m ! i) < sm_num_states m)"

definition sm_wf :: "state_machine \<Rightarrow> bool" where
  "sm_wf m \<longleftrightarrow>
     sm_is_initialized m \<and> states_wf m \<and> transitions_wf m \<and>
     (sm_current_state m = 0 \<or> sm_current_state m < sm_num_states m)"

lemma checksum_unsealed_fields [simp]:
  "calculate_state_checksum (st\<lparr>st_is_locked := l\<rparr>) = calculate_state_checksum st"
  "calculate_state_checksum (st\<lparr>st_checksum := k\<rparr>) = calculate_state_checksum st"
  "calculate_state_checksum (update_state_timestamp now st) = calculate_state_checksum st"
  by (simp_all add: calculate_state_checksum_def state_bytes_def update_state_timestamp_def)

lemma update_state_timestamp_fields [simp]:
  "st_name (update_state_timestamp now st) = st_name st"
  "st_on_enter (update_state_timestamp now st) = st_on_enter st"
  "st_on_exit (update_state_timestamp now st) = st_on_exit st"
  "st_is_final (update_state_timestamp now st) = st_is_final st"
  "st_id (update_state_timestamp now st) = st_id st"
  "st_checksum (update_state_timestamp now st) = st_checksum st"
  "st_is_locked (update_state_timestamp now st) = st_is_locked st"
  "st_version (update_state_timestamp now st) = st_version st + 1"
  "st_timestamp (update_state_timestamp now st) = now"
  by (simp_all add: update_state_timestamp_def)

lemma state_sealed_update [simp]:
  "state_sealed (update_state_timestamp now st) = state_sealed st"
  "state_sealed (st\<lparr>st_is_locked := l\<rparr>) = state_sealed st"
  by (simp_all add: state_sealed_def)

lemma unat_le_const32: "(n :: u32) \<le> 32 \<longleftrightarrow> unat n \<le> 32" "(n :: u32) \<ge> 32 \<longleftrightarrow> unat n \<ge> 32"
  "(n :: u32) \<le> 64 \<longleftrightarrow> unat n \<le> 64" "(n :: u32) \<ge> 64 \<longleftrightarrow> unat n \<ge> 64"
  by (simp_all add: word_le_nat_alt)

lemma state_sealed_fill [simp]: "state_sealed (fill_state now nm en ex fin i slot)"
  by (simp add: state_sealed_def fill_state_def Let_def last_strncpy_buf [of 32, simplified])

lemma fill_state_fields [simp]:
  "cstr (st_name (fill_state now nm en ex fin i slot)) = take 31 (cstr nm)"
  "st_on_enter (fill_state now nm en ex fin i slot) = en"
  "st_on_exit (fill_state now nm en ex fin i slot) = ex"
  "st_is_final (fill_state now nm en ex fin i slot) = fin"
  "st_id (fill_state now nm en ex fin i slot) = i"
  "st_timestamp (fill_state now nm en ex fin i slot) = now"
  "st_version (fill_state now nm en ex fin i slot) = 2"
  "st_is_locked (fill_state now nm en ex fin i slot) = False"
  by (simp_all add: fill_state_def Let_def cstr_strncpy_buf)

lemma write_state_fields [simp]:
  "sm_num_states (write_state i st m) = sm_num_states m"
  "sm_transitions (write_state i st m) = sm_transitions m"
  "sm_num_transitions (write_state i st m) = sm_num_transitions m"
  "sm_current_state (write_state i st m) = sm_current_state m"
  "sm_is_initialized (write_state i st m) = sm_is_initialized m"
  "sm_integrity_check (write_state i st m) = sm_integrity_check m"
  "sm_ctx (write_state i st m) = sm_ctx m"
  "sm_failed_transitions (write_state i st m) = sm_failed_transitions m"
  "sm_integrity_violations (write_state i st m) = sm_integrity_violations m"
  "length (sm_states (write_state i st m)) = length (sm_states m)"
  by (simp_all add: write_state_def)

lemma states_wf_bound: "states_wf m \<Longrightarrow> i \<le> sm_num_states m \<Longrightarrow> i < 32 \<Longrightarrow> unat i < length (sm_states m)"
  by (auto simp: states_wf_def word_le_nat_alt word_less_nat_alt)

lemma read_write_state:
  "unat i < length (sm_states m) \<Longrightarrow>
   read_state (write_state i st m) j = (if i = j then st else read_state m j)"
  by (auto simp: read_state_def write_state_def nth_list_update word_unat_eq_iff)

lemma read_state_cong [simp]:
  "read_state (m\<lparr>sm_num_states := n\<rparr>) i = read_state m i"
  "read_state (m\<lparr>sm_current_state := n\<rparr>) i = read_state m i"
  "read_state (m\<lparr>sm_failed_transitions := n\<rparr>) i = read_state m i"
  "read_state (m\<lparr>sm_integrity_violations := n\<rparr>) i = read_state m i"
  "read_state (m\<lparr>sm_transitions := ts, sm_num_transitions := n\<rparr>) i = read_state m i"
  by (simp_all add: read_state_def)

lemma states_wf_read:
  "states_wf m \<Longrightarrow> i < sm_num_states m \<Longrightarrow> state_sealed (read_state m i) \<and> st_id (read_state m i) = i"
  by (auto simp: states_wf_def read_state_def word_less_nat_alt)

text \<open>The two changes an operation makes to the state table: overwrite an entry, append one.\<close>

lemma sm_wf_write_state [wf_intros]:
  assumes "sm_wf m" "i < sm_num_states m" "state_sealed st" "st_id st = i"
  shows "sm_wf (write_state i st m)"
  using assms
  by (auto simp: sm_wf_def states_wf_def transitions_wf_def write_state_def nth_list_update
      word_less_nat_alt word_le_nat_alt)

lemma unat_inc_states: "(n :: u32) < 32 \<Longrightarrow> unat (n + 1) = Suc (unat n)"
  and unat_inc_transitions: "(n :: u32) < 64 \<Longrightarrow> unat (n + 1) = Suc (unat n)"
  by (auto intro!: unat_inc32 [of _ 64] simp: word_less_nat_alt)

lemma sm_wf_append_state [wf_intros]:
  assumes "sm_wf m" "sm_num_states m < 32" "state_sealed st" "st_id st = sm_num_states m"
  shows "sm_wf ((write_state (sm_num_states m) st m)\<lparr>sm_num_states := sm_num_states m + 1\<rparr>)"
  using assms unat_inc_states [OF assms(2)]
  by (auto simp: sm_wf_def states_wf_def transitions_wf_def write_state_def nth_list_update
      less_Suc_eq word_less_nat_alt word_le_nat_alt intro: less_SucI)

lemma sm_wf_append_transition [wf_intros]:
  assumes "sm_wf m" "sm_num_transitions m < 64" "tr_is_valid t"
    "length (tr_name t) = 32" "tr_name t ! 31 = NUL"
    "tr_from_state t < sm_num_states m" "tr_to_state t < sm_num_states m"
  shows "sm_wf (m\<lparr>sm_transitions := (sm_transitions m)[unat (sm_num_transitions m) := t],
                  sm_num_transitions := sm_num_transitions m + 1\<rparr>)"
  using assms unat_inc_transitions [OF assms(2)]
  by (auto simp: sm_wf_def states_wf_def transitions_wf_def nth_list_update
      less_Suc_eq word_less_nat_alt word_le_nat_alt)

lemma sm_wf_counters [simp]:
  "sm_wf (m\<lparr>sm_failed_transitions := a\<rparr>) = sm_wf m"
  "sm_wf (m\<lparr>sm_integrity_violations := a\<rparr>) = sm_wf m"
  by (simp_all add: sm_wf_def states_wf_def transitions_wf_def)

lemma sm_wf_current [wf_intros]:
  "sm_wf m \<Longrightarrow> i < sm_num_states m \<Longrightarrow> sm_wf (m\<lparr>sm_current_state := i\<rparr>)"
  by (simp add: sm_wf_def states_wf_def transitions_wf_def)

lemma sm_wf_simps:
  "sm_wf m \<Longrightarrow> sm_is_initialized m" "sm_wf m \<Longrightarrow> states_wf m" "sm_wf m \<Longrightarrow> transitions_wf m"
  by (simp_all add: sm_wf_def)

lemma find_transition_wf:
  assumes "sm_wf m" "find_transition nm m = Some t"
  shows "tr_is_valid t \<and> tr_from_state t < sm_num_states m \<and> tr_to_state t < sm_num_states m
     \<and> cstr (tr_name t) = cstr nm \<and> length (tr_name t) = 32 \<and> tr_name t ! 31 = NUL"
proof -
  obtain i where "i < unat (sm_num_transitions m)" "t = sm_transitions m ! i" "cstr (tr_name t) = cstr nm"
    using assms(2) by (auto simp: find_transition_def find_Some_iff)
  then show ?thesis using assms(1) by (auto simp: sm_wf_def transitions_wf_def)
qed

section \<open>Every operation keeps the machine well formed\<close>

lemma pred_sm_guarded:
  assumes "pred_option P sm" and "\<And>m. P m \<Longrightarrow> sm_is_initialized m \<Longrightarrow> P (snd (body m))"
  shows "pred_option P (snd (sm_guarded err body sm))"
proof (cases sm)
  case (Some m)
  with assms show ?thesis by (cases "body m") (force simp: sm_guarded_def)
qed (simp add: sm_guarded_def)

lemma sm_wf_add_state [wf_intros]:
  "pred_option sm_wf sm \<Longrightarrow> pred_option sm_wf (snd (polycall_sm_add_state now name en ex fin sm))"
  unfolding polycall_sm_add_state_def
  by (erule pred_sm_guarded) (simp add: Let_def sm_wf_append_state split: option.splits)

lemma sm_wf_add_transition [wf_intros]:
  "pred_option sm_wf sm \<Longrightarrow> pred_option sm_wf (snd (polycall_sm_add_transition name from to act g sm))"
  unfolding polycall_sm_add_transition_def
  by (erule pred_sm_guarded) (simp add: Let_def not_le sm_wf_append_transition last_strncpy_buf [of 32, simplified]
      split: option.splits)

lemma sm_wf_verify [wf_intros]:
  "pred_option sm_wf sm \<Longrightarrow> pred_option sm_wf (snd (polycall_sm_verify_state_integrity i sm))"
  unfolding polycall_sm_verify_state_integrity_def
  by (erule pred_sm_guarded) (simp add: Let_def split: option.splits)

lemma sm_wf_set_lock:
  "pred_option sm_wf sm \<Longrightarrow> pred_option sm_wf (snd (set_state_lock now l i sm))"
  unfolding set_state_lock_def
  by (erule pred_sm_guarded)
    (auto simp: Let_def not_le sm_wf_simps states_wf_read intro!: sm_wf_write_state)

lemma sm_wf_lock [wf_intros]:
  "pred_option sm_wf sm \<Longrightarrow> pred_option sm_wf (snd (polycall_sm_lock_state now i sm))"
  and sm_wf_unlock [wf_intros]:
  "pred_option sm_wf sm \<Longrightarrow> pred_option sm_wf (snd (polycall_sm_unlock_state now i sm))"
  by (simp_all add: polycall_sm_lock_state_def polycall_sm_unlock_state_def sm_wf_set_lock)

lemma sm_wf_restore [wf_intros]:
  "pred_option sm_wf sm \<Longrightarrow> pred_option (\<lambda>s. state_sealed (ss_state s)) ss \<Longrightarrow>
   pred_option sm_wf (snd (polycall_sm_restore_state_from_snapshot now ss sm))"
  unfolding polycall_sm_restore_state_from_snapshot_def
  by (erule pred_sm_guarded)
    (auto simp: Let_def not_le intro!: sm_wf_write_state split: option.splits)

text \<open>
  When a transition is taken: it is in the table, both its states are unlocked and its
  guard, if any, accepts them; and what taking it does.
\<close>

definition transition_enabled :: "state_machine \<Rightarrow> sm_transition \<Rightarrow> bool" where
  "transition_enabled m t \<longleftrightarrow>
     tr_is_valid t \<and> \<not> st_is_locked (read_state m (tr_from_state t)) \<and>
     \<not> st_is_locked (read_state m (tr_to_state t)) \<and>
     pred_option (\<lambda>g. g (read_state m (tr_from_state t)) (read_state m (tr_to_state t)))
       (tr_guard_condition t)"

definition take_transition :: "u64 \<Rightarrow> sm_transition \<Rightarrow> state_machine \<Rightarrow> state_machine" where
  "take_transition now t m =
     write_state (tr_to_state t) (update_state_timestamp now (read_state m (tr_to_state t)))
       (m\<lparr>sm_current_state := tr_to_state t\<rparr>)"

definition transition_calls :: "sm_transition \<Rightarrow> state_machine \<Rightarrow> callback_call list" where
  "transition_calls t m =
     call_if_set (st_on_exit (read_state m (tr_from_state t))) (sm_ctx m) @
     call_if_set (tr_action t) (sm_ctx m) @
     call_if_set (st_on_enter (read_state m (tr_to_state t))) (sm_ctx m)"

lemma execute_enabled:
  assumes "sm_is_initialized m" "find_transition nm m = Some t" "transition_enabled m t"
  shows "polycall_sm_execute_transition now (Some nm) (Some m) =
    (SM_SUCCESS, Some (take_transition now t m), transition_calls t m)"
  using assms
  by (auto simp: polycall_sm_execute_transition_def Let_def transition_enabled_def
      take_transition_def transition_calls_def split: option.splits)

lemma execute_cases:
  assumes "polycall_sm_execute_transition now (Some nm) (Some m) = (s, r, cs)" "sm_is_initialized m"
  obtains (locked) t where "find_transition nm m = Some t" "s = SM_ERROR_STATE_LOCKED" "r = Some m" "cs = []"
    | (failed) "s = SM_ERROR_INVALID_TRANSITION" "cs = []"
        "r = Some (m\<lparr>sm_failed_transitions := sm_failed_transitions m + 1\<rparr>)"
    | (taken) t where "find_transition nm m = Some t" "transition_enabled m t" "s = SM_SUCCESS"
        "r = Some (take_transition now t m)" "cs = transition_calls t m"
  using assms
  by (auto simp: polycall_sm_execute_transition_def Let_def transition_enabled_def
      take_transition_def transition_calls_def split: option.splits if_splits)

lemma sm_wf_take_transition [wf_intros]:
  assumes "sm_wf m" "find_transition nm m = Some t"
  shows "sm_wf (take_transition now t m)"
  using find_transition_wf [OF assms] states_wf_read [of m "tr_to_state t"] assms(1)
  by (auto simp: take_transition_def sm_wf_simps intro!: sm_wf_write_state sm_wf_current)

lemma sm_wf_execute [wf_intros]:
  assumes "pred_option sm_wf sm"
  shows "pred_option sm_wf (fst (snd (polycall_sm_execute_transition now nm sm)))"
proof (cases "sm = None \<or> nm = None")
  case True
  with assms show ?thesis
    by (auto simp: polycall_sm_execute_transition_def split: option.splits)
next
  case False
  then obtain m n where sm: "sm = Some m" "nm = Some n" by auto
  obtain s r cs where ex: "polycall_sm_execute_transition now (Some n) (Some m) = (s, r, cs)"
    by (rule prod_cases3)
  from assms sm have m: "sm_wf m" by simp
  from ex sm_wf_simps(1) [OF m] show ?thesis
    by (cases rule: execute_cases) (use sm m ex in \<open>auto simp: sm_wf_take_transition\<close>)
qed

section \<open>The checksum of a state\<close>

interpretation state_sum: rolling_checksum "rotate_add 8"
  by (rule rolling_rotate_add) simp_all

end
