(* ===== verification/State_Machine_Session.thy ===== *)
theory State_Machine_Session
  imports State_Machine_Invariant
begin

text \<open>
  Clients of the state machine API over time: a session is a machine and the snapshots
  taken of it, a call is any operation of the API with any arguments. Every session
  started by \<open>polycall_sm_create_with_integrity\<close> stays well formed, its states are
  never removed, and a snapshot is restored only onto the state it was taken of.
\<close>

section \<open>Client sessions\<close>

text \<open>
  A client of the API: a machine and the snapshots it has taken, by state id, as the
  runtime keeps them (\<open>snapshots\<close> and \<open>has_snapshot\<close> of \<open>PPI_Runtime\<close>).
\<close>

record sm_session =
  ses_machine :: "state_machine option"
  ses_snapshots :: "u32 \<rightharpoonup> sm_snapshot"

datatype sm_call =
    AddState "string option" address address bool
  | AddTransition "string option" u32 u32 address "(sm_state \<Rightarrow> sm_state \<Rightarrow> bool) option"
  | ExecuteTransition "string option"
  | VerifyState u32
  | LockState u32
  | UnlockState u32
  | TakeSnapshot u32
  | RestoreSnapshot u32

fun session_step :: "u64 \<times> sm_call \<Rightarrow> sm_session \<Rightarrow> sm_session" where
  "session_step (now, AddState n en ex f) s =
     s\<lparr>ses_machine := snd (polycall_sm_add_state now n en ex f (ses_machine s))\<rparr>"
| "session_step (now, AddTransition n from to act g) s =
     s\<lparr>ses_machine := snd (polycall_sm_add_transition n from to act g (ses_machine s))\<rparr>"
| "session_step (now, ExecuteTransition n) s =
     s\<lparr>ses_machine := fst (snd (polycall_sm_execute_transition now n (ses_machine s)))\<rparr>"
| "session_step (now, VerifyState i) s =
     s\<lparr>ses_machine := snd (polycall_sm_verify_state_integrity i (ses_machine s))\<rparr>"
| "session_step (now, LockState i) s =
     s\<lparr>ses_machine := snd (polycall_sm_lock_state now i (ses_machine s))\<rparr>"
| "session_step (now, UnlockState i) s =
     s\<lparr>ses_machine := snd (polycall_sm_unlock_state now i (ses_machine s))\<rparr>"
| "session_step (now, TakeSnapshot i) s =
     (case polycall_sm_create_state_snapshot now i True (ses_machine s) of
        Inl _ \<Rightarrow> s
      | Inr ss \<Rightarrow> s\<lparr>ses_snapshots := (ses_snapshots s)(i \<mapsto> ss)\<rparr>)"
| "session_step (now, RestoreSnapshot i) s =
     (case ses_snapshots s i of
        None \<Rightarrow> s
      | Some ss \<Rightarrow> s\<lparr>ses_machine :=
          snd (polycall_sm_restore_state_from_snapshot now (Some ss) (ses_machine s))\<rparr>)"

definition session_wf :: "sm_session \<Rightarrow> bool" where
  "session_wf s \<longleftrightarrow>
     ses_machine s \<noteq> None \<and> pred_option sm_wf (ses_machine s) \<and>
     (\<forall>i ss. ses_snapshots s i = Some ss \<longrightarrow> state_sealed (ss_state ss) \<and> st_id (ss_state ss) = i)"

lemma take_snapshot_Inr:
  assumes "polycall_sm_create_state_snapshot now i has (Some m) = Inr ss"
  shows "i < sm_num_states m \<and> ss_state ss = read_state m i"
  using assms
  by (auto simp: polycall_sm_create_state_snapshot_def sm_guarded_read_def Let_def not_le split: if_splits)

lemma sm_guarded_None_iff [simp]: "snd (sm_guarded err body sm) = None \<longleftrightarrow> sm = None"
  by (auto simp: sm_guarded_def split: option.splits prod.splits)

lemma execute_None_iff [simp]:
  "fst (snd (polycall_sm_execute_transition now nm sm)) = None \<longleftrightarrow> sm = None"
  by (auto simp: polycall_sm_execute_transition_def Let_def split: option.splits)

lemmas sm_operation_defs =
  polycall_sm_add_state_def polycall_sm_add_transition_def polycall_sm_verify_state_integrity_def
  set_state_lock_def polycall_sm_lock_state_def polycall_sm_unlock_state_def
  polycall_sm_restore_state_from_snapshot_def

lemma operation_None_iff [simp]:
  "snd (polycall_sm_add_state now n en ex f sm) = None \<longleftrightarrow> sm = None"
  "snd (polycall_sm_add_transition n from to act g sm) = None \<longleftrightarrow> sm = None"
  "snd (polycall_sm_verify_state_integrity i sm) = None \<longleftrightarrow> sm = None"
  "snd (polycall_sm_lock_state now i sm) = None \<longleftrightarrow> sm = None"
  "snd (polycall_sm_unlock_state now i sm) = None \<longleftrightarrow> sm = None"
  "snd (polycall_sm_restore_state_from_snapshot now ss sm) = None \<longleftrightarrow> sm = None"
  by (simp_all add: sm_operation_defs)

lemma session_wf_step: "session_wf s \<Longrightarrow> session_wf (session_step e s)"
proof (cases "(e, s)" rule: session_step.cases)
  case (7 now i s')
  assume wf: "session_wf s"
  show ?thesis
  proof (cases "polycall_sm_create_state_snapshot now i True (ses_machine s)")
    case (Inr ss)
    then obtain m where m: "ses_machine s = Some m"
      by (auto simp: polycall_sm_create_state_snapshot_def sm_guarded_read_def split: option.splits)
    with wf Inr take_snapshot_Inr [of now i True m ss] states_wf_read [of m i] sm_wf_simps(2) [of m]
    show ?thesis using 7 by (auto simp: session_wf_def)
  qed (use wf 7 in auto)
qed (auto simp: session_wf_def wf_intros simp del: not_None_eq split: option.splits)

interpretation session: stepwise_invariant session_step session_wf
  by unfold_locales (rule session_wf_step)
definition fresh_session :: "u64 \<Rightarrow> address \<Rightarrow> (sm_state \<Rightarrow> bool) option \<Rightarrow> sm_session" where
  "fresh_session now ctx check =
     \<lparr>ses_machine = snd (polycall_sm_create_with_integrity True now ctx True check),
      ses_snapshots = Map.empty\<rparr>"

lemma session_wf_fresh: "ctx \<noteq> 0 \<Longrightarrow> session_wf (fresh_session now ctx check)"
  by (simp add: fresh_session_def session_wf_def polycall_sm_create_with_integrity_def sm_wf_def
      states_wf_def transitions_wf_def)

definition session_states :: "sm_session \<Rightarrow> nat" where
  "session_states s = (case ses_machine s of None \<Rightarrow> 0 | Some m \<Rightarrow> unat (sm_num_states m))"


text \<open>
  What an operation does to the state table: nothing, a rewrite of one entry that counts
  its version up, or a new entry of version 2.
\<close>

definition table_effect :: "state_machine \<Rightarrow> state_machine \<Rightarrow> bool" where
  "table_effect m m' \<longleftrightarrow>
     sm_states m' = sm_states m \<and> sm_num_states m' = sm_num_states m \<or>
     (\<exists>i st. i < sm_num_states m \<and> st_version st = st_version (read_state m i) + 1 \<and>
        sm_states m' = (sm_states m)[unat i := st] \<and> sm_num_states m' = sm_num_states m) \<or>
     (\<exists>st. sm_num_states m < 32 \<and> st_version st = 2 \<and>
        sm_states m' = (sm_states m)[unat (sm_num_states m) := st] \<and>
        sm_num_states m' = sm_num_states m + 1)"

lemma sm_guarded_effect:
  assumes "snd (sm_guarded err body (Some m)) = Some m'" and "\<And>s x. body m = (s, x) \<Longrightarrow> table_effect m x"
  shows "table_effect m m'"
  using assms by (cases "body m") (auto simp: sm_guarded_def table_effect_def split: if_splits)

lemma table_effect_refl [simp]: "table_effect m m"
  "table_effect m (m\<lparr>sm_failed_transitions := k\<rparr>)"
  "table_effect m (m\<lparr>sm_integrity_violations := k\<rparr>)"
  "table_effect m (m\<lparr>sm_transitions := ts, sm_num_transitions := k\<rparr>)"
  by (simp_all add: table_effect_def)

lemma table_effect_write:
  "i < sm_num_states m \<Longrightarrow> st_version st = st_version (read_state m i) + 1 \<Longrightarrow> table_effect m (write_state i st m)"
  "i < sm_num_states m \<Longrightarrow> st_version st = st_version (read_state m i) + 1 \<Longrightarrow>
    table_effect m (write_state i st (m\<lparr>sm_current_state := c\<rparr>))"
  by (auto simp: table_effect_def write_state_def)

lemma table_effect_append:
  "sm_num_states m < 32 \<Longrightarrow> st_version st = 2 \<Longrightarrow>
   table_effect m ((write_state (sm_num_states m) st m)\<lparr>sm_num_states := sm_num_states m + 1\<rparr>)"
  by (auto simp: table_effect_def write_state_def)

lemma session_effect:
  assumes "ses_machine s = Some m" "sm_wf m" "ses_machine (session_step e s) = Some m'"
  shows "table_effect m m'"
proof (cases "(e, s)" rule: session_step.cases)
  case (3 now n s')
  then have "fst (snd (polycall_sm_execute_transition now n (Some m))) = Some m'"
    using assms by simp
  then obtain st cs where ex: "polycall_sm_execute_transition now n (Some m) = (st, Some m', cs)"
    by (metis prod.collapse)
  show ?thesis
  proof (cases n)
    case None
    with ex show ?thesis by (auto simp: polycall_sm_execute_transition_def split: if_splits)
  next
    case (Some nm)
    with ex have "polycall_sm_execute_transition now (Some nm) (Some m) = (st, Some m', cs)" by simp
    then show ?thesis
      using sm_wf_simps(1) [OF assms(2)]
    proof (cases rule: execute_cases)
      case (taken t)
      then show ?thesis
        using find_transition_wf [OF assms(2) taken(1)]
        by (auto simp: take_transition_def intro: table_effect_write)
    qed auto
  qed
qed (use assms in \<open>auto simp: sm_operation_defs Let_def not_le
       intro!: table_effect_write table_effect_append elim!: sm_guarded_effect
       split: option.splits if_splits sum.splits\<close>)

lemma machine_step:
  assumes "session_wf s" "ses_machine s = Some m"
  obtains m' where "ses_machine (session_step e s) = Some m'" "sm_wf m'" "table_effect m m'"
proof -
  from assms have "session_wf (session_step e s)" by (simp add: session_wf_step)
  then obtain m' where m': "ses_machine (session_step e s) = Some m'" "sm_wf m'"
    by (auto simp: session_wf_def)
  with assms show ?thesis
    by (intro that [of m']) (auto simp: session_wf_def intro: session_effect)
qed

interpretation session: monotone_invariant session_step session_wf session_states
proof unfold_locales
  fix e s assume wf: "session_wf s"
  then obtain m where m: "ses_machine s = Some m" by (auto simp: session_wf_def)
  obtain m' where "ses_machine (session_step e s) = Some m'" "table_effect m m'"
    using machine_step [OF wf m] by metis
  with m show "session_states s \<le> session_states (session_step e s)"
    by (auto simp: session_states_def table_effect_def unat_inc_states)
qed

text \<open>
  Versions against snapshots, after \<open>n\<close> calls: no version has had the time to wrap, a
  snapshot is never ahead of its state, and where the versions agree nothing has changed.
\<close>

definition snapshots_current :: "nat \<Rightarrow> sm_session \<Rightarrow> bool" where
  "snapshots_current n s \<longleftrightarrow>
     session_wf s \<and>
     (\<forall>m. ses_machine s = Some m \<longrightarrow>
        (\<forall>i < sm_num_states m. unat (st_version (read_state m i)) \<le> n + 2) \<and>
        (\<forall>i ss. ses_snapshots s i = Some ss \<longrightarrow>
           i < sm_num_states m \<and>
           unat (st_version (ss_state ss)) \<le> unat (st_version (read_state m i)) \<and>
           (st_version (ss_state ss) = st_version (read_state m i) \<longrightarrow> ss_state ss = read_state m i)))"

lemma snapshots_current_wf: "snapshots_current n s \<Longrightarrow> session_wf s"
  by (simp add: snapshots_current_def)

lemma table_effect_versions:
  assumes "sm_wf m" "table_effect m m'" "n + 3 < 2 ^ 32"
    "\<forall>i < sm_num_states m. unat (st_version (read_state m i)) \<le> n + 2"
  shows "\<forall>i < sm_num_states m'. unat (st_version (read_state m' i)) \<le> Suc n + 2"
    and "i < sm_num_states m \<Longrightarrow> i < sm_num_states m' \<and>
      (read_state m' i = read_state m i \<or>
       unat (st_version (read_state m i)) < unat (st_version (read_state m' i)))"
proof -
  have len: "length (sm_states m) = 32" "unat (sm_num_states m) \<le> 32"
    using assms(1) by (auto simp: sm_wf_def states_wf_def word_le_nat_alt)
  have inc: "unat (st_version (read_state m j) + 1) = Suc (unat (st_version (read_state m j)))"
    if "j < sm_num_states m" for j
    using assms(3,4) that by (intro unat_inc32 [of _ "n + 3"]) (auto simp: less_Suc_eq_le)
  from assms(2) have "(\<forall>j < sm_num_states m'. unat (st_version (read_state m' j)) \<le> Suc n + 2) \<and>
     (i < sm_num_states m \<longrightarrow> i < sm_num_states m' \<and>
      (read_state m' i = read_state m i \<or>
       unat (st_version (read_state m i)) < unat (st_version (read_state m' i))))"
    unfolding table_effect_def
  proof (elim disjE exE conjE)
    assume "sm_states m' = sm_states m" "sm_num_states m' = sm_num_states m"
    with assms(4) show ?thesis by (auto simp: read_state_def intro: le_SucI)
  next
    fix k st
    assume k: "k < sm_num_states m" "st_version st = st_version (read_state m k) + 1"
      "sm_states m' = (sm_states m)[unat k := st]" "sm_num_states m' = sm_num_states m"
    have "read_state m' j = (if j = k then st else read_state m j)" for j
      using k len by (auto simp: read_state_def nth_list_update word_less_nat_alt word_unat_eq_iff)
    with k assms(4) show ?thesis by (auto simp: inc intro: le_SucI)
  next
    fix st
    assume st: "sm_num_states m < 32" "st_version st = 2"
      "sm_states m' = (sm_states m)[unat (sm_num_states m) := st]" "sm_num_states m' = sm_num_states m + 1"
    have "read_state m' j = (if j = sm_num_states m then st else read_state m j)" for j
      using st len by (auto simp: read_state_def nth_list_update word_less_nat_alt word_unat_eq_iff)
    moreover have "j < sm_num_states m + 1 \<longleftrightarrow> j < sm_num_states m \<or> j = sm_num_states m" for j
      using st(1) by (auto simp: word_less_nat_alt unat_inc_states less_Suc_eq word_unat_eq_iff)
    ultimately show ?thesis using st assms(4) by (auto intro: le_SucI)
  qed
  then show "\<forall>i < sm_num_states m'. unat (st_version (read_state m' i)) \<le> Suc n + 2"
    and "i < sm_num_states m \<Longrightarrow> i < sm_num_states m' \<and>
      (read_state m' i = read_state m i \<or>
       unat (st_version (read_state m i)) < unat (st_version (read_state m' i)))"
    by auto
qed

lemma session_snapshots_step:
  "ses_snapshots (session_step e s) i = Some ss \<Longrightarrow> ses_machine s = Some m \<Longrightarrow>
   ses_snapshots s i = Some ss \<or>
   (ses_machine (session_step e s) = Some m \<and> i < sm_num_states m \<and> ss_state ss = read_state m i)"
  by (cases "(e, s)" rule: session_step.cases)
    (auto split: sum.splits option.splits if_splits dest: take_snapshot_Inr)

lemma snapshots_current_step:
  assumes cur: "snapshots_current n s" and n: "n + 3 < 2 ^ 32"
  shows "snapshots_current (Suc n) (session_step e s)"
proof -
  from cur have wf: "session_wf s" by (rule snapshots_current_wf)
  then obtain m where m: "ses_machine s = Some m" "sm_wf m" by (auto simp: session_wf_def)
  obtain m' where m': "ses_machine (session_step e s) = Some m'" "table_effect m m'"
    using machine_step [OF wf m(1)] by metis
  from cur m have bound: "\<forall>i < sm_num_states m. unat (st_version (read_state m i)) \<le> n + 2"
    by (simp add: snapshots_current_def)
  note eff = table_effect_versions [OF m(2) m'(2) n bound]
  have "i < sm_num_states m' \<and>
        unat (st_version (ss_state ss)) \<le> unat (st_version (read_state m' i)) \<and>
        (st_version (ss_state ss) = st_version (read_state m' i) \<longrightarrow> ss_state ss = read_state m' i)"
    if "ses_snapshots (session_step e s) i = Some ss" for i ss
    using session_snapshots_step [OF that m(1)]
  proof
    assume "ses_snapshots s i = Some ss"
    with cur m have "i < sm_num_states m" "unat (st_version (ss_state ss)) \<le> unat (st_version (read_state m i))"
      "st_version (ss_state ss) = st_version (read_state m i) \<longrightarrow> ss_state ss = read_state m i"
      by (auto simp: snapshots_current_def)
    with eff(2) [of i] show ?thesis by auto
  qed (use m' in auto)
  with m' eff(1) wf show ?thesis
    by (auto simp: snapshots_current_def session_wf_step)
qed

lemma snapshots_current_fresh: "ctx \<noteq> 0 \<Longrightarrow> snapshots_current 0 (fresh_session now ctx check)"
  using session_wf_fresh [of ctx now check]
  by (auto simp: snapshots_current_def fresh_session_def polycall_sm_create_with_integrity_def)

lemma snapshots_current_run:
  "snapshots_current n s \<Longrightarrow> n + length es + 2 < 2 ^ 32 \<Longrightarrow>
   snapshots_current (n + length es) (fold session_step es s)"
proof (induction es arbitrary: n s)
  case (Cons e es)
  then have "snapshots_current (Suc n) (session_step e s)"
    by (intro snapshots_current_step) auto
  with Cons.IH [of "Suc n" "session_step e s"] Cons.prems(2) show ?case by simp
qed simp

lemma restore_success:
  assumes "polycall_sm_restore_state_from_snapshot now (Some ss) (Some m) = (SM_SUCCESS, Some m')"
  shows "st_id (ss_state ss) < sm_num_states m"
    "st_version (ss_state ss) = st_version (read_state m (st_id (ss_state ss)))"
    "\<not> st_is_locked (read_state m (st_id (ss_state ss)))"
    "m' = write_state (st_id (ss_state ss)) (update_state_timestamp now (ss_state ss)) m"
  using assms
  by (auto simp: polycall_sm_restore_state_from_snapshot_def sm_guarded_def Let_def not_le split: if_splits)

end
