(* ===== verification/State_Machine_Default.thy ===== *)
theory State_Machine_Default
  imports State_Machine_Session
begin

text \<open>
  The machine \<open>initialize_state_machine\<close> leaves, computed and written out, and the
  equations of single operations on a well-formed machine that the properties and their
  witnesses evaluate with.
\<close>

lemma add_state_ok:
  "sm_is_initialized m \<Longrightarrow> sm_num_states m < 32 \<Longrightarrow>
   polycall_sm_add_state now (Some nm) en ex f (Some m) =
     (SM_SUCCESS, Some ((write_state (sm_num_states m)
        (fill_state now nm en ex f (sm_num_states m) (read_state m (sm_num_states m))) m)
        \<lparr>sm_num_states := sm_num_states m + 1\<rparr>))"
  by (simp add: polycall_sm_add_state_def sm_guarded_def Let_def not_le)

lemma cstr_fill: "length nm < 32 \<Longrightarrow> NUL \<notin> set nm \<Longrightarrow> cstr (st_name (fill_state now nm en ex f i slot)) = nm"
  by (simp add: cstr_id)

text \<open>The machine \<open>initialize_state_machine\<close> leaves, written out.\<close>

definition default_transition :: "string \<Rightarrow> u32 \<Rightarrow> u32 \<Rightarrow> sm_transition" where
  "default_transition nm i j =
     zero_transition\<lparr>tr_name := strncpy_buf 32 nm, tr_from_state := i, tr_to_state := j,
                     tr_is_valid := True\<rparr>"

definition default_machine :: "(state_callback \<Rightarrow> address) \<Rightarrow> address \<Rightarrow> u64 \<Rightarrow> state_machine" where
  "default_machine linker ctx now =
     (let st = (\<lambda>nm cb fin i. fill_state now nm (linker cb) 0 fin i zero_state);
          tr = default_transition
      in \<lparr>sm_states = [st ''INIT'' on_init False 0, st ''READY'' on_ready False 1,
             st ''RUNNING'' on_running False 2, st ''PAUSED'' on_paused False 3,
             st ''ERROR'' on_error True 4] @ replicate 27 zero_state,
          sm_transitions = [tr ''to_ready'' 0 1, tr ''to_running'' 1 2, tr ''to_paused'' 2 3,
             tr ''pause_to_running'' 3 2, tr ''to_error'' 2 4] @ replicate 59 zero_transition,
          sm_current_state = 0, sm_num_states = 5, sm_num_transitions = 5, sm_ctx = ctx,
          sm_is_initialized = True, sm_integrity_check = None, sm_machine_checksum = 0,
          sm_failed_transitions = 0, sm_integrity_violations = 0, sm_last_verification = now\<rparr>)"

lemma upt5: "[0..<5] = [0, 1, 2, 3, 4::nat]" by (simp add: upt_rec)

lemma replicate_split: "replicate 32 x = [x, x, x, x, x] @ replicate 27 x"
  "replicate 64 x = [x, x, x, x, x] @ replicate 59 x"
  by (simp_all add: numeral_eq_Suc)

lemma default_states:
  assumes "ctx \<noteq> 0" "polycall_sm_create_with_integrity True now ctx True None = (SM_SUCCESS, sm)"
  shows "sm_for_each (init_state now) (DEFAULT_STATES linker) sm =
    (SM_SUCCESS, Some ((default_machine linker ctx now)\<lparr>sm_transitions := replicate 64 zero_transition,
       sm_num_transitions := 0\<rparr>))"
  using assms
  by (auto simp: polycall_sm_create_with_integrity_def DEFAULT_STATES_def init_state_def add_state_ok
      default_machine_def Let_def replicate_split(1) read_state_def write_state_def)

lemma default_state_ids:
  "state_id_named nm ((default_machine linker ctx now)\<lparr>sm_transitions := ts, sm_num_transitions := n\<rparr>) =
    (if cstr nm = ''ERROR'' then 4 else if cstr nm = ''PAUSED'' then 3 else if cstr nm = ''RUNNING'' then 2
     else if cstr nm = ''READY'' then 1 else 0)"
  by (auto simp: state_id_named_def default_machine_def Let_def upt5 cstr_id)

lemma default_transitions:
  "init_default_transitions (Some ((default_machine linker ctx now)
     \<lparr>sm_transitions := replicate 64 zero_transition, sm_num_transitions := 0\<rparr>)) =
   (SM_SUCCESS, Some (default_machine linker ctx now))"
  by (simp add: init_default_transitions_def DEFAULT_TRANSITIONS_def polycall_sm_add_transition_def
      sm_guarded_def default_state_ids cstr_id Let_def replicate_split(2))
    (simp add: default_machine_def default_transition_def Let_def zero_transition_def word_le_nat_alt)

lemma initialize_default:
  assumes "block \<noteq> 0"
  shows "\<exists>c. initialize_state_machine linker block True now True True =
     (SM_SUCCESS, Some (block, c), Some (default_machine linker block now)) \<and> context_wf c"
proof -
  obtain c where c: "polycall_init_with_config block True
      (Some \<lparr>cfg_flags = 0, cfg_memory_pool_size = 0, cfg_user_data = 0\<rparr>) = (POLYCALL_SUCCESS, Some (block, c))"
    using assms by (auto simp: polycall_init_with_config_def Let_def)
  obtain m where m: "polycall_sm_create_with_integrity True now block True None = (SM_SUCCESS, m)"
    using assms by (auto simp: polycall_sm_create_with_integrity_def)
  have "context_wf c" using context_wf_init [OF c] by simp
  with c m default_states [OF assms m] show ?thesis
    by (simp add: initialize_state_machine_def default_transitions)
qed

lemma all_less_5: "(\<forall>i < 5. P i) \<longleftrightarrow> P 0 \<and> P 1 \<and> P 2 \<and> P 3 \<and> P (4::nat)"
  by (auto simp: numeral_eq_Suc less_Suc_eq)

lemma default_machine_wf: "sm_wf (default_machine linker ctx now)"
  by (simp add: default_machine_def default_transition_def Let_def sm_wf_def states_wf_def transitions_wf_def
      all_less_5 last_strncpy_buf [of 32, simplified] word_le_nat_alt word_less_nat_alt)

lemma cstr_default_transition: "cstr (tr_name (default_transition nm i j)) = take 31 (cstr nm)"
  by (simp add: default_transition_def cstr_strncpy_buf)

lemma default_table:
  "take (unat (sm_num_transitions (default_machine linker ctx now))) (sm_transitions (default_machine linker ctx now)) =
    [default_transition ''to_ready'' 0 1, default_transition ''to_running'' 1 2,
     default_transition ''to_paused'' 2 3, default_transition ''pause_to_running'' 3 2,
     default_transition ''to_error'' 2 4]"
  by (simp add: default_machine_def Let_def)

lemma default_find:
  "find_transition ''to_ready'' (default_machine linker ctx now) = Some (default_transition ''to_ready'' 0 1)"
  "find_transition ''to_running'' (default_machine linker ctx now) = Some (default_transition ''to_running'' 1 2)"
  "find_transition ''to_paused'' (default_machine linker ctx now) = Some (default_transition ''to_paused'' 2 3)"
  "find_transition ''pause_to_running'' (default_machine linker ctx now) =
     Some (default_transition ''pause_to_running'' 3 2)"
  "find_transition ''to_error'' (default_machine linker ctx now) = Some (default_transition ''to_error'' 2 4)"
  by (simp_all add: find_transition_def default_table cstr_default_transition cstr_simps)

lemma find_transition_updates [simp]:
  "find_transition nm (write_state i st m) = find_transition nm m"
  "find_transition nm (m\<lparr>sm_current_state := c\<rparr>) = find_transition nm m"
  by (simp_all add: find_transition_def write_state_def)

lemma find_take_transition [simp]:
  "find_transition nm (take_transition now t m) = find_transition nm m"
  by (simp add: take_transition_def)

lemma length_cstr_name:
  assumes "length b = 32" "b ! 31 = NUL"
  shows "length (cstr b) < 32"
proof (rule ccontr)
  assume "\<not> length (cstr b) < 32"
  with length_cstr_le [of b] assms(1) have "length (cstr b) = length b" by simp
  then have "cstr b = b"
    by (metis cstr_def order_refl take_all takeWhile_eq_take)
  moreover have "b ! 31 \<in> set b" using assms(1) by simp
  ultimately show False using cstr_no_NUL [of b] assms(2) by simp
qed

lemma read_write_state_same: "sm_wf m \<Longrightarrow> k < sm_num_states m \<Longrightarrow> read_state (write_state k st m) k = st"
  by (auto simp: read_write_state sm_wf_def states_wf_def word_less_nat_alt word_le_nat_alt)

lemma lock_state_ok:
  assumes "sm_is_initialized m" "i < sm_num_states m"
  shows "polycall_sm_lock_state now i (Some m) =
    (SM_SUCCESS, Some (write_state i (update_state_timestamp now ((read_state m i)\<lparr>st_is_locked := True\<rparr>)) m))"
proof -
  have "\<not> sm_num_states m \<le> i" using assms(2) by simp
  with assms(1) show ?thesis
    by (simp add: polycall_sm_lock_state_def set_state_lock_def sm_guarded_def Let_def)
qed

lemma session_machine:
  assumes "ctx \<noteq> 0"
  obtains m where "ses_machine (fold session_step es (fresh_session now ctx check)) = Some m" "sm_wf m"
proof -
  have "session_wf (fold session_step es (fresh_session now ctx check))"
    by (rule session.inv_run) (rule session_wf_fresh [OF assms])
  then show ?thesis using that by (auto simp: session_wf_def)
qed

end
