(* ===== verification/State_Machine_Properties.thy ===== *)
theory State_Machine_Properties
  imports State_Machine_Default
begin

text \<open>
  What the state machine of \<open>src/polycall_state_machine.c\<close> guarantees: the invariant of its
  tables over every client session, integrity checking, the meaning of a transition, locks,
  snapshots, the default machine and the limits of names and tables.
\<close>

section \<open>A sample session, and a run of named transitions\<close>

definition demo_calls :: "(u64 \<times> sm_call) list" where
  "demo_calls = [(5, AddState (Some ''A'') 0 0 False), (6, AddState (Some ''B'') 0 0 True),
     (7, AddTransition (Some ''go'') 0 1 0 None), (8, LockState 0), (9, ExecuteTransition (Some ''go''))]"

fun run_transitions :: "u64 \<Rightarrow> string list \<Rightarrow> state_machine option
    \<Rightarrow> (sm_status \<times> u32 option \<times> callback_call list) list" where
  "run_transitions now [] sm = []"
| "run_transitions now (nm # nms) sm =
     (case polycall_sm_execute_transition now (Some nm) sm of (s, sm', calls) \<Rightarrow>
      (s, map_option sm_current_state sm', calls) # run_transitions now nms sm')"

section \<open>Properties\<close>

text \<open>
  C1: whatever sequence of API calls follows the creation of a machine, at whatever
  times, the machine is still there and well formed: its tables keep their size, every
  state in use carries its index as id, a terminated name and a matching checksum, every
  transition leads between existing states and the current state exists.
\<close>

theorem sessions_stay_well_formed:
  assumes "ctx \<noteq> 0"
  shows "\<exists>m. ses_machine (fold session_step es (fresh_session now ctx check)) = Some m \<and> sm_wf m"
  using session_machine [OF assms] by metis

theorem sessions_stay_well_formed_witness:
  "\<exists>m. ses_machine (fold session_step demo_calls (fresh_session 1 7 None)) = Some m \<and> sm_wf m"
  by (rule sessions_stay_well_formed) simp

text \<open>
  C4: integrity verification never reports a violation on a machine that only the API has
  touched, unless the client's own check rejects the state, and it changes nothing then.
\<close>

theorem integrity_holds_in_sessions:
  assumes "ctx \<noteq> 0" "ses_machine (fold session_step es (fresh_session now ctx check)) = Some m"
    "i < sm_num_states m" "pred_option (\<lambda>accepts. accepts (read_state m i)) (sm_integrity_check m)"
  shows "polycall_sm_verify_state_integrity i (Some m) = (SM_SUCCESS, Some m)"
proof -
  from session_machine [OF assms(1)] assms(2) have "sm_wf m" by (metis option.inject)
  with states_wf_read [of m i] assms(3,4) show ?thesis
    by (auto simp: polycall_sm_verify_state_integrity_def sm_guarded_def sm_wf_simps state_sealed_def
        not_le Let_def split: option.splits)
qed

theorem integrity_holds_in_sessions_witness:
  "\<exists>m. ses_machine (fold session_step [(5, AddState (Some ''A'') 0 0 False), (6, LockState 0)]
        (fresh_session 1 7 None)) = Some m \<and>
       polycall_sm_verify_state_integrity 0 (Some m) = (SM_SUCCESS, Some m)"
proof -
  let ?es = "[(5, AddState (Some ''A'') 0 0 False), (6, LockState 0)]"
  obtain m where m: "ses_machine (fold session_step ?es (fresh_session 1 7 None)) = Some m"
    using session_machine [of 7 ?es 1 None] by auto
  then have "0 < sm_num_states m" "sm_integrity_check m = None"
    by (auto simp: fresh_session_def polycall_sm_create_with_integrity_def add_state_ok
        polycall_sm_lock_state_def set_state_lock_def sm_guarded_def Let_def)
  then show ?thesis
    using m integrity_holds_in_sessions [of 7 ?es 1 None m 0] by simp
qed

text \<open>
  C3: changing any one byte of what a state's checksum covers (name, callbacks, final flag,
  id) and not the checksum itself is always found: the state is reported and the violation
  counted, whatever the byte, its place and its new value.
\<close>

theorem single_byte_tampering_detected:
  assumes "sm_wf m" "k < sm_num_states m" "p < 56" "b \<noteq> state_bytes (read_state m k) ! p"
    and "state_bytes st = (state_bytes (read_state m k))[p := b]"
    and "st_checksum st = st_checksum (read_state m k)"
  shows "polycall_sm_verify_state_integrity k (Some (write_state k st m)) =
     (SM_ERROR_INTEGRITY_CHECK_FAILED,
      Some ((write_state k st m)\<lparr>sm_integrity_violations := sm_integrity_violations m + 1\<rparr>))"
proof -
  have "length (state_bytes (read_state m k)) = 56"
    using states_wf_read [OF sm_wf_simps(2) [OF assms(1)] assms(2)] by (simp add: state_bytes_def state_sealed_def)
  then have "calculate_state_checksum st \<noteq> calculate_state_checksum (read_state m k)"
    using state_sum.list_update_detected [of p "state_bytes (read_state m k)" b] assms(3-5)
    by (simp add: calculate_state_checksum_def)
  moreover have "st_checksum st = calculate_state_checksum (read_state m k)"
    using states_wf_read [OF sm_wf_simps(2) [OF assms(1)] assms(2)] assms(6) by (simp add: state_sealed_def)
  moreover have "read_state (write_state k st m) k = st"
    using assms(1,2) by (intro read_write_state_same)
  ultimately show ?thesis
    using assms(1,2) by (simp add: polycall_sm_verify_state_integrity_def sm_guarded_def sm_wf_simps Let_def not_le)
qed

theorem single_byte_tampering_detected_witness:
  "\<exists>r. polycall_sm_verify_state_integrity 1 (Some (write_state 1
       ((read_state (default_machine (\<lambda>_. 4096) 7 1) 1)\<lparr>st_is_final := True\<rparr>)
       (default_machine (\<lambda>_. 4096) 7 1))) = (SM_ERROR_INTEGRITY_CHECK_FAILED, r)"
proof -
  let ?m = "default_machine (\<lambda>_. 4096) 7 1"
  have "state_bytes ((read_state ?m 1)\<lparr>st_is_final := True\<rparr>) = (state_bytes (read_state ?m 1))[48 := 1]"
    and "state_bytes (read_state ?m 1) ! 48 = 0"
    by (simp_all add: default_machine_def Let_def read_state_def state_bytes_def fill_state_def
        list_update_append nth_append update_state_timestamp_def)
  then show ?thesis
    using single_byte_tampering_detected [of ?m 1 48 1 "(read_state ?m 1)\<lparr>st_is_final := True\<rparr>"]
    by (auto simp: default_machine_wf) (simp add: default_machine_def)
qed

text \<open>
  C2: what a successful transition does. It is the first transition of that name, its guard
  accepted and both its states were unlocked; the machine is then in its target state,
  whose version went up by one; no other state, no transition and no other field of that
  state changed; and the callbacks ran in the order exit, action, enter.
\<close>

theorem transition_taken:
  assumes "sm_wf m" "polycall_sm_execute_transition now (Some nm) (Some m) = (SM_SUCCESS, Some m', calls)"
  shows "\<exists>t. find_transition nm m = Some t \<and> transition_enabled m t \<and>
    sm_current_state m' = tr_to_state t \<and> tr_to_state t < sm_num_states m' \<and>
    sm_num_states m' = sm_num_states m \<and> sm_transitions m' = sm_transitions m \<and>
    (\<forall>j. read_state m' j = (if j = tr_to_state t
        then (read_state m j)\<lparr>st_timestamp := now, st_version := st_version (read_state m j) + 1\<rparr>
        else read_state m j)) \<and>
    calls = call_if_set (st_on_exit (read_state m (tr_from_state t))) (sm_ctx m) @
      call_if_set (tr_action t) (sm_ctx m) @
      call_if_set (st_on_enter (read_state m (tr_to_state t))) (sm_ctx m)"
  using assms(2) sm_wf_simps(1) [OF assms(1)]
proof (cases rule: execute_cases)
  case (taken t)
  have "tr_to_state t < sm_num_states m"
    using find_transition_wf [OF assms(1) taken(1)] by simp
  moreover from this have "unat (tr_to_state t) < length (sm_states m)"
    using assms(1) by (auto simp: sm_wf_def states_wf_def word_less_nat_alt word_le_nat_alt)
  ultimately show ?thesis
    using taken
    by (auto simp: take_transition_def transition_calls_def read_write_state update_state_timestamp_def
        intro!: exI [of _ t])
qed auto

theorem transition_taken_witness:
  "\<exists>m' calls. polycall_sm_execute_transition 9 (Some ''to_ready'') (Some (default_machine (\<lambda>_. 4096) 7 1)) =
     (SM_SUCCESS, Some m', calls) \<and> sm_current_state m' = 1"
proof -
  let ?m = "default_machine (\<lambda>_. 4096) 7 1"
  have en: "transition_enabled ?m (default_transition ''to_ready'' 0 1)"
    by (simp add: transition_enabled_def default_transition_def zero_transition_def)
      (simp add: default_machine_def Let_def read_state_def)
  obtain m' calls where ex: "polycall_sm_execute_transition 9 (Some ''to_ready'') (Some ?m) =
      (SM_SUCCESS, Some m', calls)"
    using execute_enabled [OF sm_wf_simps(1) [OF default_machine_wf] default_find(1) en] by blast
  from transition_taken [OF default_machine_wf ex] have "sm_current_state m' = 1"
    by (auto simp: default_find) (simp add: default_transition_def)
  with ex show ?thesis by blast
qed

text \<open>
  The machine does not enforce its own topology. Whether a transition succeeds, and
  which callbacks it runs, does not depend on the state the machine is in: a transition
  can be taken from any state, not only from its source.
\<close>

theorem execution_ignores_current_state:
  "fst (polycall_sm_execute_transition now nm (Some (m\<lparr>sm_current_state := i\<rparr>))) =
     fst (polycall_sm_execute_transition now nm (Some m)) \<and>
   snd (snd (polycall_sm_execute_transition now nm (Some (m\<lparr>sm_current_state := i\<rparr>)))) =
     snd (snd (polycall_sm_execute_transition now nm (Some m)))"
  by (simp add: polycall_sm_execute_transition_def Let_def split: option.splits)

text \<open>
  A lock blocks every transition into or out of the state: after
  \<open>polycall_sm_lock_state\<close> any such transition fails with the lock error, calls nothing and
  leaves the machine as it was.
\<close>

theorem locked_state_blocks_transitions:
  assumes "sm_wf m" "i < sm_num_states m" "find_transition nm m = Some t"
    "tr_from_state t = i \<or> tr_to_state t = i"
    and "polycall_sm_lock_state now i (Some m) = (s, Some m')"
  shows "s = SM_SUCCESS \<and>
    polycall_sm_execute_transition later (Some nm) (Some m') = (SM_ERROR_STATE_LOCKED, Some m', [])"
proof -
  from assms(5) have s: "s = SM_SUCCESS"
    and m': "m' = write_state i (update_state_timestamp now ((read_state m i)\<lparr>st_is_locked := True\<rparr>)) m"
    by (simp_all add: lock_state_ok sm_wf_simps assms(1,2))
  have "st_is_locked (read_state m' i)"
    using assms(1,2) by (simp add: m' read_write_state_same)
  moreover have "tr_is_valid t"
    using find_transition_wf [OF assms(1,3)] by simp
  moreover have "sm_is_initialized m'" "find_transition nm m' = Some t"
    using assms(1,3) by (simp_all add: m' sm_wf_simps)
  ultimately show ?thesis
    using s assms(4) by (auto simp: polycall_sm_execute_transition_def Let_def)
qed

theorem locked_state_blocks_transitions_witness:
  "\<exists>m'. polycall_sm_lock_state 5 2 (Some (default_machine (\<lambda>_. 4096) 7 1)) = (SM_SUCCESS, Some m') \<and>
     polycall_sm_execute_transition 6 (Some ''to_running'') (Some m') = (SM_ERROR_STATE_LOCKED, Some m', [])"
proof -
  let ?m = "default_machine (\<lambda>_. 4096) 7 1"
  have n: "2 < sm_num_states ?m" by (simp add: default_machine_def Let_def)
  obtain s m' where l: "polycall_sm_lock_state 5 2 (Some ?m) = (s, Some m')"
    using lock_state_ok [OF sm_wf_simps(1) [OF default_machine_wf] n] by blast
  have "tr_to_state (default_transition ''to_running'' 1 2) = 2" by (simp add: default_transition_def)
  with locked_state_blocks_transitions [OF default_machine_wf n default_find(2) _ l] l show ?thesis by auto
qed

text \<open>
  C5: restoring a snapshot never rolls a state back. In every session of fewer than
  \<open>2 ^ 32 - 2\<close> calls, a snapshot taken in the session is restored only where the state has
  not changed since it was taken: all the restore does is count the version up and set
  the timestamp.
\<close>

theorem restore_never_rolls_back:
  assumes "ctx \<noteq> 0" "length es < 2 ^ 32 - 2"
    and "s = fold session_step es (fresh_session now ctx check)"
    and "ses_machine s = Some m" "ses_snapshots s i = Some ss"
    and "polycall_sm_restore_state_from_snapshot later (Some ss) (Some m) = (SM_SUCCESS, Some m')"
  shows "m' = write_state i (update_state_timestamp later (read_state m i)) m"
proof -
  have cur: "snapshots_current (length es) s"
    using snapshots_current_run [OF snapshots_current_fresh [OF assms(1)], of es now check] assms(2,3) by simp
  then have i: "st_id (ss_state ss) = i"
    using assms(5) by (auto simp: snapshots_current_def session_wf_def)
  from restore_success [OF assms(6)] i cur assms(4,5)
  have "ss_state ss = read_state m i" by (auto simp: snapshots_current_def)
  with restore_success(4) [OF assms(6)] i show ?thesis by simp
qed

theorem restore_never_rolls_back_witness:
  "\<exists>m ss m'. ses_machine (fold session_step [(5, AddState (Some ''A'') 0 0 False), (6, TakeSnapshot 0)]
       (fresh_session 1 7 None)) = Some m \<and>
     polycall_sm_restore_state_from_snapshot 9 (Some ss) (Some m) = (SM_SUCCESS, Some m') \<and>
     m' = write_state 0 (update_state_timestamp 9 (read_state m 0)) m"
proof -
  let ?es = "[(5, AddState (Some ''A'') 0 0 False), (6, TakeSnapshot 0)]"
  let ?s = "fold session_step ?es (fresh_session 1 7 None)"
  obtain m ss where m: "ses_machine ?s = Some m" "ses_snapshots ?s 0 = Some ss"
    and r: "\<exists>m'. polycall_sm_restore_state_from_snapshot 9 (Some ss) (Some m) = (SM_SUCCESS, Some m')"
    by (simp add: fresh_session_def polycall_sm_create_with_integrity_def add_state_ok
        polycall_sm_create_state_snapshot_def sm_guarded_read_def Let_def
        polycall_sm_restore_state_from_snapshot_def sm_guarded_def read_write_state)
  from r obtain m' where "polycall_sm_restore_state_from_snapshot 9 (Some ss) (Some m) = (SM_SUCCESS, Some m')" ..
  with m restore_never_rolls_back [of 7 ?es ?s 1 None m 0 ss 9 m'] show ?thesis by auto
qed

text \<open>
  The default machine. \<open>initialize_state_machine\<close> succeeds whenever its two allocations
  do; the machine it leaves is well formed, and running its five transitions in order visits
  READY, RUNNING, PAUSED, RUNNING and ERROR, calling each state's enter callback once.
\<close>

theorem default_machine_runs:
  assumes "block \<noteq> 0" "\<And>cb. linker cb \<noteq> 0"
  shows "\<exists>c m. initialize_state_machine linker block True now True True = (SM_SUCCESS, Some (block, c), Some m) \<and>
    context_wf c \<and> sm_wf m \<and>
    run_transitions later [''to_ready'', ''to_running'', ''to_paused'', ''pause_to_running'', ''to_error''] (Some m) =
      [(SM_SUCCESS, Some 1, [(linker on_ready, block)]),
       (SM_SUCCESS, Some 2, [(linker on_running, block)]),
       (SM_SUCCESS, Some 3, [(linker on_paused, block)]),
       (SM_SUCCESS, Some 2, [(linker on_running, block)]),
       (SM_SUCCESS, Some 4, [(linker on_error, block)])]"
proof -
  let ?m = "default_machine linker block now"
  have read: "read_state ?m 0 = fill_state now ''INIT'' (linker on_init) 0 False 0 zero_state"
    "read_state ?m 1 = fill_state now ''READY'' (linker on_ready) 0 False 1 zero_state"
    "read_state ?m 2 = fill_state now ''RUNNING'' (linker on_running) 0 False 2 zero_state"
    "read_state ?m 3 = fill_state now ''PAUSED'' (linker on_paused) 0 False 3 zero_state"
    "read_state ?m 4 = fill_state now ''ERROR'' (linker on_error) 0 True 4 zero_state"
    and len: "length (sm_states ?m) = 32" and init: "sm_is_initialized ?m" "sm_ctx ?m = block"
    by (simp_all add: default_machine_def Let_def read_state_def)
  obtain c where "initialize_state_machine linker block True now True True = (SM_SUCCESS, Some (block, c), Some ?m)"
    "context_wf c"
    using initialize_default [OF assms(1)] by blast
  then show ?thesis
    using default_machine_wf assms(2)
    by (intro exI [of _ c] exI [of _ ?m])
      (simp add: polycall_sm_execute_transition_def default_find default_transition_def zero_transition_def
        read_write_state len init read call_if_set_def Let_def)
qed

theorem default_machine_runs_witness:
  "\<exists>c m. initialize_state_machine (\<lambda>_. 4096) 7 True 1 True True = (SM_SUCCESS, Some (7, c), Some m) \<and>
     sm_wf m"
proof -
  have "(7 :: address) \<noteq> 0" "\<And>cb :: state_callback. (4096 :: address) \<noteq> 0" by simp_all
  from default_machine_runs [where block = 7 and linker = "\<lambda>_. 4096" and now = 1 and later = 2, OF this]
  show ?thesis by (elim exE conjE) blast
qed

text \<open>
  A transition whose name has 32 characters or more is stored cut to 31 and can never
  be executed under the name it was added with: every such request is counted as failed,
  even right after the transition was added.
\<close>

theorem long_transition_name_unreachable:
  assumes "sm_wf m" "32 \<le> length (cstr nm)"
  shows "polycall_sm_execute_transition now (Some nm) (Some m) =
     (SM_ERROR_INVALID_TRANSITION, Some (m\<lparr>sm_failed_transitions := sm_failed_transitions m + 1\<rparr>), [])"
proof -
  have "find_transition nm m = None"
  proof (cases "find_transition nm m")
    case (Some t)
    from find_transition_wf [OF assms(1) Some] length_cstr_name [of "tr_name t"] assms(2)
    show ?thesis by auto
  qed
  with assms(1) show ?thesis by (simp add: polycall_sm_execute_transition_def Let_def sm_wf_simps)
qed

theorem long_transition_name_unreachable_witness:
  "\<exists>m. polycall_sm_add_transition (Some (replicate 32 CHR ''a'')) 0 1 0 None
       (Some (default_machine (\<lambda>_. 4096) 7 1)) = (SM_SUCCESS, Some m) \<and>
     fst (polycall_sm_execute_transition 9 (Some (replicate 32 CHR ''a'')) (Some m)) = SM_ERROR_INVALID_TRANSITION"
proof -
  let ?m = "default_machine (\<lambda>_. 4096) 7 1" and ?nm = "replicate 32 CHR ''a''"
  have "fst (polycall_sm_add_transition (Some ?nm) 0 1 0 None (Some ?m)) = SM_SUCCESS"
    by (simp add: default_machine_def polycall_sm_add_transition_def sm_guarded_def Let_def word_le_nat_alt)
  moreover have "pred_option sm_wf (snd (polycall_sm_add_transition (Some ?nm) 0 1 0 None (Some ?m)))"
    by (rule sm_wf_add_transition) (simp add: default_machine_wf)
  ultimately obtain m where m: "polycall_sm_add_transition (Some ?nm) 0 1 0 None (Some ?m) = (SM_SUCCESS, Some m)" "sm_wf m"
    by (cases "polycall_sm_add_transition (Some ?nm) 0 1 0 None (Some ?m)")
      (auto simp: polycall_sm_add_transition_def sm_guarded_def default_machine_wf sm_wf_simps
        split: prod.splits)
  have "32 \<le> length (cstr ?nm)" by (simp add: cstr_id)
  from long_transition_name_unreachable [OF m(2) this] m(1) show ?thesis by simp
qed

text \<open>
  Adding a state. Below 32 states it succeeds: the new state has the next id, the given
  callbacks, its name cut to 31 characters, version 2 and no lock, and every state before it
  is untouched. At 32 states it fails and the machine is unchanged.
\<close>

theorem add_state_appends:
  assumes "sm_wf m"
  shows "if sm_num_states m < 32 then
      \<exists>m'. polycall_sm_add_state now (Some nm) en ex fin (Some m) = (SM_SUCCESS, Some m') \<and>
        sm_num_states m' = sm_num_states m + 1 \<and>
        (\<forall>j. j \<noteq> sm_num_states m \<longrightarrow> read_state m' j = read_state m j) \<and>
        cstr (st_name (read_state m' (sm_num_states m))) = take 31 (cstr nm) \<and>
        st_id (read_state m' (sm_num_states m)) = sm_num_states m \<and>
        st_on_enter (read_state m' (sm_num_states m)) = en \<and>
        st_on_exit (read_state m' (sm_num_states m)) = ex \<and>
        st_is_final (read_state m' (sm_num_states m)) = fin \<and>
        st_version (read_state m' (sm_num_states m)) = 2 \<and>
        \<not> st_is_locked (read_state m' (sm_num_states m))
    else polycall_sm_add_state now (Some nm) en ex fin (Some m) = (SM_ERROR_MAX_STATES_REACHED, Some m)"
proof (cases "sm_num_states m < 32")
  case True
  then have "unat (sm_num_states m) < length (sm_states m)"
    using assms by (auto simp: sm_wf_def states_wf_def word_less_nat_alt)
  with True show ?thesis
    using sm_wf_simps(1) [OF assms] by (simp add: add_state_ok read_write_state)
next
  case False
  with sm_wf_simps(1) [OF assms] show ?thesis
    by (simp add: polycall_sm_add_state_def sm_guarded_def not_less)
qed

theorem add_state_appends_witness:
  "\<exists>m'. polycall_sm_add_state 9 (Some ''EXTRA'') 0 0 False (Some (default_machine (\<lambda>_. 4096) 7 1)) =
     (SM_SUCCESS, Some m') \<and> cstr (st_name (read_state m' 5)) = ''EXTRA''"
proof -
  let ?m = "default_machine (\<lambda>_. 4096) 7 1"
  have "sm_num_states ?m = 5" by (simp add: default_machine_def Let_def)
  then show ?thesis
    using add_state_appends [OF default_machine_wf, of "\<lambda>_. 4096" 7 1 9 "''EXTRA''" 0 0 False]
    by (auto simp: cstr_simps)
qed

end
