(* ===== verification/Network.thy ===== *)
theory Network
  imports Polycall_Prelude
begin

text \<open>
  The data types of \<open>include/network.h\<close> and the data path of \<open>src/network.c\<close>: endpoints,
  packets and \<open>net_send\<close>. The socket is the operating system's: \<open>os_send fd data flags\<close> is
  the result of \<open>send\<close> (the bytes accepted, or -1), a parameter of every operation that
  sends. The endpoint's mutex is taken and released around that one call.
\<close>

text \<open>
  A mutex, of the default kind. Zeroed memory is an unlocked mutex, as it is for the threads
  library of Linux, whose static initializer is all zeros.
\<close>

datatype mutex = Unlocked | Locked | Destroyed

text \<open>\<open>struct sockaddr_in\<close>; the port is in network byte order.\<close>

record sock_addr =
  sin_family :: u16
  sin_port :: u16
  sin_addr :: u32

definition zero_addr :: sock_addr where
  "zero_addr = \<lparr>sin_family = 0, sin_port = 0, sin_addr = 0\<rparr>"

datatype network_protocol = NET_TCP | NET_UDP | NET_RAW | NET_PROTOCOL_MAX

datatype network_role = NET_CLIENT | NET_SERVER | NET_PEER | NET_ROLE_MAX

record network_endpoint =
  ep_lock :: mutex
  ep_address :: string
  ep_port :: u16
  ep_protocol :: network_protocol
  ep_role :: network_role
  ep_socket_fd :: int
  ep_addr :: sock_addr
  ep_phantom :: address
  ep_user_data :: address

text \<open>An endpoint in zeroed memory.\<close>

definition zero_endpoint :: network_endpoint where
  "zero_endpoint = \<lparr>ep_lock = Unlocked, ep_address = replicate 16 NUL, ep_port = 0,
     ep_protocol = NET_TCP, ep_role = NET_CLIENT, ep_socket_fd = 0, ep_addr = zero_addr,
     ep_phantom = 0, ep_user_data = 0\<rparr>"

record network_packet =
  pkt_data :: "u8 list"
  pkt_size :: nat
  pkt_flags :: u32

type_synonym os_send = "int \<Rightarrow> u8 list \<Rightarrow> u32 \<Rightarrow> int"

text \<open>The result, and the socket and bytes handed to the operating system, if any.\<close>

definition net_send :: "os_send \<Rightarrow> network_endpoint option \<Rightarrow> network_packet option
    \<Rightarrow> int \<times> (int \<times> u8 list) list" where
  "net_send os endpoint packet =
     (case (endpoint, packet) of
        (Some ep, Some p) \<Rightarrow>
          (let bytes = take (pkt_size p) (pkt_data p)
           in (os (ep_socket_fd ep) bytes (pkt_flags p), [(ep_socket_fd ep, bytes)]))
      | _ \<Rightarrow> (-1, []))"

end
