(* ===== verification/Protocol.thy ===== *)
theory Protocol
  imports State_Machine Network
begin

text \<open>
  \<open>src/polycall_protocol.c\<close> and \<open>include/polycall_protocol.h\<close>: the message header, sending
  and processing of messages, and the session states driven through a state machine.

  An operation works on \<open>protocol_io\<close>: the object \<open>ctx\<close> points to (\<open>None\<close> for NULL), the
  static \<open>protocol_error_buffer\<close>, and the log of what left the component: packets handed to
  the network and callbacks invoked, in order. Every callback that gets the context is the
  last thing its operation does, so what a callback itself does to the context is a later
  step. The code casts \<open>ctx\<close> to the larger \<open>protocol_context_internal_t\<close>, so the record
  has its fields too: they are memory of the caller behind the public struct.
\<close>

section \<open>Data\<close>

definition POLYCALL_PROTOCOL_VERSION :: u8 where [simp]: "POLYCALL_PROTOCOL_VERSION = 1"
definition PROTOCOL_BUFFER_SIZE :: nat where [simp]: "PROTOCOL_BUFFER_SIZE = 4096"
definition PROTOCOL_MAGIC :: u32 where "PROTOCOL_MAGIC = 0x504C43"

datatype message_type =
    MSG_HANDSHAKE | MSG_AUTH | MSG_COMMAND | MSG_RESPONSE | MSG_ERROR | MSG_HEARTBEAT

fun message_code :: "message_type \<Rightarrow> u8" where
  "message_code MSG_HANDSHAKE = 1"
| "message_code MSG_AUTH = 2"
| "message_code MSG_COMMAND = 3"
| "message_code MSG_RESPONSE = 4"
| "message_code MSG_ERROR = 5"
| "message_code MSG_HEARTBEAT = 6"

datatype protocol_state =
    STATE_INIT | STATE_HANDSHAKE | STATE_AUTH | STATE_READY | STATE_ERROR | STATE_CLOSED

text \<open>The code compares states by their enumeration order.\<close>

fun state_index :: "protocol_state \<Rightarrow> nat" where
  "state_index STATE_INIT = 0"
| "state_index STATE_HANDSHAKE = 1"
| "state_index STATE_AUTH = 2"
| "state_index STATE_READY = 3"
| "state_index STATE_ERROR = 4"
| "state_index STATE_CLOSED = 5"

lemma state_index_inject: "state_index s = state_index t \<longleftrightarrow> s = t"
  by (cases s; cases t) simp_all

instantiation protocol_state :: linorder
begin

definition less_eq_protocol_state :: "protocol_state \<Rightarrow> protocol_state \<Rightarrow> bool" where
  "less_eq_protocol_state s t \<longleftrightarrow> state_index s \<le> state_index t"

definition less_protocol_state :: "protocol_state \<Rightarrow> protocol_state \<Rightarrow> bool" where
  "less_protocol_state s t \<longleftrightarrow> state_index s < state_index t"

instance
  by standard (auto simp: less_eq_protocol_state_def less_protocol_state_def state_index_inject)

end

definition FLAG_ENCRYPTED :: u32 where "FLAG_ENCRYPTED = 0x01"
definition FLAG_RELIABLE :: u32 where "FLAG_RELIABLE = 0x08"

record message_header =
  mh_version :: u8
  mh_type :: u8
  mh_flags :: u16
  mh_sequence :: u32
  mh_payload_length :: u32
  mh_checksum :: u32

record protocol_callbacks =
  cb_on_handshake :: address
  cb_on_auth_request :: address
  cb_on_command :: address
  cb_on_error :: address
  cb_on_state_change :: address

record protocol_config =
  pcfg_callbacks :: protocol_callbacks
  pcfg_flags :: u32
  pcfg_max_message_size :: u64
  pcfg_timeout_ms :: u32
  pcfg_user_data :: address

record protocol_context =
  pc_pc_ctx :: address
  pc_state_machine :: "state_machine option"
  pc_endpoint :: "network_endpoint option"
  pc_next_sequence :: u32
  pc_state :: protocol_state
  pc_user_data :: address
  pc_callbacks :: protocol_callbacks
  pc_last_error :: string

datatype protocol_event =
    NetSend int "u8 list"
  | SmCallback address address
  | OnHandshake address
  | OnAuthRequest address "u8 list"
  | OnCommand address "u8 list"
  | OnError address "u8 list"
  | OnStateChange address protocol_state protocol_state

record protocol_io =
  io_ctx :: "protocol_context option"
  io_error :: string
  io_events :: "protocol_event list"

text \<open>Writing the static error buffer with \<open>snprintf\<close>, and logging.\<close>

definition report :: "string \<Rightarrow> protocol_io \<Rightarrow> protocol_io" where
  "report msg io = io\<lparr>io_error := snprintf_s 256 msg\<rparr>"

definition emit :: "protocol_event list \<Rightarrow> protocol_io \<Rightarrow> protocol_io" where
  "emit evs io = io\<lparr>io_events := io_events io @ evs\<rparr>"

text \<open>A callback is invoked when its pointer is not NULL.\<close>

definition call_back :: "address \<Rightarrow> protocol_event \<Rightarrow> protocol_event list" where
  "call_back f ev = (if f \<noteq> 0 then [ev] else [])"

section \<open>Headers and checksums\<close>

text \<open>The 16 bytes of the struct in memory, and the struct read back from the first 16 bytes.\<close>

definition encode_header :: "message_header \<Rightarrow> u8 list" where
  "encode_header h = [mh_version h, mh_type h] @ le16 (mh_flags h) @ le32 (mh_sequence h) @
     le32 (mh_payload_length h) @ le32 (mh_checksum h)"

definition decode_header :: "u8 list \<Rightarrow> message_header" where
  "decode_header bs = \<lparr>mh_version = bs ! 0, mh_type = bs ! 1, mh_flags = of_le16 (bs ! 2) (bs ! 3),
     mh_sequence = of_le32 (bs ! 4) (bs ! 5) (bs ! 6) (bs ! 7),
     mh_payload_length = of_le32 (bs ! 8) (bs ! 9) (bs ! 10) (bs ! 11),
     mh_checksum = of_le32 (bs ! 12) (bs ! 13) (bs ! 14) (bs ! 15)\<rparr>"

definition validate_message_header :: "message_header option \<Rightarrow> protocol_io \<Rightarrow> bool \<times> protocol_io" where
  "validate_message_header header io =
     (case header of None \<Rightarrow> (False, io) | Some h \<Rightarrow>
      if mh_version h \<noteq> POLYCALL_PROTOCOL_VERSION
      then (False, report (''Protocol version mismatch: expected '' @
              show_nat (unat POLYCALL_PROTOCOL_VERSION) @ '', got '' @ show_nat (unat (mh_version h))) io)
      else if mh_type h < message_code MSG_HANDSHAKE \<or> mh_type h > message_code MSG_HEARTBEAT
      then (False, report (''Invalid message type: '' @ show_nat (unat (mh_type h))) io)
      else (True, io))"

definition polycall_protocol_calculate_checksum :: "u8 list option \<Rightarrow> u32" where
  "polycall_protocol_calculate_checksum data =
     (case data of None \<Rightarrow> 0 | Some bytes \<Rightarrow>
      if bytes = [] then 0 else checksum_bytes (rotate_add 5) bytes)"

definition polycall_protocol_verify_checksum :: "message_header option \<Rightarrow> u8 list option \<Rightarrow> bool" where
  "polycall_protocol_verify_checksum header payload =
     (case (header, payload) of
        (Some h, Some bytes) \<Rightarrow>
          bytes \<noteq> [] \<and> polycall_protocol_calculate_checksum (Some bytes) = mh_checksum h
      | _ \<Rightarrow> False)"

definition polycall_protocol_version_compatible :: "u8 \<Rightarrow> bool" where
  "polycall_protocol_version_compatible remote_version \<longleftrightarrow> remote_version = POLYCALL_PROTOCOL_VERSION"

definition polycall_protocol_create_header :: "message_type \<Rightarrow> u64 \<Rightarrow> u32 \<Rightarrow> message_header" where
  "polycall_protocol_create_header type payload_length flags =
     \<lparr>mh_version = POLYCALL_PROTOCOL_VERSION, mh_type = message_code type, mh_flags = ucast flags,
      mh_sequence = 0, mh_payload_length = ucast payload_length, mh_checksum = 0\<rparr>"

section \<open>State transitions\<close>

definition transition_name :: "protocol_state \<Rightarrow> string option" where
  "transition_name new_state =
     (case new_state of
        STATE_HANDSHAKE \<Rightarrow> Some ''to_handshake''
      | STATE_AUTH \<Rightarrow> Some ''to_auth''
      | STATE_READY \<Rightarrow> Some ''to_ready''
      | STATE_ERROR \<Rightarrow> Some ''to_error''
      | STATE_CLOSED \<Rightarrow> Some ''to_closed''
      | _ \<Rightarrow> None)"

text \<open>\<open>now\<close> is the clock the state machine reads.\<close>

definition transition_protocol_state ::
  "u64 \<Rightarrow> protocol_state \<Rightarrow> protocol_io \<Rightarrow> bool \<times> protocol_io" where
  "transition_protocol_state now new_state io =
     (case io_ctx io of None \<Rightarrow> (False, io) | Some c \<Rightarrow>
      case pc_state_machine c of None \<Rightarrow> (False, io) | Some m \<Rightarrow>
      case transition_name new_state of None \<Rightarrow> (False, io) | Some nm \<Rightarrow>
        let old_state = pc_state c;
            (status, m', calls) = polycall_sm_execute_transition now (Some nm) (Some m);
            io1 = emit (map (\<lambda>(f, x). SmCallback f x) calls)
                    (io\<lparr>io_ctx := Some (c\<lparr>pc_state_machine := m'\<rparr>)\<rparr>)
        in if status \<noteq> SM_SUCCESS then (False, io1)
           else (True, emit
                  (if new_state \<noteq> old_state
                   then call_back (cb_on_state_change (pc_callbacks c))
                          (OnStateChange (cb_on_state_change (pc_callbacks c)) old_state new_state)
                   else [])
                  (io1\<lparr>io_ctx := Some (c\<lparr>pc_state_machine := m', pc_state := new_state\<rparr>)\<rparr>)))"

definition polycall_protocol_can_transition :: "protocol_context option \<Rightarrow> protocol_state \<Rightarrow> bool" where
  "polycall_protocol_can_transition ctx target =
     (case ctx of None \<Rightarrow> False | Some c \<Rightarrow>
      if pc_state_machine c = None then False
      else case pc_state c of
          STATE_INIT \<Rightarrow> target = STATE_HANDSHAKE
        | STATE_HANDSHAKE \<Rightarrow> target = STATE_AUTH
        | STATE_AUTH \<Rightarrow> target = STATE_READY
        | STATE_READY \<Rightarrow> target = STATE_ERROR \<or> target = STATE_CLOSED
        | STATE_ERROR \<Rightarrow> target = STATE_CLOSED
        | _ \<Rightarrow> False)"

section \<open>Life cycle\<close>

text \<open>
  \<open>internal_ok\<close> and \<open>machine_ok\<close> say whether the two allocations succeed. The internal
  context, callbacks included, is built on the heap; what is copied back to the caller is
  its public part, the first \<open>sizeof(polycall_protocol_context_t)\<close> bytes. What follows them
  in the caller's memory stays.
\<close>

definition polycall_protocol_init ::
  "bool \<Rightarrow> bool \<Rightarrow> u64 \<Rightarrow> address \<Rightarrow> network_endpoint option \<Rightarrow> protocol_config option
     \<Rightarrow> protocol_io \<Rightarrow> bool \<times> protocol_io" where
  "polycall_protocol_init internal_ok machine_ok now polycall_ctx endpoint config io =
     (case (io_ctx io, endpoint, config) of
        (Some c, Some ep, Some cfg) \<Rightarrow>
          if polycall_ctx = 0 then (False, report ''Invalid parameters'' io)
          else if \<not> internal_ok then (False, report ''Memory allocation failed'' io)
          else (case polycall_sm_create_with_integrity machine_ok now polycall_ctx True None of
                  (status, machine) \<Rightarrow>
                  if status \<noteq> SM_SUCCESS
                  then (False, report ''Failed to create protocol state machine'' io)
                  else (True, io\<lparr>io_ctx := Some (c
                          \<lparr>pc_pc_ctx := polycall_ctx, pc_state_machine := machine,
                           pc_endpoint := Some ep, pc_next_sequence := 1,
                           pc_state := STATE_INIT, pc_user_data := pcfg_user_data cfg\<rparr>)\<rparr>))
      | _ \<Rightarrow> (False, report ''Invalid parameters'' io))"

text \<open>
  \<open>on_heap\<close> says whether the object \<open>ctx\<close> points to is a block of \<open>malloc\<close>; the code frees
  it in any case, and freeing anything else is undefined (\<open>None\<close>).
\<close>

definition polycall_protocol_cleanup :: "bool \<Rightarrow> protocol_context option \<Rightarrow> protocol_context option option" where
  "polycall_protocol_cleanup on_heap ctx =
     (case ctx of None \<Rightarrow> Some None
      | Some c \<Rightarrow> if on_heap then Some None else None)"

section \<open>Messages\<close>

definition polycall_protocol_send ::
  "os_send \<Rightarrow> message_type \<Rightarrow> u8 list option \<Rightarrow> u32 \<Rightarrow> protocol_io \<Rightarrow> bool \<times> protocol_io" where
  "polycall_protocol_send os type payload flags io =
     (case (io_ctx io, payload) of
        (Some c, Some bytes) \<Rightarrow>
          if pc_endpoint c = None \<or> bytes = [] then (False, io)
          else
            let header = \<lparr>mh_version = POLYCALL_PROTOCOL_VERSION, mh_type = message_code type,
                  mh_flags = ucast flags, mh_sequence = pc_next_sequence c,
                  mh_payload_length = of_nat (length bytes),
                  mh_checksum = polycall_protocol_calculate_checksum (Some bytes)\<rparr>;
                io1 = io\<lparr>io_ctx := Some (c\<lparr>pc_next_sequence := pc_next_sequence c + 1\<rparr>)\<rparr>;
                total_size = 16 + length bytes
            in if total_size > PROTOCOL_BUFFER_SIZE
               then (False, report (''Message too large: '' @
                       show_nat (total_size mod 2 ^ 32) @ '' bytes'') io1)
               else
                 let packet = \<lparr>pkt_data = encode_header header @ bytes, pkt_size = total_size, pkt_flags = 0\<rparr>;
                     (sent, log) = net_send os (pc_endpoint c) (Some packet)
                 in (sent = int total_size, emit (map (\<lambda>(fd, b). NetSend fd b) log) io1)
      | _ \<Rightarrow> (False, io))"

text \<open>The switch over the message type; \<open>None\<close> is its \<open>default\<close>.\<close>

definition dispatch_message :: "protocol_callbacks \<Rightarrow> u8 \<Rightarrow> u8 list \<Rightarrow> protocol_event list option" where
  "dispatch_message cb type payload =
     (if type = message_code MSG_HANDSHAKE
      then Some (call_back (cb_on_handshake cb) (OnHandshake (cb_on_handshake cb)))
      else if type = message_code MSG_AUTH
      then Some (call_back (cb_on_auth_request cb) (OnAuthRequest (cb_on_auth_request cb) payload))
      else if type = message_code MSG_COMMAND
      then Some (call_back (cb_on_command cb) (OnCommand (cb_on_command cb) payload))
      else if type = message_code MSG_ERROR
      then Some (call_back (cb_on_error cb) (OnError (cb_on_error cb) payload))
      else if type = message_code MSG_HEARTBEAT then Some []
      else None)"

definition polycall_protocol_process :: "u8 list option \<Rightarrow> protocol_io \<Rightarrow> bool \<times> protocol_io" where
  "polycall_protocol_process data io =
     (case (io_ctx io, data) of
        (Some c, Some bytes) \<Rightarrow>
          if length bytes < 16 then (False, io)
          else
            let header = decode_header bytes; payload = drop 16 bytes
            in (case validate_message_header (Some header) io of (valid, io1) \<Rightarrow>
                if \<not> valid then (False, io1)
                else if \<not> polycall_protocol_verify_checksum (Some header) (Some payload)
                then (False, report ''Checksum verification failed'' io1)
                else case dispatch_message (pc_callbacks c) (mh_type header) payload of
                       None \<Rightarrow> (False, io1)
                     | Some evs \<Rightarrow> (True, emit evs io1))
      | _ \<Rightarrow> (False, io))"

section \<open>Session operations\<close>

text \<open>The handshake struct: magic, version, one byte of padding (\<open>pad\<close>, unspecified), flags.\<close>

definition handshake_payload :: "u8 \<Rightarrow> u8 list" where
  "handshake_payload pad = le32 PROTOCOL_MAGIC @ [POLYCALL_PROTOCOL_VERSION, pad] @ le16 0"

definition polycall_protocol_start_handshake ::
  "os_send \<Rightarrow> u8 \<Rightarrow> u64 \<Rightarrow> protocol_io \<Rightarrow> bool \<times> protocol_io" where
  "polycall_protocol_start_handshake os pad now io =
     (case io_ctx io of None \<Rightarrow> (False, io) | Some c \<Rightarrow>
      if pc_state c \<noteq> STATE_INIT then (False, io)
      else case polycall_protocol_send os MSG_HANDSHAKE (Some (handshake_payload pad)) FLAG_RELIABLE io of
             (sent, io1) \<Rightarrow>
               if \<not> sent then (False, io1) else transition_protocol_state now STATE_HANDSHAKE io1)"

definition polycall_protocol_complete_handshake :: "u64 \<Rightarrow> protocol_io \<Rightarrow> bool \<times> protocol_io" where
  "polycall_protocol_complete_handshake now io =
     (case io_ctx io of None \<Rightarrow> (False, io) | Some c \<Rightarrow>
      if pc_state c \<noteq> STATE_HANDSHAKE then (False, io)
      else transition_protocol_state now STATE_AUTH io)"

definition polycall_protocol_authenticate ::
  "os_send \<Rightarrow> u64 \<Rightarrow> u8 list option \<Rightarrow> protocol_io \<Rightarrow> bool \<times> protocol_io" where
  "polycall_protocol_authenticate os now credentials io =
     (case (io_ctx io, credentials) of
        (Some c, Some cr) \<Rightarrow>
          if cr = [] then (False, io)
          else (case polycall_protocol_send os MSG_AUTH (Some cr) (FLAG_ENCRYPTED OR FLAG_RELIABLE) io of
                  (sent, io1) \<Rightarrow>
                    if \<not> sent then (False, io1) else transition_protocol_state now STATE_READY io1)
      | _ \<Rightarrow> (False, io))"

definition polycall_protocol_update :: "os_send \<Rightarrow> u8 \<Rightarrow> u64 \<Rightarrow> protocol_io \<Rightarrow> protocol_io" where
  "polycall_protocol_update os pad now io =
     (case io_ctx io of None \<Rightarrow> io | Some c \<Rightarrow>
      case pc_state c of
        STATE_INIT \<Rightarrow>
          if polycall_protocol_can_transition (Some c) STATE_HANDSHAKE
          then snd (polycall_protocol_start_handshake os pad now io) else io
      | STATE_HANDSHAKE \<Rightarrow>
          if polycall_protocol_can_transition (Some c) STATE_AUTH
          then snd (transition_protocol_state now STATE_AUTH io) else io
      | STATE_AUTH \<Rightarrow>
          if polycall_protocol_can_transition (Some c) STATE_READY
          then snd (transition_protocol_state now STATE_READY io) else io
      | _ \<Rightarrow> io)"

definition polycall_protocol_set_error :: "u64 \<Rightarrow> string option \<Rightarrow> protocol_io \<Rightarrow> protocol_io" where
  "polycall_protocol_set_error now error io =
     (case (io_ctx io, error) of
        (Some c, Some e) \<Rightarrow>
          snd (transition_protocol_state now STATE_ERROR
                 (io\<lparr>io_ctx := Some (c\<lparr>pc_last_error := snprintf_s 256 e\<rparr>)\<rparr>))
      | _ \<Rightarrow> io)"

section \<open>Observers\<close>

definition polycall_protocol_get_state :: "protocol_context option \<Rightarrow> protocol_state" where
  "polycall_protocol_get_state ctx = (case ctx of None \<Rightarrow> STATE_ERROR | Some c \<Rightarrow> pc_state c)"

definition polycall_protocol_is_connected :: "protocol_context option \<Rightarrow> bool" where
  "polycall_protocol_is_connected ctx =
     (case ctx of None \<Rightarrow> False | Some c \<Rightarrow> pc_state c \<ge> STATE_HANDSHAKE \<and> pc_state c < STATE_ERROR)"

definition polycall_protocol_is_authenticated :: "protocol_context option \<Rightarrow> bool" where
  "polycall_protocol_is_authenticated ctx =
     (case ctx of None \<Rightarrow> False | Some c \<Rightarrow> pc_state c \<ge> STATE_READY \<and> pc_state c < STATE_ERROR)"

definition polycall_protocol_is_error :: "protocol_context option \<Rightarrow> bool" where
  "polycall_protocol_is_error ctx = (case ctx of None \<Rightarrow> True | Some c \<Rightarrow> pc_state c = STATE_ERROR)"

end
