(* ===== verification/Protocol_Wire.thy ===== *)
theory Protocol_Wire
  imports Protocol
begin

text \<open>
  Messages on the wire: the header as a fixed-size record (an instance of \<open>fixed_codec\<close>),
  the checksum (an instance of \<open>rolling_checksum\<close>), what a well-formed packet is, and the
  case analyses of sending, processing and state transitions that the session theorems use.
\<close>

section \<open>The header on the wire\<close>

interpretation header: fixed_codec encode_header decode_header 16
  by unfold_locales (simp_all add: encode_header_def decode_header_def le16_def le32_def)

interpretation payload_sum: rolling_checksum "rotate_add 5"
  by (rule rolling_rotate_add) simp_all

lemma checksum_nonempty:
  "bs \<noteq> [] \<Longrightarrow> polycall_protocol_calculate_checksum (Some bs) = checksum_bytes (rotate_add 5) bs"
  by (simp add: polycall_protocol_calculate_checksum_def)

lemma checksum_detects:
  assumes "i < length bs" "bs ! i \<noteq> b"
  shows "polycall_protocol_calculate_checksum (Some (bs[i := b])) \<noteq>
    polycall_protocol_calculate_checksum (Some bs)"
proof -
  have "bs \<noteq> []" "bs[i := b] \<noteq> []" using assms(1) by auto
  then show ?thesis
    using payload_sum.list_update_detected [OF assms] by (simp add: checksum_nonempty)
qed

lemma io_fields [simp]:
  "io_ctx (report msg io) = io_ctx io" "io_events (report msg io) = io_events io"
  "io_error (report msg io) = snprintf_s 256 msg"
  "io_ctx (emit evs io) = io_ctx io" "io_events (emit evs io) = io_events io @ evs"
  "io_error (emit evs io) = io_error io"
  by (simp_all add: report_def emit_def)

section \<open>Packets\<close>

text \<open>The packets in a log, in the order they were handed to the network.\<close>

fun packets :: "protocol_event list \<Rightarrow> u8 list list" where
  "packets [] = []"
| "packets (NetSend fd b # evs) = b # packets evs"
| "packets (_ # evs) = packets evs"

lemma packets_append [simp]: "packets (xs @ ys) = packets xs @ packets ys"
  by (induction xs rule: packets.induct) simp_all

lemma packets_callbacks [simp]:
  "packets (map (\<lambda>(f, x). SmCallback f x) calls) = []"
  "packets (call_back f (OnHandshake g)) = []" "packets (call_back f (OnAuthRequest g p)) = []"
  "packets (call_back f (OnCommand g p)) = []" "packets (call_back f (OnError g p)) = []"
  "packets (call_back f (OnStateChange g old new)) = []"
  by (induction calls) (auto simp: call_back_def)

lemma packets_dispatch: "dispatch_message cb ty p = Some evs \<Longrightarrow> packets evs = []"
  by (auto simp: dispatch_message_def split: if_splits)

definition packet_header :: "message_type \<Rightarrow> u8 list \<Rightarrow> u32 \<Rightarrow> u32 \<Rightarrow> message_header" where
  "packet_header type bytes flags sequence =
     \<lparr>mh_version = 1, mh_type = message_code type, mh_flags = ucast flags, mh_sequence = sequence,
      mh_payload_length = of_nat (length bytes),
      mh_checksum = polycall_protocol_calculate_checksum (Some bytes)\<rparr>"

lemma packet_header_simps [simp]:
  "mh_version (packet_header type bytes flags n) = 1"
  "mh_type (packet_header type bytes flags n) = message_code type"
  "mh_flags (packet_header type bytes flags n) = ucast flags"
  "mh_sequence (packet_header type bytes flags n) = n"
  "mh_payload_length (packet_header type bytes flags n) = of_nat (length bytes)"
  "mh_checksum (packet_header type bytes flags n) = polycall_protocol_calculate_checksum (Some bytes)"
  by (simp_all add: packet_header_def)

definition packet_sequence :: "u8 list \<Rightarrow> u32" where
  "packet_sequence b = mh_sequence (decode_header b)"

text \<open>What every packet of the code is: within the buffer, and accepted by the checks of a receiver.\<close>

definition packet_ok :: "u8 list \<Rightarrow> bool" where
  "packet_ok b \<longleftrightarrow>
     16 < length b \<and> length b \<le> 4096 \<and>
     (\<forall>io. validate_message_header (Some (decode_header b)) io = (True, io)) \<and>
     unat (mh_payload_length (decode_header b)) = length b - 16 \<and>
     polycall_protocol_verify_checksum (Some (decode_header b)) (Some (drop 16 b))"

lemma message_code_range: "\<not> message_code ty < 1 \<and> \<not> message_code ty > 6"
  by (cases ty) simp_all

lemma packet_ok_packet:
  assumes "bytes \<noteq> []" "length bytes \<le> 4080"
  shows "packet_ok (encode_header (packet_header ty bytes flags n) @ bytes)"
  using assms message_code_range [of ty]
  by (auto simp: packet_ok_def header.length_enc header.dec_enc header.drop_enc validate_message_header_def
      polycall_protocol_verify_checksum_def unat_of_nat)

section \<open>Sending\<close>

text \<open>The two ways a well-formed request ends, and the requests that do nothing.\<close>

lemma send_refused:
  "io_ctx io = None \<or> payload = None \<or> payload = Some [] \<or>
     (\<exists>c. io_ctx io = Some c \<and> pc_endpoint c = None) \<Longrightarrow>
   polycall_protocol_send os ty payload flags io = (False, io)"
  by (auto simp: polycall_protocol_send_def split: option.splits)

lemma send_too_large:
  assumes "io_ctx io = Some c" "pc_endpoint c = Some ep" "4080 < length bytes"
  shows "polycall_protocol_send os ty (Some bytes) flags io =
    (False, report (''Message too large: '' @ show_nat ((16 + length bytes) mod 2 ^ 32) @ '' bytes'')
       (io\<lparr>io_ctx := Some (c\<lparr>pc_next_sequence := pc_next_sequence c + 1\<rparr>)\<rparr>))"
  using assms by (auto simp: polycall_protocol_send_def Let_def)

lemma send_packet:
  assumes "io_ctx io = Some c" "pc_endpoint c = Some ep" "bytes \<noteq> []" "length bytes \<le> 4080"
  shows "polycall_protocol_send os ty (Some bytes) flags io =
    (let b = encode_header (packet_header ty bytes flags (pc_next_sequence c)) @ bytes
     in (os (ep_socket_fd ep) b 0 = int (length b),
         emit [NetSend (ep_socket_fd ep) b]
           (io\<lparr>io_ctx := Some (c\<lparr>pc_next_sequence := pc_next_sequence c + 1\<rparr>)\<rparr>)))"
  using assms
  by (auto simp: polycall_protocol_send_def Let_def net_send_def packet_header_def header.length_enc)

lemma send_cases:
  assumes "polycall_protocol_send os ty payload flags io = (r, io')"
  obtains (refused) "\<not> r" "io' = io"
    | (too_large) c bytes msg where "io_ctx io = Some c" "payload = Some bytes" "4080 < length bytes" "\<not> r"
        "io' = report msg (io\<lparr>io_ctx := Some (c\<lparr>pc_next_sequence := pc_next_sequence c + 1\<rparr>)\<rparr>)"
    | (sent) c ep bytes where "io_ctx io = Some c" "pc_endpoint c = Some ep" "payload = Some bytes"
        "bytes \<noteq> []" "length bytes \<le> 4080"
        "r = (os (ep_socket_fd ep) (encode_header (packet_header ty bytes flags (pc_next_sequence c)) @ bytes) 0
              = int (16 + length bytes))"
        "io' = emit [NetSend (ep_socket_fd ep)
                 (encode_header (packet_header ty bytes flags (pc_next_sequence c)) @ bytes)]
               (io\<lparr>io_ctx := Some (c\<lparr>pc_next_sequence := pc_next_sequence c + 1\<rparr>)\<rparr>)"
proof (cases "io_ctx io = None \<or> payload = None \<or> payload = Some [] \<or>
     (\<exists>c. io_ctx io = Some c \<and> pc_endpoint c = None)")
  case True
  from send_refused [OF this] assms that(1) show thesis by auto
next
  case False
  then obtain c bytes where "io_ctx io = Some c" "payload = Some bytes" by auto
  with False obtain ep where c: "io_ctx io = Some c" "pc_endpoint c = Some ep" "payload = Some bytes" "bytes \<noteq> []"
    by auto
  show thesis
  proof (cases "length bytes \<le> 4080")
    case True
    with send_packet [OF c(1,2,4) True] assms c that(3) show thesis
      by (auto simp: Let_def header.length_enc)
  next
    case False
    with send_too_large [OF c(1,2)] assms c that(2) show thesis by auto
  qed
qed

section \<open>Processing\<close>

lemma process_packet:
  assumes "io_ctx io = Some c" "packet_ok b"
  shows "polycall_protocol_process (Some b) io =
    (case dispatch_message (pc_callbacks c) (mh_type (decode_header b)) (drop 16 b) of
       None \<Rightarrow> (False, io) | Some evs \<Rightarrow> (True, emit evs io))"
  using assms by (simp add: polycall_protocol_process_def packet_ok_def Let_def)

lemma dispatch_code:
  "dispatch_message cb (message_code ty) p =
     (case ty of
        MSG_HANDSHAKE \<Rightarrow> Some (call_back (cb_on_handshake cb) (OnHandshake (cb_on_handshake cb)))
      | MSG_AUTH \<Rightarrow> Some (call_back (cb_on_auth_request cb) (OnAuthRequest (cb_on_auth_request cb) p))
      | MSG_COMMAND \<Rightarrow> Some (call_back (cb_on_command cb) (OnCommand (cb_on_command cb) p))
      | MSG_RESPONSE \<Rightarrow> None
      | MSG_ERROR \<Rightarrow> Some (call_back (cb_on_error cb) (OnError (cb_on_error cb) p))
      | MSG_HEARTBEAT \<Rightarrow> Some [])"
  by (cases ty) (simp_all add: dispatch_message_def)

lemma process_corrupted:
  assumes "io_ctx io = Some c" "packet_ok b" "16 \<le> i" "i < length b" "b ! i \<noteq> x"
  shows "polycall_protocol_process (Some (b[i := x])) io = (False, report ''Checksum verification failed'' io)"
proof -
  have len: "16 < length b" using assms(2) by (simp add: packet_ok_def)
  have dec: "decode_header (b[i := x]) = decode_header b"
    using assms(3) len by (simp add: decode_header_def)
  have drop: "drop 16 (b[i := x]) = (drop 16 b)[i - 16 := x]"
    using assms(3) by (simp add: drop_update_swap)
  have "polycall_protocol_calculate_checksum (Some ((drop 16 b)[i - 16 := x])) \<noteq>
      polycall_protocol_calculate_checksum (Some (drop 16 b))"
    using assms(3,4,5) by (intro checksum_detects) auto
  moreover have "validate_message_header (Some (decode_header b)) io = (True, io)"
    "polycall_protocol_calculate_checksum (Some (drop 16 b)) = mh_checksum (decode_header b)"
    using assms(2) by (auto simp: packet_ok_def polycall_protocol_verify_checksum_def)
  ultimately show ?thesis
    using assms(1) len
    by (simp add: polycall_protocol_process_def Let_def dec drop polycall_protocol_verify_checksum_def)
qed


section \<open>State transitions\<close>

text \<open>
  A transition the state machine takes, and one it refuses; and the frame: a transition
  leaves the sequence number, the endpoint, the callbacks and the packets alone.
\<close>

lemma transition_protocol_taken:
  assumes "io_ctx io = Some c" "pc_state_machine c = Some m" "transition_name s = Some nm"
    "polycall_sm_execute_transition now (Some nm) (Some m) = (SM_SUCCESS, m', calls)"
  shows "transition_protocol_state now s io = (True,
    emit (if s \<noteq> pc_state c then call_back (cb_on_state_change (pc_callbacks c))
              (OnStateChange (cb_on_state_change (pc_callbacks c)) (pc_state c) s) else [])
      (emit (map (\<lambda>(f, x). SmCallback f x) calls)
        (io\<lparr>io_ctx := Some (c\<lparr>pc_state_machine := m', pc_state := s\<rparr>)\<rparr>)))"
  using assms by (simp add: transition_protocol_state_def emit_def)

lemma transition_protocol_refused:
  assumes "io_ctx io = Some c" "pc_state_machine c = Some m" "transition_name s = Some nm"
    "polycall_sm_execute_transition now (Some nm) (Some m) = (status, m', calls)" "status \<noteq> SM_SUCCESS"
  shows "transition_protocol_state now s io = (False,
    emit (map (\<lambda>(f, x). SmCallback f x) calls) (io\<lparr>io_ctx := Some (c\<lparr>pc_state_machine := m'\<rparr>)\<rparr>))"
  using assms by (simp add: transition_protocol_state_def emit_def)

lemma transition_protocol_cases:
  assumes "transition_protocol_state now s io = (r, io')"
  obtains (nothing) "\<not> r" "io' = io"
    | (refused) c m m' calls where "io_ctx io = Some c" "pc_state_machine c = Some m" "\<not> r"
        "io' = emit (map (\<lambda>(f, x). SmCallback f x) calls) (io\<lparr>io_ctx := Some (c\<lparr>pc_state_machine := m'\<rparr>)\<rparr>)"
        "\<exists>nm status. polycall_sm_execute_transition now nm (Some m) = (status, m', calls)"
    | (taken) c m nm m' calls evs where "io_ctx io = Some c" "pc_state_machine c = Some m" "r"
        "transition_name s = Some nm"
        "polycall_sm_execute_transition now (Some nm) (Some m) = (SM_SUCCESS, m', calls)"
        "io' = emit evs (io\<lparr>io_ctx := Some (c\<lparr>pc_state_machine := m', pc_state := s\<rparr>)\<rparr>)" "packets evs = []"
proof (cases "io_ctx io = None \<or> (\<exists>c. io_ctx io = Some c \<and> pc_state_machine c = None) \<or> transition_name s = None")
  case True
  with assms that(1) show thesis by (auto simp: transition_protocol_state_def split: option.splits)
next
  case False
  then obtain c nm where c: "io_ctx io = Some c" "transition_name s = Some nm" by auto
  with False obtain m where m: "pc_state_machine c = Some m" by auto
  obtain status m' calls where ex: "polycall_sm_execute_transition now (Some nm) (Some m) = (status, m', calls)"
    by (rule prod_cases3)
  show thesis
  proof (cases "status = SM_SUCCESS")
    case True
    define evs where "evs = map (\<lambda>(f, x). SmCallback f x) calls @
      (if s \<noteq> pc_state c then call_back (cb_on_state_change (pc_callbacks c))
              (OnStateChange (cb_on_state_change (pc_callbacks c)) (pc_state c) s) else [])"
    have "packets evs = []" by (simp add: evs_def)
    with transition_protocol_taken [OF c(1) m c(2), of now m' calls] True ex assms that(3) [OF c(1) m _ c(2)]
    show thesis by (auto simp: emit_def evs_def)
  next
    case False
    with transition_protocol_refused [OF c(1) m c(2) ex] assms ex that(2) [OF c(1) m] show thesis by auto
  qed
qed

end
