(* ===== verification/Transition_Engine.thy ===== *)
theory Transition_Engine
  imports State_Machine_Invariant
begin

text \<open>
  What a client of the state machine relies on when it drives it by transition names, as
  the protocol does: a name the machine is ready for is taken, a name it does not know is
  refused, and both kinds of knowledge survive any execution. The locale states that
  contract and what follows for whole schedules of names; the interpretation shows that
  \<open>polycall_sm_execute_transition\<close> fulfils it.
\<close>

section \<open>The contract\<close>

locale transition_engine =
  fixes exec :: "u64 \<Rightarrow> string option \<Rightarrow> 'm option \<Rightarrow> sm_status \<times> 'm option \<times> callback_call list"
    and ready :: "string \<Rightarrow> 'm \<Rightarrow> bool"
    and refuses :: "string \<Rightarrow> 'm \<Rightarrow> bool"
  assumes exec_total: "\<exists>s m' calls. exec now req (Some m) = (s, Some m', calls)"
    and ready_taken: "ready nm m \<Longrightarrow> fst (exec now (Some nm) (Some m)) = SM_SUCCESS"
    and refused: "refuses nm m \<Longrightarrow> fst (exec now (Some nm) (Some m)) \<noteq> SM_SUCCESS"
    and ready_kept: "ready k m \<Longrightarrow> exec now req (Some m) = (s, Some m', calls) \<Longrightarrow> ready k m'"
    and refuses_kept: "refuses k m \<Longrightarrow> exec now req (Some m) = (s, Some m', calls) \<Longrightarrow> refuses k m'"
begin

definition advance :: "u64 \<times> string \<Rightarrow> 'm option \<Rightarrow> 'm option" where
  "advance e sm = fst (snd (exec (fst e) (Some (snd e)) sm))"

lemma advance_Some: "\<exists>m'. advance e (Some m) = Some m' \<and> (\<forall>k. ready k m \<longrightarrow> ready k m') \<and>
    (\<forall>k. refuses k m \<longrightarrow> refuses k m')"
proof -
  obtain s m' calls where "exec (fst e) (Some (snd e)) (Some m) = (s, Some m', calls)"
    using exec_total by blast
  with ready_kept refuses_kept show ?thesis by (auto simp: advance_def)
qed

lemma run_Some: "\<exists>m'. fold advance es (Some m) = Some m' \<and> (\<forall>k. ready k m \<longrightarrow> ready k m') \<and>
    (\<forall>k. refuses k m \<longrightarrow> refuses k m')"
proof (induction es arbitrary: m)
  case (Cons e es)
  obtain m1 where "advance e (Some m) = Some m1" "\<forall>k. ready k m \<longrightarrow> ready k m1" "\<forall>k. refuses k m \<longrightarrow> refuses k m1"
    using advance_Some by blast
  with Cons.IH [of m1] show ?case by auto
qed simp

text \<open>Whatever was run before, a ready name is still taken and an unknown one still refused.\<close>

lemma ready_after_run:
  "ready nm m \<Longrightarrow> fst (exec now (Some nm) (fold advance es (Some m))) = SM_SUCCESS"
  using run_Some [of es m] ready_taken by auto

lemma refused_after_run:
  "refuses nm m \<Longrightarrow> fst (exec now (Some nm) (fold advance es (Some m))) \<noteq> SM_SUCCESS"
  using run_Some [of es m] refused by auto

end

section \<open>The state machine provides it\<close>

text \<open>Ready: the transition is in the table, has no guard, and neither of its states is locked.\<close>

definition machine_ready :: "string \<Rightarrow> state_machine \<Rightarrow> bool" where
  "machine_ready nm m \<longleftrightarrow> sm_is_initialized m \<and>
     (case find_transition nm m of None \<Rightarrow> False | Some t \<Rightarrow>
        transition_enabled m t \<and> tr_guard_condition t = None)"

definition machine_refuses :: "string \<Rightarrow> state_machine \<Rightarrow> bool" where
  "machine_refuses nm m \<longleftrightarrow> sm_is_initialized m \<and> find_transition nm m = None"

lemma locked_write_state [simp]:
  "st_is_locked st = st_is_locked (read_state m i) \<Longrightarrow>
   st_is_locked (read_state (write_state i st m) j) = st_is_locked (read_state m j)"
  by (cases "unat i < length (sm_states m)") (auto simp: read_state_def write_state_def nth_list_update list_update_beyond)

lemma find_transition_cong:
  "sm_transitions m' = sm_transitions m \<Longrightarrow> sm_num_transitions m' = sm_num_transitions m \<Longrightarrow>
   find_transition nm m' = find_transition nm m"
  by (simp add: find_transition_def)

text \<open>What an execution leaves alone, whatever its outcome.\<close>

lemma execute_frame:
  assumes "polycall_sm_execute_transition now nm (Some m) = (s, Some m', calls)"
  shows "sm_is_initialized m' = sm_is_initialized m \<and> find_transition k m' = find_transition k m \<and>
    st_is_locked (read_state m' j) = st_is_locked (read_state m j)"
proof (cases "nm = None \<or> \<not> sm_is_initialized m")
  case True
  with assms show ?thesis by (auto simp: polycall_sm_execute_transition_def split: option.splits)
next
  case False
  then obtain n where "nm = Some n" "sm_is_initialized m" by auto
  with assms have ex: "polycall_sm_execute_transition now (Some n) (Some m) = (s, Some m', calls)" by simp
  from ex \<open>sm_is_initialized m\<close> show ?thesis
  proof (cases rule: execute_cases)
    case failed
    then have "sm_states m' = sm_states m" "sm_transitions m' = sm_transitions m"
      "sm_num_transitions m' = sm_num_transitions m" "sm_is_initialized m' = sm_is_initialized m" by auto
    then show ?thesis by (simp add: find_transition_def read_state_def)
  next
    case (taken t)
    then have m': "m' = take_transition now t m" by simp
    show ?thesis
      unfolding m' take_transition_def
      by (simp add: find_transition_def)
  qed simp
qed

lemma execute_total: "\<exists>s m' calls. polycall_sm_execute_transition now nm (Some m) = (s, Some m', calls)"
  by (auto simp: polycall_sm_execute_transition_def Let_def split: option.splits)

interpretation machine: transition_engine polycall_sm_execute_transition machine_ready machine_refuses
proof unfold_locales
  fix now nm m k s m' calls
  show "\<exists>s m' calls. polycall_sm_execute_transition now nm (Some m) = (s, Some m', calls)"
    by (rule execute_total)
  assume ex: "polycall_sm_execute_transition now nm (Some m) = (s, Some m', calls)"
  note frame = execute_frame [OF ex]
  show "machine_ready k m'" if "machine_ready k m"
    using that frame by (auto simp: machine_ready_def transition_enabled_def split: option.splits)
  show "machine_refuses k m'" if "machine_refuses k m"
    using that frame by (simp add: machine_refuses_def)
next
  fix nm m now
  show "fst (polycall_sm_execute_transition now (Some nm) (Some m)) = SM_SUCCESS" if "machine_ready nm m"
    using that by (auto simp: machine_ready_def execute_enabled split: option.splits)
  show "fst (polycall_sm_execute_transition now (Some nm) (Some m)) \<noteq> SM_SUCCESS" if "machine_refuses nm m"
    using that by (simp add: machine_refuses_def polycall_sm_execute_transition_def Let_def)
qed

lemma created_refuses:
  "polycall_sm_create_with_integrity ok now ctx True check = (SM_SUCCESS, sm) \<Longrightarrow>
   \<exists>m. sm = Some m \<and> machine_refuses nm m"
  by (auto simp: polycall_sm_create_with_integrity_def machine_refuses_def find_transition_def
      split: if_splits)

end
