(* ===== verification/Protocol_Session.thy ===== *)
theory Protocol_Session
  imports Protocol_Wire Transition_Engine
begin

text \<open>
  Sessions of the protocol: the abstract automaton of its states, what one operation may do
  to the wire, and the invariants of arbitrary sequences of operations. The state machine
  is used through the contract \<open>transition_engine\<close>.
\<close>

section \<open>The abstract automaton\<close>

text \<open>The life of a session as the enumeration and \<open>polycall_protocol_can_transition\<close> intend it.\<close>

inductive proto_edge :: "protocol_state \<Rightarrow> protocol_state \<Rightarrow> bool" where
  to_handshake: "proto_edge STATE_INIT STATE_HANDSHAKE"
| to_auth: "proto_edge STATE_HANDSHAKE STATE_AUTH"
| to_ready: "proto_edge STATE_AUTH STATE_READY"
| to_error: "proto_edge STATE_READY STATE_ERROR"
| ready_to_closed: "proto_edge STATE_READY STATE_CLOSED"
| error_to_closed: "proto_edge STATE_ERROR STATE_CLOSED"

inductive_simps proto_edge_simps [simp]:
  "proto_edge STATE_INIT t" "proto_edge STATE_HANDSHAKE t" "proto_edge STATE_AUTH t"
  "proto_edge STATE_READY t" "proto_edge STATE_ERROR t" "proto_edge STATE_CLOSED t"

inductive_cases proto_edgeE: "proto_edge s t"

lemma proto_edge_increases: "proto_edge s t \<Longrightarrow> s < t"
  by (erule proto_edgeE) (simp_all add: less_protocol_state_def)

lemma can_transition_iff:
  "polycall_protocol_can_transition (Some c) t \<longleftrightarrow> pc_state_machine c \<noteq> None \<and> proto_edge (pc_state c) t"
  by (cases "pc_state c") (simp_all add: polycall_protocol_can_transition_def)

definition session_state :: "protocol_io \<Rightarrow> protocol_state" where
  "session_state io = polycall_protocol_get_state (io_ctx io)"

lemma session_state_simps [simp]:
  "io_ctx io = Some c \<Longrightarrow> session_state io = pc_state c"
  "io_ctx io = None \<Longrightarrow> session_state io = STATE_ERROR"
  by (simp_all add: session_state_def polycall_protocol_get_state_def)

section \<open>What one operation may do to the wire\<close>

text \<open>
  A silent step sends nothing and keeps the sequence number and the endpoint; a wire step
  may besides consume one sequence number, with at most one packet, well formed and
  numbered with it.
\<close>

definition silent :: "protocol_io \<Rightarrow> protocol_io \<Rightarrow> bool" where
  "silent io io' \<longleftrightarrow> packets (io_events io') = packets (io_events io) \<and>
     map_option (\<lambda>c. (pc_next_sequence c, pc_endpoint c)) (io_ctx io') =
     map_option (\<lambda>c. (pc_next_sequence c, pc_endpoint c)) (io_ctx io)"

definition wire_step :: "protocol_io \<Rightarrow> protocol_io \<Rightarrow> bool" where
  "wire_step io io' \<longleftrightarrow> silent io io' \<or>
     (\<exists>c c' ps. io_ctx io = Some c \<and> io_ctx io' = Some c' \<and>
        pc_next_sequence c' = pc_next_sequence c + 1 \<and> pc_endpoint c' = pc_endpoint c \<and>
        packets (io_events io') = packets (io_events io) @ ps \<and>
        (ps = [] \<or> (\<exists>b. ps = [b] \<and> packet_ok b \<and> packet_sequence b = pc_next_sequence c)))"

lemma quiet_refl [simp]: "silent io io"
  by (simp add: silent_def)

lemma quiet_wire_step: "silent io io' \<Longrightarrow> wire_step io io'"
  by (simp add: wire_step_def)

lemma quiet_trans: "silent io io' \<Longrightarrow> silent io' io'' \<Longrightarrow> silent io io''"
  by (simp add: silent_def)

lemma wire_step_quiet: "wire_step io io' \<Longrightarrow> silent io' io'' \<Longrightarrow> wire_step io io''"
  unfolding wire_step_def by (auto dest: quiet_trans) (auto simp: silent_def)

lemma quiet_transition: "silent io (snd (transition_protocol_state now s io))"
proof (cases "transition_protocol_state now s io")
  case (Pair r io')
  then show ?thesis
    by (cases rule: transition_protocol_cases) (simp_all add: Pair silent_def)
qed

lemma wire_step_send: "wire_step io (snd (polycall_protocol_send os ty payload flags io))"
proof (cases "polycall_protocol_send os ty payload flags io")
  case (Pair r io')
  then have "wire_step io io'"
  proof (cases rule: send_cases)
    case (too_large c bytes msg)
    then show ?thesis unfolding wire_step_def by (intro disjI2 exI [of _ "[]"]) auto
  next
    case (sent c ep bytes)
    let ?b = "encode_header (packet_header ty bytes flags (pc_next_sequence c)) @ bytes"
    have "packet_ok ?b" "packet_sequence ?b = pc_next_sequence c"
      using packet_ok_packet [OF sent(4,5)] by (simp_all add: packet_sequence_def header.dec_enc)
    with sent(1,7) show ?thesis unfolding wire_step_def by (intro disjI2 exI [of _ "[?b]"]) auto
  qed (simp add: quiet_wire_step)
  with Pair show ?thesis by simp
qed

lemma quiet_process: "silent io (snd (polycall_protocol_process data io))"
  by (auto simp: polycall_protocol_process_def silent_def validate_message_header_def Let_def packets_dispatch
      split: option.splits)

lemma wire_step_start_handshake: "wire_step io (snd (polycall_protocol_start_handshake os pad now io))"
  using wire_step_send quiet_transition
  by (auto simp: polycall_protocol_start_handshake_def quiet_wire_step split: option.splits prod.splits)
    (metis snd_conv wire_step_quiet)+

lemma wire_step_authenticate: "wire_step io (snd (polycall_protocol_authenticate os now cr io))"
  using wire_step_send quiet_transition
  by (auto simp: polycall_protocol_authenticate_def quiet_wire_step split: option.splits prod.splits)
    (metis snd_conv wire_step_quiet)+

lemma wire_step_update: "wire_step io (polycall_protocol_update os pad now io)"
  by (simp add: polycall_protocol_update_def wire_step_start_handshake quiet_wire_step quiet_transition
      split: option.splits protocol_state.splits)

lemma quiet_set_error: "silent io (polycall_protocol_set_error now e io)"
proof -
  have "silent io (io\<lparr>io_ctx := Some (c\<lparr>pc_last_error := x\<rparr>)\<rparr>)" if "io_ctx io = Some c" for c x
    using that by (simp add: silent_def)
  then show ?thesis
    by (auto simp: polycall_protocol_set_error_def split: option.splits
        intro: quiet_trans [OF _ quiet_transition])
qed

section \<open>Sessions\<close>

text \<open>
  What the world gives one call: the clock, the results of \<open>send\<close> and the padding byte.
\<close>

record protocol_env =
  env_now :: u64
  env_send :: os_send
  env_pad :: u8

datatype protocol_call =
    Send message_type "u8 list option" u32
  | Process "u8 list option"
  | Update
  | StartHandshake
  | CompleteHandshake
  | Authenticate "u8 list option"
  | SetError "string option"

fun protocol_step :: "protocol_env \<times> protocol_call \<Rightarrow> protocol_io \<Rightarrow> protocol_io" where
  "protocol_step (e, Send ty payload flags) io = snd (polycall_protocol_send (env_send e) ty payload flags io)"
| "protocol_step (e, Process data) io = snd (polycall_protocol_process data io)"
| "protocol_step (e, Update) io = polycall_protocol_update (env_send e) (env_pad e) (env_now e) io"
| "protocol_step (e, StartHandshake) io =
     snd (polycall_protocol_start_handshake (env_send e) (env_pad e) (env_now e) io)"
| "protocol_step (e, CompleteHandshake) io = snd (polycall_protocol_complete_handshake (env_now e) io)"
| "protocol_step (e, Authenticate cr) io = snd (polycall_protocol_authenticate (env_send e) (env_now e) cr io)"
| "protocol_step (e, SetError msg) io = polycall_protocol_set_error (env_now e) msg io"

lemma wire_step_call: "wire_step io (protocol_step e io)"
proof (cases "(e, io)" rule: protocol_step.cases)
  case (5 e io)
  then show ?thesis
    by (auto simp: polycall_protocol_complete_handshake_def quiet_wire_step quiet_transition split: option.splits)
qed (simp_all add: wire_step_send quiet_wire_step quiet_process wire_step_start_handshake
    wire_step_authenticate wire_step_update quiet_set_error)

text \<open>
  The log of a session of at most \<open>n\<close> steps: every packet is well formed, and the sequence
  numbers grow from packet to packet.
\<close>

definition wire_wf :: "nat \<Rightarrow> protocol_io \<Rightarrow> bool" where
  "wire_wf n io \<longleftrightarrow>
     (\<forall>b \<in> set (packets (io_events io)). packet_ok b) \<and>
     sorted_wrt (<) (map packet_sequence (packets (io_events io))) \<and>
     (\<forall>c. io_ctx io = Some c \<longrightarrow>
        unat (pc_next_sequence c) \<le> n + 1 \<and>
        (\<forall>b \<in> set (packets (io_events io)). packet_sequence b < pc_next_sequence c))"

lemma wire_wf_quiet: "wire_wf n io \<Longrightarrow> silent io io' \<Longrightarrow> wire_wf (Suc n) io'"
proof -
  assume w: "wire_wf n io" and q: "silent io io'"
  have c: "\<exists>c. io_ctx io = Some c \<and> pc_next_sequence c = pc_next_sequence c'" if "io_ctx io' = Some c'" for c'
    using q that by (cases "io_ctx io") (auto simp: silent_def)
  from q have p: "packets (io_events io') = packets (io_events io)" by (simp add: silent_def)
  show ?thesis
    unfolding wire_wf_def p using w c by (fastforce simp: wire_wf_def)
qed

lemma wire_wf_step:
  assumes "wire_wf n io" "wire_step io io'" "n < 2 ^ 32 - 2"
  shows "wire_wf (Suc n) io'"
proof (cases "silent io io'")
  case True
  with assms(1) show ?thesis by (rule wire_wf_quiet)
next
  case False
  with assms(2) obtain c c' ps where s: "io_ctx io = Some c" "io_ctx io' = Some c'"
      "pc_next_sequence c' = pc_next_sequence c + 1"
      "packets (io_events io') = packets (io_events io) @ ps"
      "ps = [] \<or> (\<exists>b. ps = [b] \<and> packet_ok b \<and> packet_sequence b = pc_next_sequence c)"
    unfolding wire_step_def by blast
  have w: "\<forall>b \<in> set (packets (io_events io)). packet_ok b"
      "sorted_wrt (<) (map packet_sequence (packets (io_events io)))"
      "unat (pc_next_sequence c) \<le> n + 1"
      "\<forall>b \<in> set (packets (io_events io)). packet_sequence b < pc_next_sequence c"
    using assms(1) s(1) by (simp_all add: wire_wf_def)
  have inc: "unat (pc_next_sequence c + 1) = Suc (unat (pc_next_sequence c))"
    using assms(3) w(3) by (intro unat_inc32 [of _ "2 ^ 32 - 1"]) simp_all
  then have less: "x < pc_next_sequence c + 1 \<longleftrightarrow> x \<le> pc_next_sequence c" for x
    by (simp add: word_less_nat_alt word_le_nat_alt less_Suc_eq_le)
  have bound: "unat (pc_next_sequence c') \<le> Suc n + 1"
    using inc w(3) by (simp add: s(3))
  from s(5) show ?thesis
  proof
    assume "ps = []"
    with w bound s(2,3,4) show ?thesis by (simp add: wire_wf_def less less_imp_le)
  next
    assume "\<exists>b. ps = [b] \<and> packet_ok b \<and> packet_sequence b = pc_next_sequence c"
    with w bound s(2,3,4) show ?thesis
      by (auto simp: wire_wf_def less less_imp_le sorted_wrt_append)
  qed
qed

lemma wire_wf_run:
  assumes "wire_wf n io" "n + length es < 2 ^ 32 - 1"
  shows "wire_wf (n + length es) (fold protocol_step es io)"
  using assms
proof (induction es arbitrary: n io)
  case (Cons e es)
  then have "wire_wf (Suc n) (protocol_step e io)"
    by (intro wire_wf_step [OF _ wire_step_call]) auto
  from Cons.IH [OF this] Cons.prems show ?case by simp
qed simp

section \<open>The session state and its machine\<close>

text \<open>Sending and processing messages never touch them.\<close>

definition session_view :: "protocol_io \<Rightarrow> (protocol_state \<times> state_machine option) option" where
  "session_view io = map_option (\<lambda>c. (pc_state c, pc_state_machine c)) (io_ctx io)"

lemma session_view_frame [simp]:
  "session_view (report msg io) = session_view io" "session_view (emit evs io) = session_view io"
  "session_view (io\<lparr>io_ctx := Some c\<rparr>) = Some (pc_state c, pc_state_machine c)"
  by (simp_all add: session_view_def)

lemma session_view_send [simp]:
  "session_view (snd (polycall_protocol_send os ty payload flags io)) = session_view io"
proof (cases "polycall_protocol_send os ty payload flags io")
  case (Pair r io')
  then have "session_view io' = session_view io"
    by (cases rule: send_cases) (simp_all add: session_view_def)
  with Pair show ?thesis by simp
qed

lemma session_view_process [simp]:
  "session_view (snd (polycall_protocol_process data io)) = session_view io"
  by (auto simp: polycall_protocol_process_def validate_message_header_def Let_def split: option.splits)

lemma session_view_state: "session_view io = Some (s, sm) \<Longrightarrow> session_state io = s"
  by (auto simp: session_view_def)

lemma transition_fails:
  assumes "session_view io = Some (s, Some m)" "\<And>nm. machine_refuses nm m"
  obtains m' where "fst (transition_protocol_state now t io) = False"
    "session_view (snd (transition_protocol_state now t io)) = Some (s, Some m')" "\<And>nm. machine_refuses nm m'"
proof -
  obtain c where c: "io_ctx io = Some c" "pc_state c = s" "pc_state_machine c = Some m"
    using assms(1) by (auto simp: session_view_def)
  show thesis
  proof (cases "transition_name t")
    case None
    with c assms that show thesis by (simp add: transition_protocol_state_def)
  next
    case (Some nm)
    obtain st m' calls where ex: "polycall_sm_execute_transition now (Some nm) (Some m) = (st, Some m', calls)"
      using machine.exec_total by blast
    moreover from this have "st \<noteq> SM_SUCCESS" using machine.refused [OF assms(2), of now nm] by auto
    ultimately have "transition_protocol_state now t io = (False,
        emit (map (\<lambda>(f, x). SmCallback f x) calls) (io\<lparr>io_ctx := Some (c\<lparr>pc_state_machine := Some m'\<rparr>)\<rparr>))"
      using c Some by (intro transition_protocol_refused) simp_all
    moreover have "machine_refuses k m'" for k
      using machine.refuses_kept [OF assms(2) ex] .
    ultimately show thesis using that c(2) by simp
  qed
qed

section \<open>A session whose machine has no transitions\<close>

definition stuck :: "protocol_io \<Rightarrow> bool" where
  "stuck io \<longleftrightarrow> (\<exists>m. session_view io = Some (STATE_INIT, Some m) \<and> (\<forall>nm. machine_refuses nm m))"

lemma stuck_transition: "stuck io \<Longrightarrow> stuck (snd (transition_protocol_state now t io))"
  unfolding stuck_def by (elim exE conjE) (metis transition_fails)

lemma stuck_view: "session_view io' = session_view io \<Longrightarrow> stuck io \<Longrightarrow> stuck io'"
  by (simp add: stuck_def)

lemma stuck_start_handshake: "stuck io \<Longrightarrow> stuck (snd (polycall_protocol_start_handshake os pad now io))"
  by (auto simp: polycall_protocol_start_handshake_def split: option.splits prod.splits)
    (metis session_view_send snd_conv stuck_transition stuck_view)+

lemma stuck_authenticate: "stuck io \<Longrightarrow> stuck (snd (polycall_protocol_authenticate os now cr io))"
  by (auto simp: polycall_protocol_authenticate_def split: option.splits prod.splits)
    (metis session_view_send snd_conv stuck_transition stuck_view)+

lemma stuck_set_error: "stuck io \<Longrightarrow> stuck (polycall_protocol_set_error now e io)"
  unfolding polycall_protocol_set_error_def
  by (auto split: option.splits intro!: stuck_transition) (auto simp: stuck_def session_view_def)

interpretation refusing: stepwise_invariant protocol_step stuck
proof unfold_locales
  fix io e
  assume s: "stuck io"
  show "stuck (protocol_step e io)"
  proof (cases "(e, io)" rule: protocol_step.cases)
    case (3 e io')
    with s show ?thesis
      by (auto simp: polycall_protocol_update_def stuck_start_handshake stuck_transition
          split: option.splits protocol_state.splits)
  next
    case (5 e io')
    with s show ?thesis
      by (auto simp: polycall_protocol_complete_handshake_def stuck_transition split: option.splits)
  qed (use s in \<open>auto simp: stuck_start_handshake stuck_authenticate stuck_set_error
      intro: stuck_view [rotated]\<close>)
qed

section \<open>A session whose machine is ready\<close>

text \<open>What a successful transition does to a context.\<close>

lemma transition_succeeds:
  assumes "io_ctx io = Some c" "pc_state_machine c = Some m" "transition_name t = Some nm" "machine_ready nm m"
  obtains m' evs where "transition_protocol_state now t io =
      (True, emit evs (io\<lparr>io_ctx := Some (c\<lparr>pc_state_machine := Some m', pc_state := t\<rparr>)\<rparr>))"
    "packets evs = []" "\<And>k. machine_ready k m \<Longrightarrow> machine_ready k m'"
proof -
  obtain s m' calls where ex: "polycall_sm_execute_transition now (Some nm) (Some m) = (s, Some m', calls)"
    using machine.exec_total by blast
  with machine.ready_taken [OF assms(4), of now] have "s = SM_SUCCESS" by simp
  with ex have ex': "polycall_sm_execute_transition now (Some nm) (Some m) = (SM_SUCCESS, Some m', calls)" by simp
  have "machine_ready k m'" if "machine_ready k m" for k
    using machine.ready_kept [OF that ex] .
  with transition_protocol_taken [OF assms(1-3) ex'] that show thesis
    by (auto simp: emit_def)
qed

end
