(* ===== verification/Protocol_Properties.thy ===== *)
theory Protocol_Properties
  imports Protocol_Session State_Machine_Default
begin

text \<open>
  What the protocol of \<open>src/polycall_protocol.c\<close> guarantees: messages that were sent arrive,
  damaged ones are refused, sessions number and bound their packets and follow the life
  cycle; and where it guarantees less than it seems to: the initial state cannot be left,
  authentication is one's own claim, callbacks are not installed, commands are processed
  in any state.
\<close>

section \<open>A machine with the transitions of the protocol\<close>

definition protocol_machine :: "state_machine option" where
  "protocol_machine =
     fold (\<lambda>nm sm. snd (polycall_sm_add_transition (Some nm) 0 0 0 None sm))
       [''to_handshake'', ''to_auth'', ''to_ready'', ''to_error'', ''to_closed'']
       (snd (polycall_sm_add_state 1 (Some ''S'') 0 0 False
         (snd (polycall_sm_create_with_integrity True 1 7 True None))))"

definition idle_callbacks :: protocol_callbacks where
  "idle_callbacks = \<lparr>cb_on_handshake = 0, cb_on_auth_request = 0, cb_on_command = 0,
     cb_on_error = 0, cb_on_state_change = 0\<rparr>"

definition demo_endpoint :: network_endpoint where
  "demo_endpoint = zero_endpoint
     \<lparr>ep_address := ''127.0.0.1'', ep_port := 8080, ep_socket_fd := 3\<rparr>"

definition demo_context :: "state_machine option \<Rightarrow> protocol_context" where
  "demo_context sm = \<lparr>pc_pc_ctx = 7, pc_state_machine = sm, pc_endpoint = Some demo_endpoint,
     pc_next_sequence = 1, pc_state = STATE_INIT, pc_user_data = 0, pc_callbacks = idle_callbacks,
     pc_last_error = []\<rparr>"

definition demo_io :: "protocol_context \<Rightarrow> protocol_io" where
  "demo_io c = \<lparr>io_ctx = Some c, io_error = [], io_events = []\<rparr>"

text \<open>An operating system that takes every byte it is given.\<close>

definition accept_all :: os_send where
  "accept_all fd bytes flags = int (length bytes)"

lemma protocol_machine_ready:
  "\<exists>m. protocol_machine = Some m \<and> machine_ready ''to_handshake'' m \<and>
     machine_ready ''to_auth'' m \<and> machine_ready ''to_ready'' m"
proof -
  let ?s = "fill_state 1 ''S'' 0 0 False 0 zero_state"
  let ?t = "\<lambda>nm. zero_transition\<lparr>tr_name := strncpy_buf 32 nm, tr_is_valid := True\<rparr>"
  let ?ts = "[?t ''to_handshake'', ?t ''to_auth'', ?t ''to_ready'', ?t ''to_error'', ?t ''to_closed'']"
  obtain m where m: "protocol_machine = Some m" "sm_is_initialized m" "sm_num_transitions m = 5"
    "sm_transitions m = ?ts @ replicate 59 zero_transition" "read_state m 0 = ?s"
    by (simp add: protocol_machine_def polycall_sm_create_with_integrity_def add_state_ok
        polycall_sm_add_transition_def sm_guarded_def Let_def word_le_nat_alt replicate_split
        read_state_def write_state_def)
      (simp add: zero_transition_def)
  have "find_transition ''to_handshake'' m = Some (?t ''to_handshake'')"
    "find_transition ''to_auth'' m = Some (?t ''to_auth'')"
    "find_transition ''to_ready'' m = Some (?t ''to_ready'')"
    by (simp_all add: find_transition_def m cstr_strncpy_buf cstr_simps)
  with m show ?thesis
    by (intro exI [of _ m]) (simp add: machine_ready_def transition_enabled_def zero_transition_def)
qed


lemma demo_fields [simp]:
  "io_ctx (demo_io c) = Some c" "io_events (demo_io c) = []" "pc_state_machine (demo_context sm) = sm"
  "pc_state (demo_context sm) = STATE_INIT" "pc_next_sequence (demo_context sm) = 1"
  "pc_endpoint (demo_context sm) = Some demo_endpoint" "pc_callbacks (demo_context sm) = idle_callbacks"
  by (simp_all add: demo_io_def demo_context_def)

lemma demo_send:
  assumes "bytes \<noteq> []" "length bytes \<le> 4080"
  shows "polycall_protocol_send accept_all ty (Some bytes) flags (demo_io (demo_context sm)) =
    (True, emit [NetSend 3 (encode_header (packet_header ty bytes flags 1) @ bytes)]
       (demo_io ((demo_context sm)\<lparr>pc_next_sequence := 2\<rparr>)))"
  using assms
  by (simp add: send_packet [where ep = demo_endpoint] Let_def accept_all_def demo_endpoint_def)
    (simp add: demo_io_def)

lemma init_success:
  assumes "polycall_protocol_init ok1 ok2 now pc_ctx ep cfg io = (True, io0)"
  obtains c e g sm where "io_ctx io = Some c" "ep = Some e" "cfg = Some g" "pc_ctx \<noteq> 0"
    "polycall_sm_create_with_integrity ok2 now pc_ctx True None = (SM_SUCCESS, sm)"
    "io0 = io\<lparr>io_ctx := Some (c\<lparr>pc_pc_ctx := pc_ctx, pc_state_machine := sm, pc_endpoint := Some e,
       pc_next_sequence := 1, pc_state := STATE_INIT, pc_user_data := pcfg_user_data g\<rparr>)\<rparr>"
  using assms by (auto simp: polycall_protocol_init_def split: option.splits if_splits prod.splits)

lemma session_state_view: "session_state io = (case session_view io of None \<Rightarrow> STATE_ERROR | Some (s, _) \<Rightarrow> s)"
  by (simp add: session_view_def session_state_def polycall_protocol_get_state_def split: option.splits)

lemma transition_state:
  "session_state (snd (transition_protocol_state now t io)) = session_state io \<or>
   session_state (snd (transition_protocol_state now t io)) = t"
proof (cases "transition_protocol_state now t io")
  case (Pair r io')
  then show ?thesis by (cases rule: transition_protocol_cases) (simp_all add: Pair)
qed

lemma start_handshake_state:
  "session_state (snd (polycall_protocol_start_handshake os pad now io)) = session_state io \<or>
   session_state io = STATE_INIT \<and>
   session_state (snd (polycall_protocol_start_handshake os pad now io)) = STATE_HANDSHAKE"
proof (cases "polycall_protocol_send os MSG_HANDSHAKE (Some (handshake_payload pad)) FLAG_RELIABLE io")
  case (Pair r io1)
  with session_view_send [of os MSG_HANDSHAKE "Some (handshake_payload pad)" FLAG_RELIABLE io]
  have "session_state io1 = session_state io" by (simp add: session_state_view)
  with Pair transition_state [of now STATE_HANDSHAKE io1] show ?thesis
    by (auto simp: polycall_protocol_start_handshake_def split: option.splits)
qed

lemma update_edge:
  "session_state (polycall_protocol_update os pad now io) = session_state io \<or>
   proto_edge (session_state io) (session_state (polycall_protocol_update os pad now io))"
proof (cases "io_ctx io")
  case (Some c)
  then show ?thesis
    using start_handshake_state [of os pad now io] transition_state [of now STATE_AUTH io]
      transition_state [of now STATE_READY io]
    by (cases "pc_state c") (auto simp: polycall_protocol_update_def)
qed (simp add: polycall_protocol_update_def)

lemma transition_ok:
  assumes "io_ctx io = Some c" "pc_state_machine c = Some m" "transition_name t = Some nm" "machine_ready nm m"
  shows "\<exists>m' evs. transition_protocol_state now t io =
      (True, emit evs (io\<lparr>io_ctx := Some (c\<lparr>pc_state_machine := Some m', pc_state := t\<rparr>)\<rparr>)) \<and>
    packets evs = [] \<and> (\<forall>k. machine_ready k m \<longrightarrow> machine_ready k m')"
  using transition_succeeds [OF assms] by metis

text \<open>An update of a session past the handshake is the transition that comes next.\<close>

lemma update_advances:
  assumes "io_ctx io = Some c" "pc_state_machine c = Some m" "transition_name t = Some nm" "machine_ready nm m"
    and "pc_state c = STATE_HANDSHAKE \<and> t = STATE_AUTH \<or> pc_state c = STATE_AUTH \<and> t = STATE_READY"
  shows "\<exists>m' evs. polycall_protocol_update os pad now io =
      emit evs (io\<lparr>io_ctx := Some (c\<lparr>pc_state_machine := Some m', pc_state := t\<rparr>)\<rparr>) \<and>
    packets evs = [] \<and> (\<forall>k. machine_ready k m \<longrightarrow> machine_ready k m')"
proof -
  obtain m' evs where t: "transition_protocol_state now t io =
      (True, emit evs (io\<lparr>io_ctx := Some (c\<lparr>pc_state_machine := Some m', pc_state := t\<rparr>)\<rparr>))"
    and r: "packets evs = []" "\<forall>k. machine_ready k m \<longrightarrow> machine_ready k m'"
    using transition_ok [OF assms(1-4), of now] by blast
  from t assms(1,2,5) have "polycall_protocol_update os pad now io =
      emit evs (io\<lparr>io_ctx := Some (c\<lparr>pc_state_machine := Some m', pc_state := t\<rparr>)\<rparr>)"
    by (elim disjE conjE) (simp_all add: polycall_protocol_update_def can_transition_iff)
  with r show ?thesis by blast
qed

section \<open>Properties\<close>

text \<open>
  C6: a message that \<open>polycall_protocol_send\<close> reports as sent went out as one packet: the
  header (version, type, flags, the next sequence number, the payload's length and
  checksum) and the payload. Any peer that processes the packet accepts it, unless it is
  a RESPONSE, and invokes exactly the callback of its type with exactly the payload.
\<close>

theorem sent_message_received:
  assumes "polycall_protocol_send os ty payload flags io = (True, io')"
  shows "\<exists>c fd bytes b. io_ctx io = Some c \<and> payload = Some bytes \<and>
    b = encode_header (packet_header ty bytes flags (pc_next_sequence c)) @ bytes \<and>
    io_events io' = io_events io @ [NetSend fd b] \<and>
    decode_header b = packet_header ty bytes flags (pc_next_sequence c) \<and>
    (\<forall>peer pc. io_ctx peer = Some pc \<longrightarrow> polycall_protocol_process (Some b) peer =
      (case ty of
         MSG_HANDSHAKE \<Rightarrow> (True, emit (call_back (cb_on_handshake (pc_callbacks pc))
           (OnHandshake (cb_on_handshake (pc_callbacks pc)))) peer)
       | MSG_AUTH \<Rightarrow> (True, emit (call_back (cb_on_auth_request (pc_callbacks pc))
           (OnAuthRequest (cb_on_auth_request (pc_callbacks pc)) bytes)) peer)
       | MSG_COMMAND \<Rightarrow> (True, emit (call_back (cb_on_command (pc_callbacks pc))
           (OnCommand (cb_on_command (pc_callbacks pc)) bytes)) peer)
       | MSG_RESPONSE \<Rightarrow> (False, peer)
       | MSG_ERROR \<Rightarrow> (True, emit (call_back (cb_on_error (pc_callbacks pc))
           (OnError (cb_on_error (pc_callbacks pc)) bytes)) peer)
       | MSG_HEARTBEAT \<Rightarrow> (True, emit [] peer)))"
  using assms
proof (cases rule: send_cases)
  case (sent c ep bytes)
  let ?b = "encode_header (packet_header ty bytes flags (pc_next_sequence c)) @ bytes"
  have ok: "packet_ok ?b" using sent(4,5) by (rule packet_ok_packet)
  have dec: "decode_header ?b = packet_header ty bytes flags (pc_next_sequence c)" "drop 16 ?b = bytes"
    by (simp_all only: header.dec_enc header.drop_enc)
  have "polycall_protocol_process (Some ?b) peer = (case dispatch_message (pc_callbacks pc) (message_code ty) bytes of
       None \<Rightarrow> (False, peer) | Some evs \<Rightarrow> (True, emit evs peer))" if "io_ctx peer = Some pc" for peer pc
    using process_packet [OF that ok] by (simp only: dec packet_header_simps)
  note facts = this sent(1,3,7) dec(1)
  show ?thesis
    by (rule exI [of _ c], rule exI [of _ "ep_socket_fd ep"], rule exI [of _ bytes], rule exI [of _ ?b])
      (simp add: facts dispatch_code split: message_type.split)
qed auto

theorem sent_message_received_witness:
  "\<exists>b. io_events (snd (polycall_protocol_send accept_all MSG_HEARTBEAT (Some [42]) 0 (demo_io (demo_context None)))) =
       [NetSend 3 b] \<and>
     polycall_protocol_process (Some b) (demo_io (demo_context None)) = (True, emit [] (demo_io (demo_context None)))"
  using sent_message_received [OF demo_send [of "[42]" MSG_HEARTBEAT 0 None]]
  by (auto simp: demo_send)

text \<open>
  C8: a packet of the code with one byte of its payload changed is refused by every peer:
  nothing is invoked, and the checksum error is reported.
\<close>

theorem corrupted_payload_refused:
  assumes "polycall_protocol_send os ty (Some bytes) flags io = (True, io')"
    and "io_events io' = io_events io @ [NetSend fd b]"
    and "16 \<le> i" "i < length b" "b ! i \<noteq> x" "io_ctx peer = Some pc"
  shows "polycall_protocol_process (Some (b[i := x])) peer =
    (False, peer\<lparr>io_error := ''Checksum verification failed''\<rparr>)"
  using assms(1)
proof (cases rule: send_cases)
  case (sent c ep bytes')
  with assms(2) have "b = encode_header (packet_header ty bytes' flags (pc_next_sequence c)) @ bytes'" by simp
  with packet_ok_packet [OF sent(4,5)] have "packet_ok b" by simp
  from process_corrupted [OF assms(6) this assms(3-5)] show ?thesis
    by (simp add: report_def snprintf_s_def cstr_simps)
qed auto

theorem corrupted_payload_refused_witness:
  "\<exists>b. io_events (snd (polycall_protocol_send accept_all MSG_COMMAND (Some [42, 43]) 0 (demo_io (demo_context None)))) =
       [NetSend 3 b] \<and>
     fst (polycall_protocol_process (Some (b[17 := 0])) (demo_io (demo_context None))) = False"
proof -
  let ?b = "encode_header (packet_header MSG_COMMAND [42, 43] 0 1) @ [42, 43 :: u8]"
  have "17 < length ?b" "?b ! 17 \<noteq> 0" by (simp_all add: header.length_enc nth_append)
  with corrupted_payload_refused [OF demo_send [of "[42, 43]" MSG_COMMAND 0 None], of 3 ?b 17 0 "demo_io (demo_context None)"]
  show ?thesis by (simp add: demo_send)
qed


text \<open>
  C7: what a session puts on the wire. From a fresh context, whatever operations are
  called with whatever results from the network, every packet is within the buffer of
  4096 bytes, passes the receiver's checks with its length field right, and the sequence
  numbers grow from packet to packet.
\<close>

theorem session_packets_well_formed:
  assumes "polycall_protocol_init True True now pc_ctx ep cfg io = (True, io0)"
    and "packets (io_events io) = []" "length es < 2 ^ 32 - 1"
    and "b \<in> set (packets (io_events (fold protocol_step es io0)))"
  shows "16 < length b \<and> length b \<le> 4096 \<and>
    validate_message_header (Some (decode_header b)) any = (True, any) \<and>
    polycall_protocol_verify_checksum (Some (decode_header b)) (Some (drop 16 b)) \<and>
    unat (mh_payload_length (decode_header b)) = length b - 16 \<and>
    sorted_wrt (<) (map packet_sequence (packets (io_events (fold protocol_step es io0))))"
proof -
  from assms(1) have "wire_wf 0 io0" by (rule init_success) (use assms(2) in \<open>simp add: wire_wf_def\<close>)
  with assms(3) have "wire_wf (0 + length es) (fold protocol_step es io0)"
    by (intro wire_wf_run) auto
  with assms(4) show ?thesis by (simp add: wire_wf_def packet_ok_def)
qed

definition demo_protocol_config :: protocol_config where
  "demo_protocol_config = \<lparr>pcfg_callbacks = idle_callbacks\<lparr>cb_on_command := 4096\<rparr>, pcfg_flags = 0,
     pcfg_max_message_size = 0, pcfg_timeout_ms = 0, pcfg_user_data = 0\<rparr>"

lemma demo_init:
  "\<exists>io0 m. polycall_protocol_init True True 1 7 (Some demo_endpoint) (Some demo_protocol_config) (demo_io (demo_context None)) = (True, io0) \<and>
     io0 = demo_io (demo_context (Some m))"
  by (simp add: polycall_protocol_init_def polycall_sm_create_with_integrity_def demo_protocol_config_def)
    (simp add: demo_io_def demo_context_def)

theorem session_packets_well_formed_witness:
  "\<exists>io0 b. packets (io_events (fold protocol_step
       [(\<lparr>env_now = 2, env_send = accept_all, env_pad = 0\<rparr>, Send MSG_COMMAND (Some [1]) 0)] io0)) = [b] \<and>
     16 < length b \<and> length b \<le> 4096"
proof -
  let ?es = "[(\<lparr>env_now = 2, env_send = accept_all, env_pad = 0\<rparr>, Send MSG_COMMAND (Some [1]) 0)]"
  obtain io0 m where i: "polycall_protocol_init True True 1 7 (Some demo_endpoint) (Some demo_protocol_config)
      (demo_io (demo_context None)) = (True, io0)" "io0 = demo_io (demo_context (Some m))"
    using demo_init by blast
  then obtain b where "packets (io_events (fold protocol_step ?es io0)) = [b]"
    by (simp add: demo_send)
  with session_packets_well_formed [OF i(1), of ?es b] show ?thesis by auto
qed

text \<open>
  C10: a protocol context as \<open>polycall_protocol_init\<close> leaves it can never leave the initial
  state: its state machine has no transitions, so no sequence of operations, whatever the
  network does, makes it connected or authenticated, or even records an error state.
\<close>

theorem fresh_session_never_connects:
  assumes "polycall_protocol_init True True now pc_ctx ep cfg io = (True, io0)"
    and "io' = fold protocol_step es io0"
  shows "polycall_protocol_get_state (io_ctx io') = STATE_INIT \<and>
    \<not> polycall_protocol_is_connected (io_ctx io') \<and>
    \<not> polycall_protocol_is_authenticated (io_ctx io') \<and> \<not> polycall_protocol_is_error (io_ctx io')"
proof -
  from assms(1) have "stuck io0"
    by (rule init_success) (auto simp: stuck_def session_view_def dest: created_refuses)
  then have "stuck io'" unfolding assms(2) by (rule refusing.inv_run)
  then show ?thesis
    by (auto simp: stuck_def session_view_def polycall_protocol_get_state_def polycall_protocol_is_connected_def
        polycall_protocol_is_authenticated_def polycall_protocol_is_error_def less_eq_protocol_state_def)
qed

theorem fresh_session_never_connects_witness:
  "\<exists>io0. polycall_protocol_get_state (io_ctx (fold protocol_step
       [(\<lparr>env_now = 2, env_send = accept_all, env_pad = 0\<rparr>, StartHandshake)] io0)) = STATE_INIT \<and>
     io_ctx io0 \<noteq> None"
proof -
  let ?es = "[(\<lparr>env_now = 2, env_send = accept_all, env_pad = 0\<rparr>, StartHandshake)]"
  obtain io0 m where i: "polycall_protocol_init True True 1 7 (Some demo_endpoint) (Some demo_protocol_config)
      (demo_io (demo_context None)) = (True, io0)" "io0 = demo_io (demo_context (Some m))"
    using demo_init by blast
  from fresh_session_never_connects [OF i(1) refl, of ?es] i(2) show ?thesis
    by (intro exI [of _ io0]) (simp add: demo_io_def)
qed

text \<open>
  C9: \<open>polycall_protocol_update\<close> follows the life cycle that
  \<open>polycall_protocol_can_transition\<close> describes: an update leaves the state as it is or takes
  one edge of the automaton INIT, HANDSHAKE, AUTH, READY, ERROR, CLOSED.
\<close>

theorem update_follows_automaton:
  "(session_state (polycall_protocol_update os pad now io) = session_state io \<or>
    proto_edge (session_state io) (session_state (polycall_protocol_update os pad now io))) \<and>
   (polycall_protocol_can_transition (Some c) t = (pc_state_machine c \<noteq> None \<and> proto_edge (pc_state c) t))"
  using update_edge can_transition_iff by blast


text \<open>
  C11: with a machine that has the transitions, and a send that takes the whole handshake
  packet, three updates take a session from INIT to READY, whatever the clock reads at
  each, and the observers call it authenticated. All that went out is the one handshake
  packet; no credentials were sent and no answer was received.
\<close>

theorem updates_reach_ready:
  assumes "io_ctx io = Some c" "pc_state c = STATE_INIT" "pc_endpoint c = Some ep" "pc_state_machine c = Some m"
    and "machine_ready ''to_handshake'' m" "machine_ready ''to_auth'' m" "machine_ready ''to_ready'' m"
    and "packet = encode_header (packet_header MSG_HANDSHAKE (handshake_payload pad) FLAG_RELIABLE (pc_next_sequence c)) @
           handshake_payload pad"
    and "os (ep_socket_fd ep) packet 0 = int (length packet)"
    and "io' = (polycall_protocol_update os pad t3 \<circ> polycall_protocol_update os pad t2 \<circ> polycall_protocol_update os pad t1) io"
  shows "polycall_protocol_get_state (io_ctx io') = STATE_READY \<and>
    polycall_protocol_is_authenticated (io_ctx io') \<and>
    packets (io_events io') = packets (io_events io) @ [packet]"
proof -
  let ?p = "handshake_payload pad"
  let ?b = "encode_header (packet_header MSG_HANDSHAKE ?p FLAG_RELIABLE (pc_next_sequence c)) @ ?p"
  let ?c1 = "c\<lparr>pc_next_sequence := pc_next_sequence c + 1\<rparr>"
  let ?io1 = "emit [NetSend (ep_socket_fd ep) ?b] (io\<lparr>io_ctx := Some ?c1\<rparr>)"
  have p: "?p \<noteq> []" "length ?p \<le> 4080" by (simp_all add: handshake_payload_def)
  have send: "polycall_protocol_send os MSG_HANDSHAKE (Some ?p) FLAG_RELIABLE io = (True, ?io1)"
    using send_packet [OF assms(1,3) p] assms(8,9) by (simp add: Let_def)
  obtain m2 e2 where t2: "transition_protocol_state t1 STATE_HANDSHAKE ?io1 = (True,
      emit e2 (?io1\<lparr>io_ctx := Some (?c1\<lparr>pc_state_machine := Some m2, pc_state := STATE_HANDSHAKE\<rparr>)\<rparr>))"
      "packets e2 = []" and r2: "\<forall>k. machine_ready k m \<longrightarrow> machine_ready k m2"
    using transition_ok [of ?io1 ?c1 m STATE_HANDSHAKE "''to_handshake''" t1] assms(4,5)
    by (auto simp: transition_name_def)
  let ?io2 = "emit e2 (?io1\<lparr>io_ctx := Some (?c1\<lparr>pc_state_machine := Some m2, pc_state := STATE_HANDSHAKE\<rparr>)\<rparr>)"
  have u1: "polycall_protocol_update os pad t1 io = ?io2"
    using assms(1,2,4) send t2(1)
    by (simp add: polycall_protocol_update_def can_transition_iff polycall_protocol_start_handshake_def)
  obtain c3 m3 e3 where u2: "polycall_protocol_update os pad t2 ?io2 = emit e3 (?io2\<lparr>io_ctx := Some c3\<rparr>)"
      "pc_state c3 = STATE_AUTH" "pc_state_machine c3 = Some m3" "packets e3 = []" "machine_ready ''to_ready'' m3"
    using update_advances [of ?io2 _ m2 STATE_AUTH "''to_auth''" os pad t2] r2 assms(6,7)
    by (auto simp: transition_name_def)
  obtain c4 m4 e4 where u3: "polycall_protocol_update os pad t3 (emit e3 (?io2\<lparr>io_ctx := Some c3\<rparr>)) =
      emit e4 (emit e3 (?io2\<lparr>io_ctx := Some c3\<rparr>)\<lparr>io_ctx := Some c4\<rparr>)" "pc_state c4 = STATE_READY" "packets e4 = []"
    using update_advances [of "emit e3 (?io2\<lparr>io_ctx := Some c3\<rparr>)" c3 m3 STATE_READY "''to_ready''" os pad t3] u2
    by (auto simp: transition_name_def)
  have "io' = emit e4 (emit e3 (?io2\<lparr>io_ctx := Some c3\<rparr>)\<lparr>io_ctx := Some c4\<rparr>)"
    by (simp only: assms(10) o_apply u1 u2(1) u3(1))
  with t2(2) u2(4) u3(2,3) assms(8) show ?thesis
    by (simp add: polycall_protocol_get_state_def polycall_protocol_is_authenticated_def
        less_eq_protocol_state_def less_protocol_state_def)
qed

theorem updates_reach_ready_witness:
  "polycall_protocol_is_authenticated (io_ctx (polycall_protocol_update accept_all 0 1700000060
     (polycall_protocol_update accept_all 0 1700000003 (polycall_protocol_update accept_all 0 1700000003
       (demo_io (demo_context protocol_machine))))))"
proof -
  obtain m where m: "protocol_machine = Some m" "machine_ready ''to_handshake'' m"
    "machine_ready ''to_auth'' m" "machine_ready ''to_ready'' m"
    using protocol_machine_ready by blast
  from updates_reach_ready [where io = "demo_io (demo_context (Some m))" and os = accept_all, OF _ _ _ _ m(2-4) refl _ refl]
  show ?thesis by (simp add: m(1) accept_all_def)
qed

text \<open>
  Authentication does not look at the session state. In any state, closed and error
  states included, one accepted AUTH packet of the client's own makes the session READY;
  the peer's answer plays no part.
\<close>

theorem authenticate_from_any_state:
  assumes "io_ctx io = Some c" "pc_endpoint c = Some ep" "pc_state_machine c = Some m"
    and "machine_ready ''to_ready'' m" "cr \<noteq> []" "length cr \<le> 4080"
    and "\<And>fd b fl. os fd b fl = int (length b)"
  shows "\<exists>io'. polycall_protocol_authenticate os now (Some cr) io = (True, io') \<and>
    polycall_protocol_is_authenticated (io_ctx io')"
proof -
  let ?c1 = "c\<lparr>pc_next_sequence := pc_next_sequence c + 1\<rparr>"
  let ?b = "encode_header (packet_header MSG_AUTH cr (FLAG_ENCRYPTED OR FLAG_RELIABLE) (pc_next_sequence c)) @ cr"
  let ?io1 = "emit [NetSend (ep_socket_fd ep) ?b] (io\<lparr>io_ctx := Some ?c1\<rparr>)"
  have "polycall_protocol_send os MSG_AUTH (Some cr) (FLAG_ENCRYPTED OR FLAG_RELIABLE) io = (True, ?io1)"
    using send_packet [OF assms(1,2,5,6)] assms(7) by (simp add: Let_def)
  moreover obtain m' evs where "transition_protocol_state now STATE_READY ?io1 = (True,
      emit evs (?io1\<lparr>io_ctx := Some (?c1\<lparr>pc_state_machine := Some m', pc_state := STATE_READY\<rparr>)\<rparr>))"
    using transition_ok [of ?io1 ?c1 m STATE_READY "''to_ready''" now] assms(3,4)
    by (auto simp: transition_name_def)
  ultimately show ?thesis
    using assms(1,5)
    by (simp add: polycall_protocol_authenticate_def polycall_protocol_is_authenticated_def
        less_eq_protocol_state_def less_protocol_state_def)
qed

theorem authenticate_from_any_state_witness:
  "\<exists>io'. polycall_protocol_authenticate accept_all 9 (Some [1])
       (demo_io ((demo_context protocol_machine)\<lparr>pc_state := STATE_CLOSED\<rparr>)) = (True, io') \<and>
     polycall_protocol_is_authenticated (io_ctx io')"
proof -
  obtain m where m: "protocol_machine = Some m" "machine_ready ''to_ready'' m"
    using protocol_machine_ready by blast
  from authenticate_from_any_state [where io = "demo_io ((demo_context (Some m))\<lparr>pc_state := STATE_CLOSED\<rparr>)"
      and os = accept_all and cr = "[1]", OF _ _ _ m(2)]
  show ?thesis by (simp add: m(1) accept_all_def)
qed

text \<open>
  Initialisation does not install the callbacks of its configuration. Whatever they
  are, the callbacks in effect afterwards are the bytes that were in the caller's memory
  before, so the command callback the configuration names is not what a received command
  invokes. On every failure the context is untouched and the error buffer says why.
\<close>

theorem init_keeps_old_callbacks:
  "case polycall_protocol_init ok1 ok2 now pc_ctx ep cfg io of
     (True, io') \<Rightarrow>
       map_option pc_callbacks (io_ctx io') = map_option pc_callbacks (io_ctx io) \<and>
       map_option pc_last_error (io_ctx io') = map_option pc_last_error (io_ctx io) \<and>
       io_error io' = io_error io \<and> map_option pc_state (io_ctx io') = Some STATE_INIT \<and>
       map_option pc_next_sequence (io_ctx io') = Some 1
   | (False, io') \<Rightarrow>
       io_ctx io' = io_ctx io \<and> io_events io' = io_events io \<and>
       io_error io' \<in> {''Invalid parameters'', ''Memory allocation failed'', ''Failed to create protocol state machine''}"
proof (cases "polycall_protocol_init ok1 ok2 now pc_ctx ep cfg io")
  case (Pair r io')
  show ?thesis
  proof (cases r)
    case True
    with Pair have "polycall_protocol_init ok1 ok2 now pc_ctx ep cfg io = (True, io')" by simp
    then have "map_option pc_callbacks (io_ctx io') = map_option pc_callbacks (io_ctx io) \<and>
       map_option pc_last_error (io_ctx io') = map_option pc_last_error (io_ctx io) \<and>
       io_error io' = io_error io \<and> map_option pc_state (io_ctx io') = Some STATE_INIT \<and>
       map_option pc_next_sequence (io_ctx io') = Some 1"
      by (rule init_success) simp
    with Pair True show ?thesis by simp
  next
    case False
    with Pair show ?thesis
      by (auto simp: polycall_protocol_init_def report_def snprintf_s_def cstr_simps
          split: option.splits if_splits prod.splits)
  qed
qed

text \<open>
  Processing looks at nothing but the callbacks. Its result, the error text and what it
  invokes do not depend on the session state, the sequence number expected or the
  authentication: a command is dispatched in every state; and the header's flags, sequence
  number and payload length are not checked at all, so a replayed packet is processed
  again.
\<close>

theorem processing_ignores_session:
  assumes "pc_callbacks c' = pc_callbacks c"
  shows "polycall_protocol_process
      (Some (encode_header (h\<lparr>mh_flags := f, mh_sequence := n, mh_payload_length := l\<rparr>) @ payload))
      (io\<lparr>io_ctx := Some c'\<rparr>) =
    (case polycall_protocol_process (Some (encode_header h @ payload)) (io\<lparr>io_ctx := Some c\<rparr>) of
       (r, io1) \<Rightarrow> (r, io1\<lparr>io_ctx := Some c'\<rparr>))"
  using assms
  by (auto simp: polycall_protocol_process_def validate_message_header_def header.dec_enc
      header.length_enc report_def emit_def polycall_protocol_verify_checksum_def Let_def split: option.splits)

theorem processing_ignores_session_witness:
  "polycall_protocol_process (Some (encode_header ((packet_header MSG_COMMAND [1] 0 1)
        \<lparr>mh_flags := 0, mh_sequence := 9, mh_payload_length := 0\<rparr>) @ [1]))
      ((demo_io (demo_context None))\<lparr>io_ctx := Some ((demo_context None)\<lparr>pc_state := STATE_CLOSED\<rparr>)\<rparr>) =
   (case polycall_protocol_process (Some (encode_header (packet_header MSG_COMMAND [1] 0 1) @ [1]))
          ((demo_io (demo_context None))\<lparr>io_ctx := Some (demo_context None)\<rparr>) of
      (r, io1) \<Rightarrow> (r, io1\<lparr>io_ctx := Some ((demo_context None)\<lparr>pc_state := STATE_CLOSED\<rparr>)\<rparr>))"
  by (rule processing_ignores_session) simp

text \<open>
  A message of more than 4080 bytes is refused without anything being sent, and the
  refusal is reported, but its sequence number is consumed all the same.
\<close>

theorem oversized_message_consumes_sequence:
  assumes "io_ctx io = Some c" "pc_endpoint c = Some ep" "4080 < length bytes" "length bytes < 2 ^ 32 - 16"
  shows "polycall_protocol_send os ty (Some bytes) flags io =
    (False, io\<lparr>io_error := ''Message too large: '' @ show_nat (16 + length bytes) @ '' bytes'',
       io_ctx := Some (c\<lparr>pc_next_sequence := pc_next_sequence c + 1\<rparr>)\<rparr>)"
proof -
  let ?n = "show_nat (16 + length bytes)"
  have "length ?n \<le> 10" using assms(4) by (intro show_nat_length) simp_all
  moreover have "NUL \<notin> set (''Message too large: '' @ ?n @ '' bytes'')"
    using show_nat_digits [of "16 + length bytes"] is_digit_not_NUL by auto
  ultimately have "snprintf_s 256 (''Message too large: '' @ ?n @ '' bytes'') = ''Message too large: '' @ ?n @ '' bytes''"
    unfolding snprintf_s_def by (subst cstr_id) simp_all
  moreover have "(16 + length bytes) mod 2 ^ 32 = 16 + length bytes"
    using assms(4) by (intro mod_less) simp
  ultimately show ?thesis
    using send_too_large [OF assms(1-3)] by (simp only: report_def) simp
qed

theorem oversized_message_consumes_sequence_witness:
  "fst (polycall_protocol_send accept_all MSG_COMMAND (Some (replicate 5000 1)) 0 (demo_io (demo_context None))) = False"
  using oversized_message_consumes_sequence [of "demo_io (demo_context None)" "demo_context None" demo_endpoint
      "replicate 5000 1" accept_all MSG_COMMAND 0]
  by simp

end
