(* ===== verification/Micro.thy ===== *)
theory Micro
  imports Protocol
begin

text \<open>
  \<open>src/polycall_micro.c\<close> and \<open>include/polycall_micro.h\<close>: a table of 32 service slots with a
  bit mask of the slots in use, command queues of 64 entries, and garbage collection by
  age. \<open>time(NULL)\<close> is the parameter \<open>now\<close>. The service table is scanned with
  \<open>1U << i\<close>, which is undefined from \<open>i = 32\<close> on: an operation that could get there has an
  option as its result, \<open>None\<close> for undefined behaviour.
\<close>

section \<open>Data\<close>

definition MICRO_MAX_SERVICES :: nat where [simp]: "MICRO_MAX_SERVICES = 32"
definition MICRO_MAX_COMMANDS :: nat where [simp]: "MICRO_MAX_COMMANDS = 64"
definition MICRO_BUFFER_SIZE :: nat where [simp]: "MICRO_BUFFER_SIZE = 4096"

datatype micro_status =
    MICRO_SUCCESS
  | MICRO_ERROR_INIT
  | MICRO_ERROR_SERVICE
  | MICRO_ERROR_COMMAND
  | MICRO_ERROR_PROTOCOL
  | MICRO_ERROR_MEMORY

record micro_command =
  cmd_id :: u32
  cmd_flags :: u32
  cmd_payload_size :: u32
  cmd_payload :: "u8 list"

record command_array =
  ca_commands :: "micro_command list"
  ca_count :: u32
  ca_capacity :: u32

record service_state =
  sv_id :: u32
  sv_flags :: u32
  sv_state :: u32
  sv_last_update :: u64
  sv_endpoints :: "network_endpoint list"
  sv_endpoint_count :: u32
  sv_command_queue :: command_array
  sv_memory_pool :: "u8 list"

record service_array =
  sa_services :: "service_state list"
  sa_count :: u32
  sa_active_mask :: u32
  sa_last_gc :: u64

record micro_context =
  mc_service_array :: service_array
  mc_state_machine :: "state_machine option"
  mc_protocol_ctx :: protocol_context
  mc_flags :: u32
  mc_startup_time :: u64

text \<open>A chain of in-place transforms; a NULL entry is skipped.\<close>

record transform_chain =
  tc_transforms :: "((micro_command \<Rightarrow> micro_command) option list) option"
  tc_transform_count :: u32

definition zero_command :: micro_command where
  "zero_command = \<lparr>cmd_id = 0, cmd_flags = 0, cmd_payload_size = 0,
     cmd_payload = replicate MICRO_BUFFER_SIZE 0\<rparr>"

definition zero_service :: service_state where
  "zero_service = \<lparr>sv_id = 0, sv_flags = 0, sv_state = 0, sv_last_update = 0,
     sv_endpoints = replicate 16 zero_endpoint, sv_endpoint_count = 0,
     sv_command_queue = \<lparr>ca_commands = replicate MICRO_MAX_COMMANDS zero_command, ca_count = 0, ca_capacity = 0\<rparr>,
     sv_memory_pool = replicate MICRO_BUFFER_SIZE 0\<rparr>"

definition reset_command_array :: "command_array \<Rightarrow> command_array" where
  "reset_command_array array =
     \<lparr>ca_commands = replicate MICRO_MAX_COMMANDS zero_command, ca_count = 0,
      ca_capacity = of_nat MICRO_MAX_COMMANDS\<rparr>"

definition reset_service_state :: "service_state \<Rightarrow> service_state" where
  "reset_service_state state =
     zero_service\<lparr>sv_command_queue := reset_command_array (sv_command_queue zero_service)\<rparr>"

section \<open>The slots in use\<close>

text \<open>\<open>mask & (1U << i)\<close>, for \<open>i < 32\<close>.\<close>

definition slot_active :: "u32 \<Rightarrow> nat \<Rightarrow> bool" where
  "slot_active active i \<longleftrightarrow> active AND push_bit i 1 \<noteq> 0"

text \<open>\<open>while (mask & (1U << slot)) slot++;\<close>\<close>

function free_slot :: "u32 \<Rightarrow> nat \<Rightarrow> nat option" where
  "free_slot active slot =
     (if 32 \<le> slot then None
      else if slot_active active slot then free_slot active (slot + 1)
      else Some slot)"
  by pat_completeness auto

termination by (relation "measure (\<lambda>(_, slot). 32 - slot)") auto

declare free_slot.simps [simp del]

text \<open>The search loop of the operations that take a service id.\<close>

definition find_service :: "u32 \<Rightarrow> service_array \<Rightarrow> nat option" where
  "find_service service_id a =
     List.find (\<lambda>i. slot_active (sa_active_mask a) i \<and> sv_id (sa_services a ! i) = service_id)
       [0..<MICRO_MAX_SERVICES]"

section \<open>Services\<close>

definition polycall_micro_create_service ::
  "u64 \<Rightarrow> u32 \<Rightarrow> u32 \<Rightarrow> micro_context option \<Rightarrow> (micro_status \<times> micro_context option) option" where
  "polycall_micro_create_service now service_id flags ctx =
     (case ctx of None \<Rightarrow> Some (MICRO_ERROR_SERVICE, None) | Some c \<Rightarrow>
      let a = mc_service_array c in
      if sa_count a \<ge> of_nat MICRO_MAX_SERVICES then Some (MICRO_ERROR_SERVICE, Some c)
      else case free_slot (sa_active_mask a) 0 of None \<Rightarrow> None | Some slot \<Rightarrow>
        if slot \<ge> MICRO_MAX_SERVICES then Some (MICRO_ERROR_SERVICE, Some c)
        else
          let service = (reset_service_state (sa_services a ! slot))
                \<lparr>sv_id := service_id, sv_flags := flags, sv_last_update := now\<rparr>
          in Some (MICRO_SUCCESS, Some (c\<lparr>mc_service_array := a
               \<lparr>sa_services := (sa_services a)[slot := service],
                sa_active_mask := sa_active_mask a OR push_bit slot 1,
                sa_count := sa_count a + 1\<rparr>\<rparr>)))"

definition destroy_slot :: "nat \<Rightarrow> service_array \<Rightarrow> service_array" where
  "destroy_slot i a = a
     \<lparr>sa_services := (sa_services a)[i := reset_service_state (sa_services a ! i)],
      sa_active_mask := sa_active_mask a AND NOT (push_bit i 1),
      sa_count := sa_count a - 1\<rparr>"

definition polycall_micro_destroy_service ::
  "u32 \<Rightarrow> micro_context option \<Rightarrow> micro_status \<times> micro_context option" where
  "polycall_micro_destroy_service service_id ctx =
     (case ctx of None \<Rightarrow> (MICRO_ERROR_SERVICE, None) | Some c \<Rightarrow>
      case find_service service_id (mc_service_array c) of
        None \<Rightarrow> (MICRO_ERROR_SERVICE, Some c)
      | Some i \<Rightarrow> (MICRO_SUCCESS, Some (c\<lparr>mc_service_array := destroy_slot i (mc_service_array c)\<rparr>)))"

definition polycall_micro_update_service_state ::
  "u64 \<Rightarrow> u32 \<Rightarrow> u32 \<Rightarrow> micro_context option \<Rightarrow> micro_status \<times> micro_context option" where
  "polycall_micro_update_service_state now service_id new_state ctx =
     (case ctx of None \<Rightarrow> (MICRO_ERROR_SERVICE, None) | Some c \<Rightarrow>
      let a = mc_service_array c in
      case find_service service_id a of
        None \<Rightarrow> (MICRO_ERROR_SERVICE, Some c)
      | Some i \<Rightarrow> (MICRO_SUCCESS, Some (c\<lparr>mc_service_array := a
          \<lparr>sa_services := (sa_services a)[i := (sa_services a ! i)\<lparr>sv_state := new_state, sv_last_update := now\<rparr>]\<rparr>\<rparr>)))"

definition polycall_micro_get_active_services :: "micro_context option \<Rightarrow> u32" where
  "polycall_micro_get_active_services ctx =
     (case ctx of None \<Rightarrow> 0 | Some c \<Rightarrow> sa_count (mc_service_array c))"

section \<open>Commands\<close>

text \<open>Transforms and predicates are the caller's functions; a transform changes its command in place.\<close>

definition polycall_micro_transform_command ::
  "micro_command option \<Rightarrow> transform_chain option \<Rightarrow> micro_status \<times> micro_command option" where
  "polycall_micro_transform_command cmd chain =
     (case (cmd, chain) of
        (Some command, Some ch) \<Rightarrow>
          (case tc_transforms ch of
             None \<Rightarrow> (MICRO_ERROR_COMMAND, cmd)
           | Some transforms \<Rightarrow>
               (MICRO_SUCCESS, Some (fold (\<lambda>t x. case t of None \<Rightarrow> x | Some f \<Rightarrow> f x)
                  (take (unat (tc_transform_count ch)) transforms) command)))
      | _ \<Rightarrow> (MICRO_ERROR_COMMAND, cmd))"

text \<open>The compaction loop: entries are copied down over the ones that were dropped.\<close>

function filter_loop :: "(micro_command \<Rightarrow> bool) \<Rightarrow> nat \<Rightarrow> nat \<Rightarrow> nat \<Rightarrow> micro_command list
    \<Rightarrow> nat \<times> micro_command list" where
  "filter_loop predicate count write_idx read_idx commands =
     (if read_idx < count then
        if predicate (commands ! read_idx) then
          filter_loop predicate count (write_idx + 1) (read_idx + 1)
            (if write_idx \<noteq> read_idx then commands[write_idx := commands ! read_idx] else commands)
        else filter_loop predicate count write_idx (read_idx + 1) commands
      else (write_idx, commands))"
  by pat_completeness auto

termination by (relation "measure (\<lambda>(_, count, _, read_idx, _). count - read_idx)") auto

declare filter_loop.simps [simp del]

definition polycall_micro_filter_commands ::
  "command_array option \<Rightarrow> (micro_command \<Rightarrow> bool) option \<Rightarrow> micro_status \<times> command_array option" where
  "polycall_micro_filter_commands commands predicate =
     (case (commands, predicate) of
        (Some a, Some p) \<Rightarrow>
          (case filter_loop p (unat (ca_count a)) 0 0 (ca_commands a) of (write_idx, cs) \<Rightarrow>
           (MICRO_SUCCESS, Some (a\<lparr>ca_commands := cs, ca_count := of_nat write_idx\<rparr>)))
      | _ \<Rightarrow> (MICRO_ERROR_COMMAND, commands))"

definition polycall_micro_process_commands ::
  "u64 \<Rightarrow> service_state option \<Rightarrow> (service_state \<Rightarrow> service_state) option
     \<Rightarrow> micro_status \<times> service_state option" where
  "polycall_micro_process_commands now service operation =
     (case (service, operation) of
        (Some s, Some f) \<Rightarrow> (MICRO_SUCCESS, Some ((f s)\<lparr>sv_last_update := now\<rparr>))
      | _ \<Rightarrow> (MICRO_ERROR_COMMAND, service))"

text \<open>One turn of the batch loop: an oversized command or a full queue drops the command.\<close>

definition queue_command :: "micro_command \<Rightarrow> command_array \<Rightarrow> command_array" where
  "queue_command cmd q =
     (if cmd_payload_size cmd > of_nat MICRO_BUFFER_SIZE then q
      else if ca_count q < ca_capacity q
      then q\<lparr>ca_commands := (ca_commands q)[unat (ca_count q) := cmd], ca_count := ca_count q + 1\<rparr>
      else q)"

text \<open>
  A batch reads as many commands as the caller's count says. If that is more than the
  caller's array has, the loop reads behind it: \<open>None\<close>.
\<close>

definition polycall_micro_batch_process ::
  "u64 \<Rightarrow> u32 \<Rightarrow> command_array option \<Rightarrow> micro_context option \<Rightarrow> (micro_status \<times> micro_context option) option" where
  "polycall_micro_batch_process now service_id commands ctx =
     (case (ctx, commands) of
        (Some c, Some cmds) \<Rightarrow>
          (let a = mc_service_array c in
           case find_service service_id a of
             None \<Rightarrow> Some (MICRO_ERROR_SERVICE, Some c)
           | Some i \<Rightarrow>
               if unat (ca_count cmds) > length (ca_commands cmds) then None else
               let s = sa_services a ! i;
                   q = fold queue_command (take (unat (ca_count cmds)) (ca_commands cmds)) (sv_command_queue s)
               in Some (MICRO_SUCCESS, Some (c\<lparr>mc_service_array := a
                    \<lparr>sa_services := (sa_services a)[i := s\<lparr>sv_command_queue := q, sv_last_update := now\<rparr>]\<rparr>\<rparr>)))
      | _ \<Rightarrow> Some (MICRO_ERROR_COMMAND, ctx))"

definition polycall_micro_create_transform_chain ::
  "((micro_command \<Rightarrow> micro_command) option list) option \<Rightarrow> u32 \<Rightarrow> transform_chain" where
  "polycall_micro_create_transform_chain transforms count =
     (if transforms \<noteq> None \<and> count > 0
      then \<lparr>tc_transforms = transforms, tc_transform_count = count\<rparr>
      else \<lparr>tc_transforms = None, tc_transform_count = 0\<rparr>)"

definition polycall_micro_destroy_transform_chain :: "transform_chain option \<Rightarrow> transform_chain option" where
  "polycall_micro_destroy_transform_chain chain =
     map_option (\<lambda>ch. ch\<lparr>tc_transforms := None, tc_transform_count := 0\<rparr>) chain"

section \<open>Garbage collection\<close>

text \<open>One turn of the loop; the age is a difference of \<open>uint64_t\<close> and wraps.\<close>

definition collect_slot :: "u64 \<Rightarrow> nat \<Rightarrow> micro_context \<Rightarrow> micro_context" where
  "collect_slot current_time i c =
     (let a = mc_service_array c; service = sa_services a ! i in
      if slot_active (sa_active_mask a) i \<and> current_time - sv_last_update service > 3600
      then the (snd (polycall_micro_destroy_service (sv_id service) (Some c)))
      else c)"

definition polycall_micro_collect_garbage ::
  "u64 \<Rightarrow> micro_context option \<Rightarrow> micro_status \<times> micro_context option" where
  "polycall_micro_collect_garbage now ctx =
     (case ctx of None \<Rightarrow> (MICRO_ERROR_MEMORY, None) | Some c \<Rightarrow>
      let c1 = fold (collect_slot now) [0..<MICRO_MAX_SERVICES] c
      in (MICRO_SUCCESS, Some (c1\<lparr>mc_service_array := (mc_service_array c1)\<lparr>sa_last_gc := now\<rparr>\<rparr>)))"

section \<open>Life cycle\<close>

text \<open>
  \<open>ok\<close> says which of the three allocations succeed: the machine of the service context, the
  protocol's internal context and the protocol's machine. The protocol keeps a pointer to
  \<open>endpoint\<close>, a local variable of this function. Parts of the context the code has not
  written when it fails keep their old content.
\<close>

definition polycall_micro_init ::
  "bool \<times> bool \<times> bool \<Rightarrow> u64 \<Rightarrow> polycall_config option \<Rightarrow> micro_context option \<Rightarrow> protocol_io
     \<Rightarrow> micro_status \<times> micro_context option \<times> protocol_io" where
  "polycall_micro_init ok now config ctx io =
     (case (ctx, config) of
        (Some c, Some cfg) \<Rightarrow>
          (let (ok1, ok2, ok3) = ok;
               c1 = c\<lparr>mc_service_array := \<lparr>sa_services = replicate MICRO_MAX_SERVICES zero_service,
                        sa_count = 0, sa_active_mask = 0, sa_last_gc = now\<rparr>\<rparr>
           in case polycall_sm_create_with_integrity ok1 now (cfg_user_data cfg) True None of
             (status, machine) \<Rightarrow>
              if status \<noteq> SM_SUCCESS
              then (MICRO_ERROR_INIT,
                    Some (if cfg_user_data cfg = 0 then c1 else c1\<lparr>mc_state_machine := None\<rparr>), io)
              else
                let c2 = c1\<lparr>mc_state_machine := machine\<rparr>;
                    endpoint = zero_endpoint\<lparr>ep_protocol := NET_TCP, ep_role := NET_SERVER\<rparr>;
                    proto_config = \<lparr>pcfg_callbacks = \<lparr>cb_on_handshake = 0, cb_on_auth_request = 0,
                        cb_on_command = 0, cb_on_error = 0, cb_on_state_change = 0\<rparr>,
                      pcfg_flags = 0, pcfg_max_message_size = of_nat MICRO_BUFFER_SIZE,
                      pcfg_timeout_ms = 5000, pcfg_user_data = cfg_user_data cfg\<rparr>
                in case polycall_protocol_init ok2 ok3 now (cfg_user_data cfg) (Some endpoint)
                          (Some proto_config) (io\<lparr>io_ctx := Some (mc_protocol_ctx c2)\<rparr>) of
                  (started, io1) \<Rightarrow>
                    if \<not> started
                    then (MICRO_ERROR_PROTOCOL, Some (c2\<lparr>mc_state_machine := polycall_sm_destroy machine\<rparr>), io1)
                    else (MICRO_SUCCESS, Some (c2
                           \<lparr>mc_protocol_ctx := the (io_ctx io1), mc_flags := cfg_flags cfg,
                            mc_startup_time := now\<rparr>), io1))
      | _ \<Rightarrow> (MICRO_ERROR_INIT, ctx, io))"

text \<open>
  The loop of the cleanup reads \<open>count\<close>, which each destroyed service lowers, anew every
  turn. The protocol cleanup then frees the protocol context, which is a member of the
  micro context and no block of \<open>malloc\<close>.
\<close>

function cleanup_services :: "nat \<Rightarrow> micro_context \<Rightarrow> micro_context option" where
  "cleanup_services i c =
     (let a = mc_service_array c in
      if i < unat (sa_count a)
      then
        if 32 \<le> i then None
        else cleanup_services (i + 1)
               (if slot_active (sa_active_mask a) i
                then the (snd (polycall_micro_destroy_service (sv_id (sa_services a ! i)) (Some c))) else c)
      else Some c)"
  by pat_completeness auto

termination by (relation "measure (\<lambda>(i, _). 32 - i)") auto

declare cleanup_services.simps [simp del]

definition polycall_micro_cleanup :: "micro_context option \<Rightarrow> micro_context option option" where
  "polycall_micro_cleanup ctx =
     (case ctx of None \<Rightarrow> Some None | Some c \<Rightarrow>
      case cleanup_services 0 c of None \<Rightarrow> None | Some c1 \<Rightarrow>
      case polycall_protocol_cleanup False (Some (mc_protocol_ctx c1)) of
        None \<Rightarrow> None
      | Some _ \<Rightarrow> Some None)"

fun polycall_micro_status_string :: "micro_status \<Rightarrow> string" where
  "polycall_micro_status_string MICRO_SUCCESS = ''Success''"
| "polycall_micro_status_string MICRO_ERROR_INIT = ''Initialization error''"
| "polycall_micro_status_string MICRO_ERROR_SERVICE = ''Service error''"
| "polycall_micro_status_string MICRO_ERROR_COMMAND = ''Command error''"
| "polycall_micro_status_string MICRO_ERROR_PROTOCOL = ''Protocol error''"
| "polycall_micro_status_string MICRO_ERROR_MEMORY = ''Memory error''"

end
