(* ===== verification/Micro_Invariant.thy ===== *)
theory Micro_Invariant
  imports Micro
begin

text \<open>
  The invariant of the micro service table, kept by every operation, and the lemmas on
  slots, command queues, filtering and garbage collection that the properties rest on.
\<close>

section \<open>The mask of active slots\<close>

lemma slot_active_bit: "i < 32 \<Longrightarrow> slot_active w i \<longleftrightarrow> bit w i"
  by (simp add: slot_active_def push_bit_of_1 and_exp_eq_0_iff_not_bit)

lemma slot_active_set [simp]:
  "i < 32 \<Longrightarrow> k < 32 \<Longrightarrow> slot_active (w OR 2 ^ k) i \<longleftrightarrow> i = k \<or> slot_active w i"
  by (auto simp: slot_active_bit bit_simps)

lemma slot_active_clear [simp]:
  "i < 32 \<Longrightarrow> k < 32 \<Longrightarrow> slot_active (w AND NOT (2 ^ k)) i \<longleftrightarrow> i \<noteq> k \<and> slot_active w i"
  by (auto simp: slot_active_bit bit_simps)

lemma slot_active_0 [simp]: "\<not> slot_active 0 i"
  by (simp add: slot_active_def)

definition active_slots :: "u32 \<Rightarrow> nat set" where
  "active_slots w = {i. i < 32 \<and> slot_active w i}"

lemma active_slots_finite [simp]: "finite (active_slots w)"
  by (simp add: active_slots_def)

lemma active_slots_less [dest]: "i \<in> active_slots w \<Longrightarrow> i < 32"
  by (simp add: active_slots_def)

lemma active_slots_set: "k < 32 \<Longrightarrow> active_slots (w OR 2 ^ k) = insert k (active_slots w)"
  by (auto simp: active_slots_def)

lemma active_slots_clear: "k < 32 \<Longrightarrow> active_slots (w AND NOT (2 ^ k)) = active_slots w - {k}"
  by (auto simp: active_slots_def)

lemma card_active_le: "card (active_slots w) \<le> 32"
proof -
  have "active_slots w \<subseteq> {..<32}" by (auto simp: active_slots_def)
  from card_mono [OF _ this] show ?thesis by simp
qed

lemma mask_set_clear:
  assumes "k < 32" "\<not> slot_active w k"
  shows "(w OR 2 ^ k) AND NOT (2 ^ k) = w"
proof (rule bit_word_eqI)
  fix n assume "n < LENGTH(32)"
  with assms show "bit ((w OR 2 ^ k) AND NOT (2 ^ k)) n = bit w n"
    by (auto simp: bit_simps slot_active_bit)
qed

lemma free_slot_Some:
  "free_slot w s = Some k \<Longrightarrow> s \<le> k \<and> k < 32 \<and> \<not> slot_active w k \<and> (\<forall>j. s \<le> j \<and> j < k \<longrightarrow> slot_active w j)"
proof (induction w s rule: free_slot.induct)
  case (1 w s)
  from "1.prems" consider "\<not> 32 \<le> s" "slot_active w s" "free_slot w (s + 1) = Some k"
    | "\<not> 32 \<le> s" "\<not> slot_active w s" "s = k"
    by (subst (asm) free_slot.simps) (auto split: if_splits)
  then show ?case
  proof cases
    case 1
    then have "s + 1 \<le> k \<and> k < 32 \<and> \<not> slot_active w k \<and> (\<forall>j. s + 1 \<le> j \<and> j < k \<longrightarrow> slot_active w j)"
      using "1.IH" by blast
    with 1(2) show ?thesis by (metis Suc_eq_plus1 Suc_leD le_neq_implies_less Suc_leI)
  qed auto
qed

lemma free_slot_None: "free_slot w s = None \<Longrightarrow> s \<le> j \<Longrightarrow> j < 32 \<Longrightarrow> slot_active w j"
proof (induction w s rule: free_slot.induct)
  case (1 w s)
  then have "\<not> 32 \<le> s" by simp
  with "1.prems"(1) have "slot_active w s" "free_slot w (s + 1) = None"
    by (subst (asm) free_slot.simps; simp split: if_splits)+
  with "1.IH" [OF \<open>\<not> 32 \<le> s\<close>] "1.prems" show ?case
    by (cases "j = s") auto
qed

section \<open>The invariant of a service table\<close>

text \<open>
  The table keeps its size, the count is the number of bits in the mask, and the queue of
  every active service has its full capacity and stays within it.
\<close>

definition queue_wf :: "command_array \<Rightarrow> bool" where
  "queue_wf q \<longleftrightarrow> length (ca_commands q) = 64 \<and> ca_capacity q = 64 \<and> ca_count q \<le> 64"

definition services_wf :: "service_array \<Rightarrow> bool" where
  "services_wf a \<longleftrightarrow> length (sa_services a) = 32 \<and> unat (sa_count a) = card (active_slots (sa_active_mask a)) \<and>
     (\<forall>i \<in> active_slots (sa_active_mask a). queue_wf (sv_command_queue (sa_services a ! i)))"

definition micro_wf :: "micro_context \<Rightarrow> bool" where
  "micro_wf c \<longleftrightarrow> services_wf (mc_service_array c)"

lemma queue_wf_reset [simp]: "queue_wf (sv_command_queue (reset_service_state s))"
  by (simp add: queue_wf_def reset_service_state_def reset_command_array_def)

lemma queue_wf_command: "queue_wf q \<Longrightarrow> queue_wf (queue_command cmd q)"
proof -
  assume q: "queue_wf q"
  show ?thesis
  proof (cases "ca_count q < ca_capacity q")
    case True
    with q have "unat (ca_count q) < 64" by (simp add: queue_wf_def word_less_nat_alt)
    then have "unat (ca_count q + 1) = Suc (unat (ca_count q))" by (simp add: unat_inc32)
    with q True show ?thesis by (auto simp: queue_command_def queue_wf_def word_le_nat_alt word_less_nat_alt)
  qed (use q in \<open>auto simp: queue_command_def\<close>)
qed

lemma queue_wf_fold: "queue_wf q \<Longrightarrow> queue_wf (fold queue_command cmds q)"
  by (induction cmds arbitrary: q) (simp_all add: queue_wf_command)

lemma find_service_Some:
  "find_service k a = Some i \<Longrightarrow> i \<in> active_slots (sa_active_mask a) \<and> sv_id (sa_services a ! i) = k \<and>
     (\<forall>j \<in> active_slots (sa_active_mask a). j < i \<longrightarrow> sv_id (sa_services a ! j) \<noteq> k)"
  by (auto simp: find_service_def find_Some_iff active_slots_def)

lemma find_service_None:
  "find_service k a = None \<longleftrightarrow> (\<forall>i \<in> active_slots (sa_active_mask a). sv_id (sa_services a ! i) \<noteq> k)"
  by (auto simp: find_service_def find_None_iff active_slots_def)

lemma find_serviceI:
  assumes "i \<in> active_slots (sa_active_mask a)" "sv_id (sa_services a ! i) = k"
    "\<And>j. j \<in> active_slots (sa_active_mask a) \<Longrightarrow> j < i \<Longrightarrow> sv_id (sa_services a ! j) \<noteq> k"
  shows "find_service k a = Some i"
proof (cases "find_service k a")
  case None
  with assms(1,2) show ?thesis by (simp add: find_service_None)
next
  case (Some n)
  from find_service_Some [OF this] assms have "n = i" by (metis linorder_neqE_nat)
  with Some show ?thesis by simp
qed

lemma services_wf_destroy_slot:
  assumes "services_wf a" "i \<in> active_slots (sa_active_mask a)"
  shows "services_wf (destroy_slot i a)"
proof -
  let ?s = "active_slots (sa_active_mask a)"
  have i: "i < 32" using assms(2) by (simp add: active_slots_def)
  have "0 < card ?s" using assms(2) by (auto simp: card_gt_0_iff)
  with assms(1) have "sa_count a \<noteq> 0" by (auto simp: services_wf_def)
  then have "unat (sa_count a - 1) = unat (sa_count a) - 1" by (rule unat_minus_one)
  moreover have "card (?s - {i}) = card ?s - 1" using assms(2) by simp
  ultimately show ?thesis
    using assms(1) i by (auto simp: services_wf_def destroy_slot_def active_slots_clear)
qed

lemma services_wf_update:
  assumes "services_wf a" "i \<in> active_slots (sa_active_mask a)" "queue_wf (sv_command_queue s)"
  shows "services_wf (a\<lparr>sa_services := (sa_services a)[i := s]\<rparr>)"
proof -
  have "queue_wf (sv_command_queue ((sa_services a)[i := s] ! j))" if "j \<in> active_slots (sa_active_mask a)" for j
    using assms that active_slots_less [OF that] active_slots_less [OF assms(2)]
    by (cases "j = i") (auto simp: services_wf_def)
  with assms(1) show ?thesis by (simp add: services_wf_def)
qed

lemma active_queue_wf:
  "services_wf a \<Longrightarrow> i \<in> active_slots (sa_active_mask a) \<Longrightarrow> queue_wf (sv_command_queue (sa_services a ! i))"
  by (simp add: services_wf_def)

lemma services_wf_create:
  assumes "services_wf a" "slot < 32" "\<not> slot_active (sa_active_mask a) slot" "queue_wf (sv_command_queue s)"
  shows "services_wf (a\<lparr>sa_services := (sa_services a)[slot := s],
     sa_active_mask := sa_active_mask a OR push_bit slot 1, sa_count := sa_count a + 1\<rparr>)"
proof -
  let ?s = "active_slots (sa_active_mask a)"
  have new: "slot \<notin> ?s" using assms(3) by (simp add: active_slots_def)
  have "unat (sa_count a) \<le> 32" using assms(1) card_active_le by (simp add: services_wf_def)
  then have "unat (sa_count a + 1) = Suc (unat (sa_count a))" by (intro unat_inc32 [of _ 33]) simp_all
  moreover have "queue_wf (sv_command_queue ((sa_services a)[slot := s] ! j))" if "j \<in> insert slot ?s" for j
    using assms that by (cases "j = slot") (auto simp: services_wf_def)
  ultimately show ?thesis
    using assms(1,2) new by (simp add: services_wf_def active_slots_set)
qed

section \<open>Creating and destroying services\<close>

text \<open>Below 32 services there is a free slot, and the scan for it stays within the mask.\<close>

lemma free_slot_exists:
  assumes "services_wf a" "sa_count a < 32"
  obtains slot where "free_slot (sa_active_mask a) 0 = Some slot"
proof (cases "free_slot (sa_active_mask a) 0")
  case None
  then have "active_slots (sa_active_mask a) = {..<32}"
    by (auto simp: active_slots_def intro: free_slot_None [where s = 0])
  with assms show thesis by (simp add: services_wf_def word_less_nat_alt)
qed (use that in auto)

definition new_service :: "u64 \<Rightarrow> u32 \<Rightarrow> u32 \<Rightarrow> service_state" where
  "new_service now k flags =
     zero_service\<lparr>sv_command_queue := reset_command_array (sv_command_queue zero_service),
       sv_id := k, sv_flags := flags, sv_last_update := now\<rparr>"

lemma new_service_fields [simp]:
  "sv_id (new_service now k flags) = k" "sv_flags (new_service now k flags) = flags"
  "sv_last_update (new_service now k flags) = now" "sv_state (new_service now k flags) = 0"
  "ca_count (sv_command_queue (new_service now k flags)) = 0"
  "queue_wf (sv_command_queue (new_service now k flags))"
  by (simp_all add: new_service_def zero_service_def reset_command_array_def queue_wf_def)

lemma create_service_ok:
  assumes "micro_wf c" "sa_count (mc_service_array c) < 32"
  obtains slot where "free_slot (sa_active_mask (mc_service_array c)) 0 = Some slot"
    "polycall_micro_create_service now k flags (Some c) = Some (MICRO_SUCCESS, Some (c\<lparr>mc_service_array :=
       (mc_service_array c)\<lparr>sa_services := (sa_services (mc_service_array c))[slot := new_service now k flags],
          sa_active_mask := sa_active_mask (mc_service_array c) OR push_bit slot 1,
          sa_count := sa_count (mc_service_array c) + 1\<rparr>\<rparr>))"
proof -
  obtain slot where slot: "free_slot (sa_active_mask (mc_service_array c)) 0 = Some slot"
    using free_slot_exists assms by (auto simp: micro_wf_def)
  from free_slot_Some [OF this] have "slot < 32" by simp
  with slot assms(2) that [OF slot] show thesis
    by (simp add: polycall_micro_create_service_def Let_def not_le reset_service_state_def new_service_def)
qed

lemma create_service_full:
  "\<not> sa_count (mc_service_array c) < 32 \<Longrightarrow>
   polycall_micro_create_service now k flags (Some c) = Some (MICRO_ERROR_SERVICE, Some c)"
  by (simp add: polycall_micro_create_service_def Let_def not_less)

lemma micro_wf_create:
  assumes "micro_wf c"
  shows "\<exists>s c'. polycall_micro_create_service now k flags (Some c) = Some (s, Some c') \<and> micro_wf c'"
proof (cases "sa_count (mc_service_array c) < 32")
  case True
  with assms obtain slot where slot: "free_slot (sa_active_mask (mc_service_array c)) 0 = Some slot"
    "polycall_micro_create_service now k flags (Some c) = Some (MICRO_SUCCESS, Some (c\<lparr>mc_service_array :=
       (mc_service_array c)\<lparr>sa_services := (sa_services (mc_service_array c))[slot := new_service now k flags],
          sa_active_mask := sa_active_mask (mc_service_array c) OR push_bit slot 1,
          sa_count := sa_count (mc_service_array c) + 1\<rparr>\<rparr>))"
    by (rule create_service_ok)
  from free_slot_Some [OF slot(1)] services_wf_create [of "mc_service_array c" slot "new_service now k flags"] assms slot(2)
  show ?thesis by (auto simp: micro_wf_def)
next
  case False
  with assms create_service_full show ?thesis by blast
qed

lemma destroy_service_cases:
  assumes "polycall_micro_destroy_service k (Some c) = (s, c')"
  obtains (missing) "find_service k (mc_service_array c) = None" "s = MICRO_ERROR_SERVICE" "c' = Some c"
    | (destroyed) i where "find_service k (mc_service_array c) = Some i" "s = MICRO_SUCCESS"
        "c' = Some (c\<lparr>mc_service_array := destroy_slot i (mc_service_array c)\<rparr>)"
  using assms by (auto simp: polycall_micro_destroy_service_def split: option.splits)

lemma micro_wf_destroy:
  "micro_wf c \<Longrightarrow> \<exists>s c'. polycall_micro_destroy_service k (Some c) = (s, Some c') \<and> micro_wf c'"
  by (auto simp: polycall_micro_destroy_service_def micro_wf_def
      dest!: find_service_Some intro: services_wf_destroy_slot split: option.splits)

lemma micro_wf_update:
  "micro_wf c \<Longrightarrow> \<exists>s c'. polycall_micro_update_service_state now k st (Some c) = (s, Some c') \<and> micro_wf c'"
  by (auto simp: polycall_micro_update_service_state_def micro_wf_def Let_def active_queue_wf
      dest!: find_service_Some intro!: services_wf_update split: option.splits)

text \<open>The array a caller hands over holds the commands it counts.\<close>

definition caller_array :: "command_array option \<Rightarrow> bool" where
  "caller_array cmds \<longleftrightarrow> (case cmds of None \<Rightarrow> True | Some a \<Rightarrow> unat (ca_count a) \<le> length (ca_commands a))"

lemma micro_wf_batch:
  "micro_wf c \<Longrightarrow> polycall_micro_batch_process now k cmds (Some c) = Some (s, c1) \<Longrightarrow> \<exists>c'. c1 = Some c' \<and> micro_wf c'"
  by (auto simp: polycall_micro_batch_process_def micro_wf_def Let_def active_queue_wf
      dest!: find_service_Some intro!: services_wf_update queue_wf_fold split: option.splits if_splits)

lemma batch_defined:
  "caller_array cmds \<Longrightarrow> \<exists>r. polycall_micro_batch_process now k cmds (Some c) = Some r"
  by (auto simp: polycall_micro_batch_process_def caller_array_def Let_def split: option.splits)

lemma micro_wf_collect_slot: "micro_wf c \<Longrightarrow> micro_wf (collect_slot now i c)"
  using micro_wf_destroy [of c "sv_id (sa_services (mc_service_array c) ! i)"]
  by (auto simp: collect_slot_def Let_def)

lemma micro_wf_collect:
  "micro_wf c \<Longrightarrow> \<exists>c'. polycall_micro_collect_garbage now (Some c) = (MICRO_SUCCESS, Some c') \<and> micro_wf c'"
proof -
  assume wf: "micro_wf c"
  have "micro_wf (fold (collect_slot now) is c)" for "is"
    using wf by (induction "is" arbitrary: c) (simp_all add: micro_wf_collect_slot)
  from this [of "[0..<32]"] show ?thesis
    by (simp add: polycall_micro_collect_garbage_def Let_def micro_wf_def services_wf_def)
qed

section \<open>Sessions\<close>

datatype micro_call =
    CreateService u32 u32
  | DestroyService u32
  | UpdateState u32 u32
  | BatchProcess u32 "command_array option"
  | CollectGarbage

text \<open>One call at a given time; \<open>None\<close> once undefined behaviour was met.\<close>

fun micro_step :: "u64 \<times> micro_call \<Rightarrow> micro_context option \<Rightarrow> micro_context option" where
  "micro_step (now, call) None = None"
| "micro_step (now, CreateService k flags) (Some c) =
     (case polycall_micro_create_service now k flags (Some c) of None \<Rightarrow> None | Some (_, r) \<Rightarrow> r)"
| "micro_step (now, DestroyService k) (Some c) = snd (polycall_micro_destroy_service k (Some c))"
| "micro_step (now, UpdateState k st) (Some c) = snd (polycall_micro_update_service_state now k st (Some c))"
| "micro_step (now, BatchProcess k cmds) (Some c) =
     (case polycall_micro_batch_process now k cmds (Some c) of None \<Rightarrow> None | Some (_, r) \<Rightarrow> r)"
| "micro_step (now, CollectGarbage) (Some c) = snd (polycall_micro_collect_garbage now (Some c))"

text \<open>What every call keeps: the table is well formed as long as nothing undefined was met.\<close>

definition micro_sound :: "micro_context option \<Rightarrow> bool" where
  "micro_sound sc \<longleftrightarrow> (\<forall>c. sc = Some c \<longrightarrow> micro_wf c)"

interpretation micro: stepwise_invariant micro_step micro_sound
proof unfold_locales
  fix s e
  assume sound: "micro_sound s"
  show "micro_sound (micro_step e s)"
  proof (cases "(e, s)" rule: micro_step.cases)
    case (2 now k flags c)
    with sound micro_wf_create [of c now k flags] show ?thesis by (auto simp: micro_sound_def)
  next
    case (3 now k c)
    with sound micro_wf_destroy [of c k] show ?thesis by (auto simp: micro_sound_def)
  next
    case (4 now k st c)
    with sound micro_wf_update [of c now k st] show ?thesis by (auto simp: micro_sound_def)
  next
    case (5 now k cmds c)
    with sound micro_wf_batch [of c now k cmds] show ?thesis
      by (auto simp: micro_sound_def split: option.splits)
  next
    case (6 now c)
    with sound micro_wf_collect [of c now] show ?thesis by (auto simp: micro_sound_def)
  qed (use sound in simp)
qed

text \<open>Undefined is a call that hands over an array shorter than its count, and no other.\<close>

fun call_backed :: "micro_call \<Rightarrow> bool" where
  "call_backed (BatchProcess k cmds) = caller_array cmds"
| "call_backed _ = True"

lemma micro_step_defined:
  assumes "micro_wf c" "call_backed (snd e)"
  shows "\<exists>c'. micro_step e (Some c) = Some c'"
proof (cases "(e, Some c)" rule: micro_step.cases)
  case (2 now k flags c')
  with assms micro_wf_create [of c now k flags] show ?thesis by auto
next
  case (5 now k cmds c')
  with assms batch_defined [of cmds now k c] micro_wf_batch [of c now k cmds] show ?thesis by auto
next
  case (6 now c')
  with assms micro_wf_collect [of c now] show ?thesis by auto
next
  case (3 now k c')
  with assms micro_wf_destroy [of c k] show ?thesis by auto
next
  case (4 now k st c')
  with assms micro_wf_update [of c now k st] show ?thesis by auto
qed (use assms in auto)

lemma micro_run_defined:
  assumes "micro_wf c" "\<forall>e \<in> set es. call_backed (snd e)"
  shows "\<exists>c'. fold micro_step es (Some c) = Some c' \<and> micro_wf c'"
  using assms
proof (induction es arbitrary: c)
  case (Cons e es)
  from Cons.prems(2) have "call_backed (snd e)" by simp
  with Cons.prems(1) obtain c1 where c1: "micro_step e (Some c) = Some c1"
    using micro_step_defined by blast
  moreover have "micro_wf c1" using micro.inv_step [of "Some c" e] c1 Cons.prems(1) by (simp add: micro_sound_def)
  ultimately show ?case using Cons by simp
qed simp

section \<open>Filtering\<close>

lemma filter_loop_spec:
  assumes "w \<le> r" "r \<le> n" "n \<le> length cs" "filter_loop p n w r cs = (w', cs')"
  shows "w' = w + length (filter p (take (n - r) (drop r cs))) \<and> length cs' = length cs \<and>
    take w' cs' = take w cs @ filter p (take (n - r) (drop r cs))"
  using assms
proof (induction p n w r cs arbitrary: w' cs' rule: filter_loop.induct)
  case (1 p n w r cs)
  note prems = "1.prems" and IH = "1.IH"
  show ?case
  proof (cases "r < n")
    case False
    with prems show ?thesis by (subst (asm) filter_loop.simps) auto
  next
    case True
    with prems(3) have split: "take (n - r) (drop r cs) = cs ! r # take (n - Suc r) (drop (Suc r) cs)"
      by (metis Cons_nth_drop_Suc Suc_diff_Suc less_le_trans take_Suc_Cons)
    show ?thesis
    proof (cases "p (cs ! r)")
      case True
      let ?cs = "if w \<noteq> r then cs[w := cs ! r] else cs"
      have "filter_loop p n (w + 1) (r + 1) ?cs = (w', cs')"
        using prems(4) \<open>r < n\<close> True by (subst (asm) filter_loop.simps) (simp split: if_splits)
      from IH(1) [OF \<open>r < n\<close> True _ _ _ this] prems(1-3) \<open>r < n\<close>
      have "w' = w + 1 + length (filter p (take (n - (r + 1)) (drop (r + 1) ?cs))) \<and> length cs' = length ?cs \<and>
        take w' cs' = take (w + 1) ?cs @ filter p (take (n - (r + 1)) (drop (r + 1) ?cs))" by auto
      moreover have "drop (r + 1) ?cs = drop (r + 1) cs" using prems(1) by (simp add: drop_update_cancel)
      moreover have "take (w + 1) ?cs = take w cs @ [cs ! r]"
        using prems(1-3) \<open>r < n\<close> by (simp add: take_Suc_conv_app_nth)
      ultimately show ?thesis using True by (cases "w = r") (auto simp: split)
    next
      case False
      have "filter_loop p n w (r + 1) cs = (w', cs')"
        using prems(4) \<open>r < n\<close> False by (subst (asm) filter_loop.simps) simp
      from IH(2) [OF \<open>r < n\<close> False _ _ _ this] prems(1-3) \<open>r < n\<close> False show ?thesis
        by (auto simp: split)
    qed
  qed
qed

section \<open>Queues\<close>

text \<open>The commands a queue holds.\<close>

definition queued :: "command_array \<Rightarrow> micro_command list" where
  "queued q = take (unat (ca_count q)) (ca_commands q)"

definition accepted_size :: "micro_command \<Rightarrow> bool" where
  "accepted_size cmd \<longleftrightarrow> cmd_payload_size cmd \<le> 4096"

lemma queued_command:
  assumes "queue_wf q"
  shows "queued (queue_command cmd q) = (if accepted_size cmd then take 64 (queued q @ [cmd]) else queued q)"
proof (cases "ca_count q < 64")
  case True
  then have n: "unat (ca_count q) < 64" by (simp add: word_less_nat_alt)
  then have "unat (ca_count q + 1) = Suc (unat (ca_count q))" by (simp add: unat_inc32)
  with n assms True show ?thesis
    by (auto simp: queued_def queue_command_def queue_wf_def accepted_size_def not_le take_Suc_conv_app_nth)
next
  case False
  with assms have "ca_count q = 64" by (simp add: queue_wf_def)
  with assms show ?thesis by (auto simp: queued_def queue_command_def queue_wf_def accepted_size_def)
qed

lemma length_queued: "queue_wf q \<Longrightarrow> length (queued q) \<le> 64"
  by (simp add: queued_def queue_wf_def)

lemma queued_fold:
  "queue_wf q \<Longrightarrow> queued (fold queue_command cmds q) = take 64 (queued q @ filter accepted_size cmds)"
proof (induction cmds arbitrary: q)
  case (Cons cmd cmds)
  from Cons.IH [OF queue_wf_command [OF Cons.prems]] queued_command [OF Cons.prems, of cmd]
  show ?case
    using length_queued [OF Cons.prems] by (cases "64 - length (queued q)") (auto intro: arg_cong [where f = "\<lambda>k. take k _"])
qed (simp add: length_queued)

section \<open>Garbage collection\<close>

definition expired :: "u64 \<Rightarrow> service_state \<Rightarrow> bool" where
  "expired now s \<longleftrightarrow> now - sv_last_update s > 3600"

definition distinct_ids :: "service_array \<Rightarrow> bool" where
  "distinct_ids a \<longleftrightarrow> inj_on (\<lambda>i. sv_id (sa_services a ! i)) (active_slots (sa_active_mask a))"

lemma find_service_distinct:
  "distinct_ids a \<Longrightarrow> i \<in> active_slots (sa_active_mask a) \<Longrightarrow> find_service (sv_id (sa_services a ! i)) a = Some i"
  by (rule find_serviceI) (auto simp: distinct_ids_def dest: inj_onD)

lemma collect_slot_distinct:
  assumes "distinct_ids (mc_service_array c)" "i < 32"
  shows "collect_slot now i c =
    (if i \<in> active_slots (sa_active_mask (mc_service_array c)) \<and> expired now (sa_services (mc_service_array c) ! i)
     then c\<lparr>mc_service_array := destroy_slot i (mc_service_array c)\<rparr> else c)"
proof (cases "i \<in> active_slots (sa_active_mask (mc_service_array c))")
  case True
  with find_service_distinct [OF assms(1) True] show ?thesis
    by (simp add: collect_slot_def Let_def expired_def polycall_micro_destroy_service_def active_slots_def)
next
  case False
  with assms(2) show ?thesis by (auto simp: collect_slot_def Let_def active_slots_def)
qed

text \<open>What the first \<open>n\<close> turns leave of the table \<open>a\<close>.\<close>

definition collected :: "u64 \<Rightarrow> nat \<Rightarrow> service_array \<Rightarrow> service_array \<Rightarrow> bool" where
  "collected now n a a' \<longleftrightarrow>
     active_slots (sa_active_mask a') =
       {i \<in> active_slots (sa_active_mask a). n \<le> i \<or> \<not> expired now (sa_services a ! i)} \<and>
     (\<forall>i \<in> active_slots (sa_active_mask a'). sa_services a' ! i = sa_services a ! i)"

lemma collected_distinct: "distinct_ids a \<Longrightarrow> collected now n a a' \<Longrightarrow> distinct_ids a'"
  by (auto simp: distinct_ids_def collected_def inj_on_def)

lemma collected_run:
  assumes "distinct_ids (mc_service_array c)" "n \<le> 32"
  shows "collected now n (mc_service_array c) (mc_service_array (fold (collect_slot now) [0..<n] c)) \<and>
    fold (collect_slot now) [0..<n] c =
      c\<lparr>mc_service_array := mc_service_array (fold (collect_slot now) [0..<n] c)\<rparr>"
  using assms(2)
proof (induction n)
  case 0
  then show ?case by (simp add: collected_def)
next
  case (Suc n)
  let ?c = "fold (collect_slot now) [0..<n] c"
  let ?a = "mc_service_array ?c" and ?b = "mc_service_array c"
  from Suc have col: "collected now n ?b ?a" and frame: "?c = c\<lparr>mc_service_array := ?a\<rparr>" by simp_all
  have n: "n < 32" using Suc.prems by simp
  have step: "fold (collect_slot now) [0..<Suc n] c =
      (if n \<in> active_slots (sa_active_mask ?a) \<and> expired now (sa_services ?a ! n)
       then ?c\<lparr>mc_service_array := destroy_slot n ?a\<rparr> else ?c)"
    using collect_slot_distinct [OF collected_distinct [OF assms(1) col] n] by simp
  show ?case
  proof (cases "n \<in> active_slots (sa_active_mask ?a) \<and> expired now (sa_services ?a ! n)")
    case True
    have "active_slots (sa_active_mask (destroy_slot n ?a)) = active_slots (sa_active_mask ?a) - {n}"
      using n by (simp add: destroy_slot_def active_slots_clear)
    moreover have "sa_services (destroy_slot n ?a) ! i = sa_services ?a ! i" if "i \<noteq> n" for i
      using that by (simp add: destroy_slot_def)
    moreover have "expired now (sa_services ?b ! n)" using True col by (auto simp: collected_def)
    ultimately have "collected now (Suc n) ?b (destroy_slot n ?a)"
      using col by (auto simp: collected_def)
    moreover have "?c\<lparr>mc_service_array := x\<rparr> = c\<lparr>mc_service_array := x\<rparr>" for x
      by (subst frame) simp
    ultimately show ?thesis using True by (simp only: step) simp
  next
    case False
    then have "collected now (Suc n) ?b ?a"
      using col by (auto simp: collected_def Suc_le_eq le_less)
    with frame show ?thesis by (simp only: step if_not_P [OF False])
  qed
qed

end
