(* ===== verification/Micro_Properties.thy ===== *)
theory Micro_Properties
  imports Micro_Invariant Protocol_Properties
begin

text \<open>
  What the service table of \<open>src/polycall_micro.c\<close> guarantees: a consistent table in every
  session, slots taken lowest first and given back, queues and filters that do what lists
  do, and a garbage collection that is exact when ids are distinct and goes wrong when two
  services share one.
\<close>

section \<open>A context to run the witnesses on\<close>

definition empty_micro :: micro_context where
  "empty_micro = \<lparr>mc_service_array = \<lparr>sa_services = replicate 32 zero_service, sa_count = 0,
       sa_active_mask = 0, sa_last_gc = 0\<rparr>,
     mc_state_machine = None, mc_protocol_ctx = demo_context None, mc_flags = 0, mc_startup_time = 0\<rparr>"

definition with_services :: "service_state list \<Rightarrow> micro_context" where
  "with_services ss = empty_micro\<lparr>mc_service_array :=
     \<lparr>sa_services = ss @ replicate (32 - length ss) zero_service, sa_count = of_nat (length ss),
      sa_active_mask = 2 ^ length ss - 1, sa_last_gc = 0\<rparr>\<rparr>"

lemma micro_wf_empty: "micro_wf empty_micro"
  by (simp add: micro_wf_def services_wf_def empty_micro_def active_slots_def)

lemma active_slots_1: "active_slots 1 = {0}"
  using active_slots_set [of 0 0] by (auto simp: active_slots_def)

lemma active_slots_3: "active_slots 3 = {0, 1}"
  using active_slots_set [of 1 1] by (simp add: active_slots_1 insert_commute)

lemma destroy_service_total: "\<exists>s c'. polycall_micro_destroy_service k (Some c) = (s, Some c')"
  by (auto simp: polycall_micro_destroy_service_def split: option.splits)

lemma micro_wf_two:
  assumes "queue_wf (sv_command_queue s)" "queue_wf (sv_command_queue t)"
  shows "micro_wf (with_services [s, t])" "active_slots (sa_active_mask (mc_service_array (with_services [s, t]))) = {0, 1}"
    "sa_services (mc_service_array (with_services [s, t])) ! 0 = s" "sa_services (mc_service_array (with_services [s, t])) ! 1 = t"
  using assms by (simp_all add: micro_wf_def services_wf_def with_services_def active_slots_3)

lemma destroyed_slots:
  "find_service n a = Some m \<Longrightarrow> active_slots (sa_active_mask (destroy_slot m a)) = active_slots (sa_active_mask a) - {m}"
  "x \<noteq> m \<Longrightarrow> sa_services (destroy_slot m a) ! x = sa_services a ! x"
proof -
  assume "find_service n a = Some m"
  from find_service_Some [OF this] have "m < 32" by auto
  then show "active_slots (sa_active_mask (destroy_slot m a)) = active_slots (sa_active_mask a) - {m}"
    by (simp add: destroy_slot_def active_slots_clear)
qed (simp add: destroy_slot_def)

section \<open>A collection with two services of one id\<close>

text \<open>
  While the older service in the higher slot \<open>j\<close> and the younger one in the lower slot \<open>i\<close>
  are both there, the id leads to \<open>i\<close>; and if \<open>j\<close> went, \<open>i\<close> went before it.
\<close>

definition shadowed :: "u32 \<Rightarrow> nat \<Rightarrow> nat \<Rightarrow> service_state \<Rightarrow> service_array \<Rightarrow> bool" where
  "shadowed k i j old a \<longleftrightarrow> i \<notin> active_slots (sa_active_mask a) \<or>
     find_service k a = Some i \<and> j \<in> active_slots (sa_active_mask a) \<and> sa_services a ! j = old"

lemma shadowed_destroy:
  assumes "shadowed k i j old a" "i < j" "sv_id old = k" "find_service n a = Some m"
  shows "shadowed k i j old (destroy_slot m a)"
proof -
  note act = destroyed_slots(1) [OF assms(4)]
  from find_service_Some [OF assms(4)] have m: "sv_id (sa_services a ! m) = n" by simp
  show ?thesis
  proof (cases "i \<in> active_slots (sa_active_mask a) \<and> m \<noteq> i")
    case False
    then show ?thesis by (auto simp: shadowed_def act)
  next
    case True
    with assms(1) have a: "find_service k a = Some i" "j \<in> active_slots (sa_active_mask a)" "sa_services a ! j = old"
      by (auto simp: shadowed_def)
    have "m \<noteq> j" using a(1,3) assms(3,4) m True by auto
    moreover have "find_service k (destroy_slot m a) = Some i"
      using find_service_Some [OF a(1)] True by (intro find_serviceI) (auto simp: act destroyed_slots(2))
    ultimately show ?thesis using a by (simp add: shadowed_def act destroyed_slots(2))
  qed
qed

lemma shadowed_collect_slot:
  assumes "shadowed k i j old (mc_service_array c)" "i < j" "sv_id old = k"
  shows "shadowed k i j old (mc_service_array (collect_slot now n c))"
  using assms shadowed_destroy [OF assms]
  by (auto simp: collect_slot_def Let_def polycall_micro_destroy_service_def split: option.splits)

lemma shadowed_run:
  "shadowed k i j old (mc_service_array c) \<Longrightarrow> i < j \<Longrightarrow> sv_id old = k \<Longrightarrow>
   shadowed k i j old (mc_service_array (fold (collect_slot now) is c))"
  by (induction "is" arbitrary: c) (simp_all add: shadowed_collect_slot)

lemma inactive_collect_slot:
  "i \<notin> active_slots (sa_active_mask (mc_service_array c)) \<Longrightarrow>
   i \<notin> active_slots (sa_active_mask (mc_service_array (collect_slot now n c)))"
  by (auto simp: collect_slot_def Let_def polycall_micro_destroy_service_def destroyed_slots split: option.splits)

lemma inactive_run:
  "i \<notin> active_slots (sa_active_mask (mc_service_array c)) \<Longrightarrow>
   i \<notin> active_slots (sa_active_mask (mc_service_array (fold (collect_slot now) is c)))"
  by (induction "is" arbitrary: c) (simp_all add: inactive_collect_slot)

section \<open>Properties\<close>

lemma service_table_bounds:
  assumes "services_wf (mc_service_array c)"
  shows "unat (polycall_micro_get_active_services (Some c)) =
      card {i. i < 32 \<and> slot_active (sa_active_mask (mc_service_array c)) i} \<and>
    polycall_micro_get_active_services (Some c) \<le> 32 \<and>
    (\<forall>i < 32. slot_active (sa_active_mask (mc_service_array c)) i \<longrightarrow>
       ca_count (sv_command_queue (sa_services (mc_service_array c) ! i)) \<le> 64)"
  using assms active_queue_wf [OF assms] card_active_le [of "sa_active_mask (mc_service_array c)"]
  by (simp add: polycall_micro_get_active_services_def services_wf_def active_slots_def queue_wf_def word_le_nat_alt)

text \<open>
  C12: the service table of a context that \<open>polycall_micro_init\<close> accepted. After any sequence
  of operations at any times the count equals the number of bits in the mask and is at most
  32, and every queue is within its 64 entries. If every batch has the commands it counts,
  no operation runs into undefined behaviour: the scan for a free slot never shifts past
  the 32 bits of the mask.
\<close>

theorem service_table_consistent:
  assumes "polycall_micro_init ok now cfg (Some c0) io = (MICRO_SUCCESS, Some c, io1)"
  shows "((\<forall>e \<in> set es. call_backed (snd e)) \<longrightarrow> fold micro_step es (Some c) \<noteq> None) \<and>
    (\<forall>c'. fold micro_step es (Some c) = Some c' \<longrightarrow>
      unat (polycall_micro_get_active_services (Some c')) =
        card {i. i < 32 \<and> slot_active (sa_active_mask (mc_service_array c')) i} \<and>
      polycall_micro_get_active_services (Some c') \<le> 32 \<and>
      (\<forall>i < 32. slot_active (sa_active_mask (mc_service_array c')) i \<longrightarrow>
         ca_count (sv_command_queue (sa_services (mc_service_array c') ! i)) \<le> 64))"
proof -
  have "mc_service_array c = \<lparr>sa_services = replicate MICRO_MAX_SERVICES zero_service,
      sa_count = 0, sa_active_mask = 0, sa_last_gc = now\<rparr>"
    using assms by (auto simp: polycall_micro_init_def Let_def split: prod.splits option.splits if_splits)
  then have wf: "micro_wf c"
    by (simp add: micro_wf_def services_wf_def active_slots_def)
  then have "micro_sound (fold micro_step es (Some c))"
    by (intro micro.inv_run) (simp add: micro_sound_def)
  then have "services_wf (mc_service_array c')" if "fold micro_step es (Some c) = Some c'" for c'
    using that by (simp add: micro_sound_def micro_wf_def)
  with micro_run_defined [OF wf, of es] service_table_bounds show ?thesis by fastforce
qed

theorem service_table_consistent_witness:
  "\<exists>c c'. fold micro_step [(5, CreateService 7 0), (6, BatchProcess 7 (Some \<lparr>ca_commands = [zero_command],
       ca_count = 1, ca_capacity = 1\<rparr>)), (7, DestroyService 7), (8, CollectGarbage)] (Some c) = Some c' \<and>
     polycall_micro_get_active_services (Some c') \<le> 32"
proof -
  obtain c io1 where i: "polycall_micro_init (True, True, True) 1
      (Some \<lparr>cfg_flags = 0, cfg_memory_pool_size = 0, cfg_user_data = 9\<rparr>) (Some empty_micro)
      (demo_io (demo_context None)) = (MICRO_SUCCESS, Some c, io1)"
    by (simp add: polycall_micro_init_def polycall_sm_create_with_integrity_def polycall_protocol_init_def Let_def)
  from service_table_consistent [OF i, of "[(5, CreateService 7 0), (6, BatchProcess 7 (Some \<lparr>ca_commands = [zero_command],
       ca_count = 1, ca_capacity = 1\<rparr>)), (7, DestroyService 7), (8, CollectGarbage)]"]
  have "\<exists>c'. fold micro_step [(5, CreateService 7 0), (6, BatchProcess 7 (Some \<lparr>ca_commands = [zero_command],
       ca_count = 1, ca_capacity = 1\<rparr>)), (7, DestroyService 7), (8, CollectGarbage)] (Some c) = Some c' \<and>
     polycall_micro_get_active_services (Some c') \<le> 32"
    by (simp only: list.set ball_simps call_backed.simps caller_array_def snd_conv) auto
  then show ?thesis by blast
qed

text \<open>
  Creating a service. Below 32 services it takes the lowest free slot, which then
  holds a fresh state with the id, the flags, the time and an empty queue; every other
  slot is untouched and the count goes up by one. At 32 it fails without change. Ids are
  not checked: a second service may get the id of a first.
\<close>

theorem create_takes_lowest_slot:
  assumes "micro_wf c" "a = mc_service_array c"
  shows "if sa_count a < 32 then
      \<exists>slot a'. polycall_micro_create_service now k flags (Some c) = Some (MICRO_SUCCESS, Some (c\<lparr>mc_service_array := a'\<rparr>)) \<and>
        slot \<notin> active_slots (sa_active_mask a) \<and> (\<forall>j < slot. j \<in> active_slots (sa_active_mask a)) \<and>
        active_slots (sa_active_mask a') = insert slot (active_slots (sa_active_mask a)) \<and>
        sa_services a' = (sa_services a)[slot := new_service now k flags] \<and> sa_count a' = sa_count a + 1
    else polycall_micro_create_service now k flags (Some c) = Some (MICRO_ERROR_SERVICE, Some c)"
proof (cases "sa_count a < 32")
  case True
  with assms obtain slot where slot: "free_slot (sa_active_mask a) 0 = Some slot"
    "polycall_micro_create_service now k flags (Some c) = Some (MICRO_SUCCESS, Some (c\<lparr>mc_service_array :=
       a\<lparr>sa_services := (sa_services a)[slot := new_service now k flags],
          sa_active_mask := sa_active_mask a OR push_bit slot 1, sa_count := sa_count a + 1\<rparr>\<rparr>))"
    using create_service_ok by blast
  from free_slot_Some [OF slot(1)] have "slot < 32" "slot \<notin> active_slots (sa_active_mask a)"
    "\<forall>j < slot. j \<in> active_slots (sa_active_mask a)" by (auto simp: active_slots_def)
  with slot(2) True show ?thesis by (auto simp: active_slots_set intro!: exI [of _ slot])
next
  case False
  with assms(2) show ?thesis by (simp add: create_service_full)
qed

theorem create_takes_lowest_slot_witness:
  "\<exists>a'. polycall_micro_create_service 5 7 0 (Some empty_micro) = Some (MICRO_SUCCESS, Some (empty_micro\<lparr>mc_service_array := a'\<rparr>)) \<and>
     sa_count a' = 1"
  using create_takes_lowest_slot [OF micro_wf_empty refl, of 5 7 0]
  by (auto simp: empty_micro_def)

text \<open>
  Destroying the service just created under a new id gives back the table: the mask,
  the count, and every other slot are as before, and the slot used is cleared.
\<close>

theorem create_destroy_roundtrip:
  assumes "micro_wf c" "sa_count (mc_service_array c) < 32" "find_service k (mc_service_array c) = None"
    and "polycall_micro_create_service now k flags (Some c) = Some (MICRO_SUCCESS, Some c1)"
    and "polycall_micro_destroy_service k (Some c1) = (s, Some c2)"
  shows "s = MICRO_SUCCESS \<and> (\<exists>slot < 32. slot \<notin> active_slots (sa_active_mask (mc_service_array c)) \<and>
    c2 = c\<lparr>mc_service_array := (mc_service_array c)
      \<lparr>sa_services := (sa_services (mc_service_array c))[slot := reset_service_state zero_service]\<rparr>\<rparr>)"
proof -
  let ?a = "mc_service_array c"
  obtain slot where slot: "free_slot (sa_active_mask ?a) 0 = Some slot"
    "polycall_micro_create_service now k flags (Some c) = Some (MICRO_SUCCESS, Some (c\<lparr>mc_service_array :=
       ?a\<lparr>sa_services := (sa_services ?a)[slot := new_service now k flags],
          sa_active_mask := sa_active_mask ?a OR push_bit slot 1, sa_count := sa_count ?a + 1\<rparr>\<rparr>))"
    using create_service_ok [OF assms(1,2)] .
  let ?a1 = "?a\<lparr>sa_services := (sa_services ?a)[slot := new_service now k flags],
          sa_active_mask := sa_active_mask ?a OR push_bit slot 1, sa_count := sa_count ?a + 1\<rparr>"
  from free_slot_Some [OF slot(1)] have free: "slot < 32" "\<not> slot_active (sa_active_mask ?a) slot" by auto
  then have new: "slot \<notin> active_slots (sa_active_mask ?a)" by (simp add: active_slots_def)
  have len: "length (sa_services ?a) = 32" using assms(1) by (simp add: micro_wf_def services_wf_def)
  have c1: "c1 = c\<lparr>mc_service_array := ?a1\<rparr>" using slot(2) assms(4) by simp
  have "find_service k ?a1 = Some slot"
    using assms(3) free new len
    by (intro find_serviceI) (auto simp: find_service_None active_slots_set)
  with assms(5) c1 have "s = MICRO_SUCCESS" "c2 = c1\<lparr>mc_service_array := destroy_slot slot ?a1\<rparr>"
    by (auto simp: polycall_micro_destroy_service_def)
  moreover have "destroy_slot slot ?a1 = ?a\<lparr>sa_services := (sa_services ?a)[slot := reset_service_state zero_service]\<rparr>"
    using len free mask_set_clear [OF free] by (simp add: destroy_slot_def reset_service_state_def)
  ultimately show ?thesis using free new c1 by auto
qed

theorem create_destroy_roundtrip_witness:
  "\<exists>c1 c2. polycall_micro_create_service 5 7 0 (Some empty_micro) = Some (MICRO_SUCCESS, Some c1) \<and>
     polycall_micro_destroy_service 7 (Some c1) = (MICRO_SUCCESS, Some c2) \<and>
     sa_active_mask (mc_service_array c2) = 0"
proof -
  have f: "sa_count (mc_service_array empty_micro) < 32" "find_service 7 (mc_service_array empty_micro) = None"
    by (simp_all add: empty_micro_def find_service_None active_slots_def)
  obtain c1 where c1: "polycall_micro_create_service 5 7 0 (Some empty_micro) = Some (MICRO_SUCCESS, Some c1)"
    using create_service_ok [OF micro_wf_empty f(1)] by metis
  obtain s c2 where c2: "polycall_micro_destroy_service 7 (Some c1) = (s, Some c2)"
    using destroy_service_total by blast
  from create_destroy_roundtrip [OF micro_wf_empty f c1 c2] c1 c2 show ?thesis by (auto simp: empty_micro_def)
qed


text \<open>
  A batch appends to the queue of the service it names the commands whose size is at
  most 4096, in order, until the queue has 64; the rest is dropped silently. The time of
  the service is set, and nothing else in the table changes.
\<close>

theorem batch_fills_queue:
  assumes "micro_wf c" "find_service k (mc_service_array c) = Some i"
    and "polycall_micro_batch_process now k (Some cmds) (Some c) = Some (s, Some c')"
  shows "s = MICRO_SUCCESS \<and> (\<exists>q. c' = c\<lparr>mc_service_array := (mc_service_array c)\<lparr>sa_services :=
      (sa_services (mc_service_array c))[i := (sa_services (mc_service_array c) ! i)
        \<lparr>sv_command_queue := q, sv_last_update := now\<rparr>]\<rparr>\<rparr> \<and>
    take (unat (ca_count q)) (ca_commands q) =
      take 64 (queued (sv_command_queue (sa_services (mc_service_array c) ! i)) @
        filter (\<lambda>cmd. cmd_payload_size cmd \<le> 4096) (take (unat (ca_count cmds)) (ca_commands cmds))))"
proof -
  have "i \<in> active_slots (sa_active_mask (mc_service_array c))"
    using find_service_Some [OF assms(2)] by simp
  then have "queue_wf (sv_command_queue (sa_services (mc_service_array c) ! i))"
    using assms(1) by (simp add: micro_wf_def active_queue_wf)
  note q = queued_fold [OF this, of "take (unat (ca_count cmds)) (ca_commands cmds)"]
  show ?thesis
    using assms(2,3) q unfolding accepted_size_def [abs_def]
    by (intro conjI exI [of _ "fold queue_command (take (unat (ca_count cmds)) (ca_commands cmds))
        (sv_command_queue (sa_services (mc_service_array c) ! i))"])
      (simp_all add: polycall_micro_batch_process_def Let_def queued_def split: if_splits)
qed

theorem batch_fills_queue_witness:
  "\<exists>c'. polycall_micro_batch_process 9 7 (Some \<lparr>ca_commands = [zero_command], ca_count = 1, ca_capacity = 1\<rparr>)
      (Some (with_services [new_service 1 7 0, new_service 2 8 0])) = Some (MICRO_SUCCESS, Some c') \<and>
     ca_count (sv_command_queue (sa_services (mc_service_array c') ! 1)) = 0"
proof -
  let ?c = "with_services [new_service 1 7 0, new_service 2 8 0]"
  let ?cmds = "\<lparr>ca_commands = [zero_command], ca_count = 1, ca_capacity = 1\<rparr>"
  note two = micro_wf_two [OF new_service_fields(6) new_service_fields(6), of 1 7 0 2 8 0]
  have f: "find_service 7 (mc_service_array ?c) = Some 0"
    using two by (intro find_serviceI) (auto simp del: One_nat_def)
  obtain s c' where b: "polycall_micro_batch_process 9 7 (Some ?cmds) (Some ?c) = Some (s, Some c')"
    using f by (simp add: polycall_micro_batch_process_def Let_def)
  from batch_fills_queue [OF two(1) f b] b two(4) show ?thesis by (auto simp del: One_nat_def)
qed

text \<open>
  Filtering in place computes what filtering a list does. The commands kept are those
  that satisfy the predicate, in their order, and the count is theirs; the array keeps its
  size.
\<close>

theorem filter_commands_filters:
  assumes "unat (ca_count a) \<le> length (ca_commands a)"
  shows "\<exists>b. polycall_micro_filter_commands (Some a) (Some p) = (MICRO_SUCCESS, Some b) \<and>
    queued b = filter p (queued a) \<and> unat (ca_count b) = length (filter p (queued a)) \<and>
    length (ca_commands b) = length (ca_commands a) \<and> ca_capacity b = ca_capacity a"
proof -
  obtain w cs where fl: "filter_loop p (unat (ca_count a)) 0 0 (ca_commands a) = (w, cs)"
    by (cases "filter_loop p (unat (ca_count a)) 0 0 (ca_commands a)")
  from filter_loop_spec [OF _ _ assms fl] have spec: "w = length (filter p (queued a))"
    "length cs = length (ca_commands a)" "take w cs = filter p (queued a)"
    by (simp_all add: queued_def) auto
  have "w \<le> length (queued a)" by (simp add: spec(1))
  also have "\<dots> \<le> unat (ca_count a)" by (simp add: queued_def)
  finally have "w \<le> unat (ca_count a)" .
  moreover have "unat (ca_count a) < 2 ^ 32" using unsigned_less [of "ca_count a"] by simp
  ultimately have "unat (of_nat w :: u32) = w" by (simp add: unat_of_nat)
  with spec(2,3) fl show ?thesis
    unfolding spec(1) [symmetric] by (simp add: polycall_micro_filter_commands_def queued_def [of "a\<lparr>ca_commands := _, ca_count := _\<rparr>"])
qed

theorem filter_commands_filters_witness:
  "\<exists>b. polycall_micro_filter_commands
      (Some \<lparr>ca_commands = [zero_command, zero_command\<lparr>cmd_id := 5\<rparr>, zero_command\<lparr>cmd_id := 6\<rparr>], ca_count = 3, ca_capacity = 3\<rparr>)
      (Some (\<lambda>cmd. cmd_id cmd > 4)) = (MICRO_SUCCESS, Some b) \<and> unat (ca_count b) = 2"
  using filter_commands_filters [of "\<lparr>ca_commands = [zero_command, zero_command\<lparr>cmd_id := 5\<rparr>, zero_command\<lparr>cmd_id := 6\<rparr>],
      ca_count = 3, ca_capacity = 3\<rparr>" "\<lambda>cmd. cmd_id cmd > 4"]
  by (auto simp: queued_def zero_command_def word_less_nat_alt)

text \<open>
  C13: garbage collection with distinct ids. Exactly the services last updated more than
  3600 seconds ago go; every other service stays in its slot unchanged, the count is the
  number that stayed, and the rest of the context keeps its value.
\<close>

theorem garbage_collection_exact:
  assumes "micro_wf c" "distinct_ids (mc_service_array c)"
  shows "\<exists>a'. polycall_micro_collect_garbage now (Some c) = (MICRO_SUCCESS, Some (c\<lparr>mc_service_array := a'\<rparr>)) \<and>
    active_slots (sa_active_mask a') = {i \<in> active_slots (sa_active_mask (mc_service_array c)).
       now - sv_last_update (sa_services (mc_service_array c) ! i) \<le> 3600} \<and>
    (\<forall>i \<in> active_slots (sa_active_mask a'). sa_services a' ! i = sa_services (mc_service_array c) ! i) \<and>
    unat (sa_count a') = card (active_slots (sa_active_mask a')) \<and> sa_last_gc a' = now"
proof -
  let ?c = "fold (collect_slot now) [0..<32] c"
  let ?a = "mc_service_array ?c"
  from collected_run [OF assms(2), of 32] have col: "collected now 32 (mc_service_array c) ?a"
    and frame: "?c = c\<lparr>mc_service_array := ?a\<rparr>" by simp_all
  obtain c' where c': "polycall_micro_collect_garbage now (Some c) = (MICRO_SUCCESS, Some c')" "micro_wf c'"
    using micro_wf_collect [OF assms(1)] by blast
  then have eq: "c' = ?c\<lparr>mc_service_array := ?a\<lparr>sa_last_gc := now\<rparr>\<rparr>"
    by (simp add: polycall_micro_collect_garbage_def Let_def)
  also have "\<dots> = c\<lparr>mc_service_array := ?a\<lparr>sa_last_gc := now\<rparr>\<rparr>" by (subst frame) simp
  finally have "c' = c\<lparr>mc_service_array := ?a\<lparr>sa_last_gc := now\<rparr>\<rparr>" .
  moreover from this c'(2) have "unat (sa_count ?a) = card (active_slots (sa_active_mask ?a))"
    by (simp add: micro_wf_def services_wf_def)
  ultimately show ?thesis
    using c'(1) col
    by (intro exI [of _ "?a\<lparr>sa_last_gc := now\<rparr>"]) (auto simp: collected_def expired_def not_less)
qed

theorem garbage_collection_exact_witness:
  "\<exists>a'. polycall_micro_collect_garbage 5000 (Some (with_services [new_service 1 7 0, new_service 4000 8 0])) =
      (MICRO_SUCCESS, Some ((with_services [new_service 1 7 0, new_service 4000 8 0])\<lparr>mc_service_array := a'\<rparr>)) \<and>
     active_slots (sa_active_mask a') = {1}"
proof -
  note two = micro_wf_two [OF new_service_fields(6) new_service_fields(6), of 1 7 0 4000 8 0]
  have d: "distinct_ids (mc_service_array (with_services [new_service 1 7 0, new_service 4000 8 0]))"
    using two(3,4) by (simp add: distinct_ids_def two(2) del: One_nat_def)
  have "{i \<in> {0, 1 :: nat}. 5000 - sv_last_update (sa_services (mc_service_array (with_services
      [new_service 1 7 0, new_service 4000 8 0])) ! i) \<le> 3600} = {1}"
    using two(3,4) by (auto simp: word_le_nat_alt simp del: One_nat_def)
  with garbage_collection_exact [OF two(1) d, of 5000] two(2) show ?thesis by auto
qed

text \<open>
  With two services of one id, collection removes the wrong one. If the service in the
  lower slot is the first of its id and a service of the same id in a higher slot has
  expired, the collection destroys the one in the lower slot, however recently it was
  updated.
\<close>

theorem garbage_collection_takes_namesake:
  assumes "i < j" "find_service k (mc_service_array c) = Some i"
    and "j \<in> active_slots (sa_active_mask (mc_service_array c))"
    and "sv_id (sa_services (mc_service_array c) ! j) = k"
    and "now - sv_last_update (sa_services (mc_service_array c) ! j) > 3600"
    and "polycall_micro_collect_garbage now (Some c) = (s, Some c')"
  shows "i \<notin> active_slots (sa_active_mask (mc_service_array c'))"
proof -
  let ?old = "sa_services (mc_service_array c) ! j"
  have j: "j < 32" using assms(3) by auto
  have "[0..<j + (32 - j)] = [0..<j] @ [j..<j + (32 - j)]" by (rule upt_add_eq_append) simp
  with j have split: "[0..<32] = [0..<j] @ j # [Suc j..<32]" by (simp add: upt_conv_Cons)
  let ?c1 = "fold (collect_slot now) [0..<j] c"
  have sh: "shadowed k i j ?old (mc_service_array ?c1)"
    using assms(1-4) by (intro shadowed_run) (auto simp: shadowed_def)
  have "i \<notin> active_slots (sa_active_mask (mc_service_array (collect_slot now j ?c1)))"
  proof (cases "i \<in> active_slots (sa_active_mask (mc_service_array ?c1))")
    case True
    with sh have "find_service k (mc_service_array ?c1) = Some i" "j \<in> active_slots (sa_active_mask (mc_service_array ?c1))"
      "sa_services (mc_service_array ?c1) ! j = ?old" by (auto simp: shadowed_def)
    with assms(4,5) True show ?thesis
      by (simp add: collect_slot_def Let_def polycall_micro_destroy_service_def destroyed_slots)
        (simp add: active_slots_def)
  qed (rule inactive_collect_slot)
  from inactive_run [OF this, of now "[Suc j..<32]"] assms(6) show ?thesis
    by (auto simp: polycall_micro_collect_garbage_def Let_def split)
qed

theorem garbage_collection_takes_namesake_witness:
  "\<exists>c'. polycall_micro_collect_garbage 5000 (Some (with_services [new_service 5000 7 0, new_service 1 7 0])) =
      (MICRO_SUCCESS, Some c') \<and> 0 \<notin> active_slots (sa_active_mask (mc_service_array c'))"
proof -
  let ?c = "with_services [new_service 5000 7 0, new_service 1 7 0]"
  note two = micro_wf_two [OF new_service_fields(6) new_service_fields(6), of 5000 7 0 1 7 0]
  have f: "find_service 7 (mc_service_array ?c) = Some 0"
    using two by (intro find_serviceI) (auto simp del: One_nat_def)
  obtain c' where g: "polycall_micro_collect_garbage 5000 (Some ?c) = (MICRO_SUCCESS, Some c')"
    using micro_wf_collect [OF two(1)] by blast
  from garbage_collection_takes_namesake [OF zero_less_one f _ _ _ g] two(2,4) g show ?thesis
    by (auto simp: word_less_nat_alt simp del: One_nat_def)
qed

end
