(* ===== verification/Config_Text.thy ===== *)
theory Config_Text
  imports Polycall_Prelude
begin

text \<open>
  The C library functions \<open>src/polycall_config.c\<close> reads text with (\<open>isspace\<close>, \<open>isalnum\<close>,
  \<open>strchr\<close>, \<open>strtoul\<close>, \<open>sscanf\<close> with \<open>%Ns\<close>, \<open>fgets\<close>), in the C locale, and the
  file's own \<open>trim\<close>, \<open>parse_positive_integer\<close> and \<open>parse_port_mapping\<close>. A C string is the
  list of its characters; \<open>unsigned long\<close> has 64 bits.
\<close>

section \<open>Characters and words\<close>

definition trim :: "string \<Rightarrow> string" where
  "trim text = rev (dropWhile is_space (rev (dropWhile is_space text)))"

text \<open>\<open>strchr(s, c)\<close>: what is before the first \<open>c\<close> and what is after it.\<close>

definition split_at :: "char \<Rightarrow> string \<Rightarrow> (string \<times> string) option" where
  "split_at c s = (if c \<in> set s then Some (takeWhile (\<lambda>x. x \<noteq> c) s, tl (dropWhile (\<lambda>x. x \<noteq> c) s)) else None)"

text \<open>\<open>%Ns\<close>: skip white space, then at most \<open>n\<close> other characters, at least one.\<close>

definition scan_word :: "nat \<Rightarrow> string \<Rightarrow> (string \<times> string) option" where
  "scan_word n s =
     (let t = dropWhile is_space s; w = take n (takeWhile (\<lambda>c. \<not> is_space c) t)
      in if w = [] then None else Some (w, drop (length w) t))"

text \<open>The words \<open>sscanf\<close> assigns for a format \<open>%N1s %N2s ...\<close>; it stops at the first failure.\<close>

fun scan_words :: "nat list \<Rightarrow> string \<Rightarrow> string list" where
  "scan_words [] s = []"
| "scan_words (n # ns) s = (case scan_word n s of None \<Rightarrow> [] | Some (w, r) \<Rightarrow> w # scan_words ns r)"

text \<open>A keyword followed by white space.\<close>

definition starts_directive :: "string \<Rightarrow> string \<Rightarrow> bool" where
  "starts_directive kw line \<longleftrightarrow>
     take (length kw) line = kw \<and> length kw < length line \<and> is_space (line ! length kw)"

section \<open>Numbers\<close>

text \<open>
  \<open>strtoul(s, &end, 10)\<close>: the value, what \<open>end\<close> points to, and whether \<open>errno\<close> is set.
  A minus sign negates the value as an \<open>unsigned long\<close>.
\<close>

definition strtoul10 :: "string \<Rightarrow> u64 \<times> string \<times> bool" where
  "strtoul10 s =
     (let t = dropWhile is_space s;
          (negative, u) = (case t of [] \<Rightarrow> (False, t)
             | c # r \<Rightarrow> if c = CHR ''-'' then (True, r) else if c = CHR ''+'' then (False, r) else (False, t));
          digits = takeWhile is_digit u; rest = dropWhile is_digit u; v = digits_value 0 digits
      in if digits = [] then (0, s, False)
         else if v \<ge> 2 ^ 64 then (2 ^ 64 - 1, rest, True)
         else (if negative then - of_nat v else of_nat v, rest, False))"

definition parse_positive_integer :: "string \<Rightarrow> u64 option" where
  "parse_positive_integer value =
     (if value = [] \<or> hd value = CHR ''-'' then None
      else case strtoul10 value of (parsed, rest, err) \<Rightarrow>
        if err \<or> rest \<noteq> [] \<or> parsed = 0 then None else Some parsed)"

definition parse_port_mapping :: "string \<Rightarrow> (u32 \<times> u32) option" where
  "parse_port_mapping value =
     (if length value \<ge> 64 then None
      else case split_at (CHR '':'') value of None \<Rightarrow> None | Some (left, right) \<Rightarrow>
        if CHR '':'' \<in> set right then None
        else case (parse_positive_integer left, parse_positive_integer right) of
          (Some host, Some target) \<Rightarrow>
            if host > 65535 \<or> target > 65535 then None else Some (ucast host, ucast target)
        | _ \<Rightarrow> None)"

section \<open>Reading lines\<close>

text \<open>
  \<open>fgets\<close> into a buffer of \<open>n + 1\<close> bytes from what is left of a file: up to \<open>n\<close> characters,
  to the first newline included. Returned are the characters read, the rest of the file,
  and whether the end of the file was met (\<open>feof\<close>). At the end of a file with nothing
  left, and when \<open>broken\<close> (a read error follows the last byte) and the end is met, it
  returns NULL.
\<close>

definition fgets :: "nat \<Rightarrow> bool \<Rightarrow> string \<Rightarrow> (string \<times> string \<times> bool) option" where
  "fgets n broken s =
     (let line = takeWhile (\<lambda>c. c \<noteq> CHR 0x0A) s;
          len = min n (if CHR 0x0A \<in> set s then Suc (length line) else length line);
          at_end = (CHR 0x0A \<notin> set (take len s) \<and> len < n)
      in if at_end \<and> (s = [] \<or> broken) then None else Some (take len s, drop len s, at_end))"

lemma fgets_progress: "fgets n broken s = Some (chunk, rest, at_end) \<Longrightarrow> 0 < n \<Longrightarrow> length rest < length s"
  by (cases s) (auto simp: fgets_def Let_def split: if_splits)

section \<open>Trimming\<close>

lemma in_dropWhile: "x \<in> set (dropWhile P s) \<Longrightarrow> x \<in> set s"
  by (metis Un_iff set_append takeWhile_dropWhile_id)

lemma set_trim: "set (trim s) \<subseteq> set s"
  unfolding trim_def by (metis in_dropWhile set_rev subsetI)

lemma in_trim: "c \<in> set (trim s) \<Longrightarrow> c \<in> set s"
  using set_trim by blast

lemma dropWhile_id: "(s = [] \<or> \<not> P (hd s)) \<Longrightarrow> dropWhile P s = s"
  by (cases s) auto

lemma trim_fixed: "trim s = s \<longleftrightarrow> s = [] \<or> \<not> is_space (hd s) \<and> \<not> is_space (last s)"
proof
  assume t: "trim s = s"
  show "s = [] \<or> \<not> is_space (hd s) \<and> \<not> is_space (last s)"
  proof (cases "s = []")
    case False
    let ?u = "dropWhile is_space s"
    have len: "length (trim s) \<le> length ?u"
      using length_dropWhile_le [of is_space "rev ?u"] by (simp add: trim_def)
    with t have "length s \<le> length ?u" by simp
    with length_dropWhile_le [of is_space s] have "length ?u = length s" by simp
    then have u: "?u = s" by (metis append_eq_append_conv takeWhile_dropWhile_id append_Nil)
    with False have hd: "\<not> is_space (hd s)" by (metis hd_dropWhile)
    from t u have "dropWhile is_space (rev s) = rev s" by (simp add: trim_def) (metis rev_rev_ident)
    with False have "\<not> is_space (hd (rev s))" by (metis hd_dropWhile rev_is_Nil_conv)
    with False hd show ?thesis by (simp add: hd_rev)
  qed simp
next
  assume "s = [] \<or> \<not> is_space (hd s) \<and> \<not> is_space (last s)"
  then show "trim s = s" by (cases "s = []") (simp_all add: trim_def dropWhile_id hd_rev)
qed

lemma trim_trim [simp]: "trim (trim s) = trim s"
proof (cases "trim s = []")
  case False
  let ?u = "dropWhile is_space s"
  from False have u: "?u \<noteq> []" "dropWhile is_space (rev ?u) \<noteq> []"
    by (metis dropWhile.simps(1) rev.simps(1) trim_def)+
  have "\<not> is_space (last (trim s))"
    using u by (simp add: trim_def last_rev hd_dropWhile)
  moreover have "hd (trim s) = hd ?u"
  proof -
    obtain w where "rev ?u = w @ dropWhile is_space (rev ?u)" by (metis takeWhile_dropWhile_id)
    then have "?u = trim s @ rev w" by (metis rev_append rev_rev_ident trim_def)
    with False show ?thesis by (metis hd_append2)
  qed
  ultimately show ?thesis using u by (simp add: trim_fixed hd_dropWhile)
qed (simp add: trim_fixed)

lemma trim_append_space: "\<forall>c \<in> set w. is_space c \<Longrightarrow> trim (s @ w) = trim s"
proof (cases "\<forall>c \<in> set s. is_space c")
  case True
  assume "\<forall>c \<in> set w. is_space c"
  with True have "dropWhile is_space (s @ w) = []" "dropWhile is_space s = []"
    unfolding dropWhile_eq_Nil_conv by auto
  then show ?thesis by (simp only: trim_def rev.simps dropWhile.simps)
next
  case False
  assume w: "\<forall>c \<in> set w. is_space c"
  from False have "dropWhile is_space (s @ w) = dropWhile is_space s @ w" by (auto simp: dropWhile_append)
  then show ?thesis using w by (simp add: trim_def dropWhile_append)
qed

text \<open>A trimmed prefix loses only white space at its end.\<close>

lemma trim_prefix:
  assumes "trim (s @ t) = s @ t" "trim s \<noteq> []"
  shows "\<exists>w. s = trim s @ w \<and> (\<forall>c \<in> set w. is_space c)"
proof -
  have "s \<noteq> []" using assms(2) by (auto simp: trim_def)
  with assms(1) have "\<not> is_space (hd s)" by (auto simp: trim_fixed)
  then have "dropWhile is_space s = s" by (simp add: dropWhile_id)
  then have eq: "trim s = rev (dropWhile is_space (rev s))" by (simp add: trim_def)
  have "rev s = takeWhile is_space (rev s) @ dropWhile is_space (rev s)" by simp
  then have "s = trim s @ rev (takeWhile is_space (rev s))" by (metis eq rev_append rev_rev_ident)
  then show ?thesis by (metis set_rev set_takeWhileD)
qed

lemma is_digit_neq:
  "is_digit c \<Longrightarrow> c \<noteq> CHR '':''" "is_digit c \<Longrightarrow> c \<noteq> CHR ''-''" "is_digit c \<Longrightarrow> c \<noteq> CHR ''+''"
  "is_digit c \<Longrightarrow> c \<noteq> CHR ''#''" "is_digit c \<Longrightarrow> c \<noteq> CHR 0x0A" "is_digit c \<Longrightarrow> c \<noteq> CHR ''=''"
  by (auto simp: is_digit_def)

section \<open>Numbers and port mappings\<close>

lemma strtoul_show_nat:
  "n < 2 ^ 64 \<Longrightarrow> strtoul10 (show_nat n) = (of_nat n, [], False)"
proof -
  assume n: "n < 2 ^ 64"
  have d: "\<forall>c \<in> set (show_nat n). is_digit c" by (rule show_nat_digits)
  obtain c r where cr: "show_nat n = c # r" by (cases "show_nat n") auto
  with d have c: "is_digit c" by simp
  have "dropWhile is_space (show_nat n) = show_nat n"
    using c cr by (simp add: is_digit_not_space)
  moreover have "takeWhile is_digit (show_nat n) = show_nat n" "dropWhile is_digit (show_nat n) = []"
    using d unfolding takeWhile_eq_all_conv dropWhile_eq_Nil_conv by auto
  moreover have "(case show_nat n of [] \<Rightarrow> (False, show_nat n)
      | x # r \<Rightarrow> if x = CHR ''-'' then (True, r) else if x = CHR ''+'' then (False, r) else (False, show_nat n)) =
      (False, show_nat n)"
    using c by (simp add: cr is_digit_neq)
  ultimately show ?thesis
    using n by (simp only: strtoul10_def Let_def case_prod_conv digits_value_show_nat show_nat_not_Nil if_False) simp
qed

lemma parse_positive_show_nat:
  assumes "0 < n" "n < 2 ^ 64"
  shows "parse_positive_integer (show_nat n) = Some (of_nat n)"
proof -
  have "hd (show_nat n) \<in> set (show_nat n)" by (simp add: hd_in_set)
  with show_nat_digits [of n] have "hd (show_nat n) \<noteq> CHR ''-''" using is_digit_neq(2) by blast
  moreover have "(of_nat n :: u64) \<noteq> 0"
    using assms by (simp add: word_unat_eq_iff unat_of_nat take_bit_nat_eq_self)
  ultimately show ?thesis
    using strtoul_show_nat [OF assms(2)] by (simp add: parse_positive_integer_def)
qed

lemma parse_positive_pos: "parse_positive_integer s = Some n \<Longrightarrow> 0 < n"
  by (auto simp: parse_positive_integer_def word_neq_0_conv split: if_splits prod.splits)

lemma unat_ucast_small: "(w :: u64) \<le> 65535 \<Longrightarrow> unat (ucast w :: u32) = unat w"
  by (simp add: unsigned_ucast_eq word_le_nat_alt take_bit_nat_eq_self)

lemma port_mapping_range:
  assumes "parse_port_mapping s = Some (host, target)"
  shows "0 < host \<and> host \<le> 65535 \<and> 0 < target \<and> target \<le> 65535"
proof -
  obtain l r h t where "parse_positive_integer l = Some h" "parse_positive_integer r = Some t"
    and ht: "h \<le> 65535" "t \<le> 65535" "host = ucast h" "target = ucast t"
    using assms by (auto simp: parse_port_mapping_def not_less split: if_splits option.splits)
  moreover from this have "0 < h" "0 < t" by (simp_all add: parse_positive_pos)
  ultimately show ?thesis
    by (simp add: word_less_nat_alt word_le_nat_alt unat_ucast_small)
qed

lemma split_at_append: "c \<notin> set l \<Longrightarrow> split_at c (l @ c # r) = Some (l, r)"
  by (simp add: split_at_def takeWhile_append dropWhile_append)

lemma split_at_Some:
  "split_at c s = Some (l, r) \<longleftrightarrow> s = l @ c # r \<and> c \<notin> set l"
proof
  assume "split_at c s = Some (l, r)"
  then have c: "c \<in> set s" and l: "l = takeWhile (\<lambda>x. x \<noteq> c) s" and r: "r = tl (dropWhile (\<lambda>x. x \<noteq> c) s)"
    by (auto simp: split_at_def split: if_splits)
  from c have "dropWhile (\<lambda>x. x \<noteq> c) s \<noteq> []" by (simp add: dropWhile_eq_Nil_conv)
  moreover from this have "hd (dropWhile (\<lambda>x. x \<noteq> c) s) = c" using hd_dropWhile by blast
  ultimately have "dropWhile (\<lambda>x. x \<noteq> c) s = c # r" by (metis list.collapse r)
  then show "s = l @ c # r \<and> c \<notin> set l" by (metis l set_takeWhileD takeWhile_dropWhile_id)
qed (simp add: split_at_append)

lemma show_port_length: "p \<le> 65535 \<Longrightarrow> length (show_nat (unat (p :: u32))) \<le> 5"
  by (rule show_nat_length) (simp_all add: word_le_nat_alt)

lemma port_mapping_roundtrip:
  assumes "0 < host" "host \<le> 65535" "0 < target" "target \<le> 65535"
  shows "parse_port_mapping (show_nat (unat host) @ '':'' @ show_nat (unat target)) = Some (host, target)"
proof -
  have no: "CHR '':'' \<notin> set (show_nat n)" for n
    using show_nat_digits [of n] is_digit_neq(1) by blast
  have u: "unat host \<le> 65535" "unat target \<le> 65535" "0 < unat host" "0 < unat target"
    using assms by (simp_all add: word_le_nat_alt word_less_nat_alt)
  then have p: "parse_positive_integer (show_nat (unat host)) = Some (of_nat (unat host))"
    "parse_positive_integer (show_nat (unat target)) = Some (of_nat (unat target))"
    by (simp_all add: parse_positive_show_nat)
  have small: "\<not> (of_nat n :: u64) > 65535" "ucast (of_nat n :: u64) = (of_nat n :: u32)" if "n \<le> 65535" for n
    using that by (simp_all add: not_less word_le_nat_alt unat_of_nat unsigned_of_nat take_bit_nat_eq_self)
  have len: "length (show_nat (unat host) @ '':'' @ show_nat (unat target)) < 64"
    using show_port_length [OF assms(2)] show_port_length [OF assms(4)] by simp
  show ?thesis
    using len p small [OF u(1)] small [OF u(2)]
    by (simp add: parse_port_mapping_def split_at_append no)
qed

end
