(* ===== verification/Config_File.thy ===== *)
theory Config_File
  imports Config_Text
begin

text \<open>
  The configuration of \<open>src/polycall_config.c\<close> and the parser of one file. The arrays with
  their counts are lists of the entries in use; \<open>stderr\<close> is the value of type
  \<open>config_problem\<close> a failure returns, with the path and the line where the code prints
  them. A file is its bytes, whether the program may open it for reading, and whether
  reading it ends in an error. A path names a file of its own: there are no links.
\<close>

section \<open>Data\<close>

definition CONFIG_MAX_SERVERS :: nat where [simp]: "CONFIG_MAX_SERVERS = 32"
definition CONFIG_MAX_VALUES :: nat where [simp]: "CONFIG_MAX_VALUES = 128"
definition CONFIG_KEY_SIZE :: nat where [simp]: "CONFIG_KEY_SIZE = 64"
definition CONFIG_VALUE_SIZE :: nat where [simp]: "CONFIG_VALUE_SIZE = 256"
definition CONFIG_LINE_SIZE :: nat where [simp]: "CONFIG_LINE_SIZE = 1024"

datatype config_layer = LAYER_PROJECT | LAYER_RUNTIME | LAYER_LANGUAGE

record config_server =
  srv_language :: string
  srv_host_port :: u32
  srv_target_port :: u32

record config_value =
  cv_key :: string
  cv_value :: string

record config =
  cf_servers :: "config_server list"
  cf_values :: "config_value list"
  cf_network_enabled :: bool
  cf_network_seen :: bool
  cf_warnings :: u32

definition empty_config :: config where
  "empty_config = \<lparr>cf_servers = [], cf_values = [], cf_network_enabled = False,
     cf_network_seen = False, cf_warnings = 0\<rparr>"

datatype config_problem =
    LineTooLong
  | InvalidPortMapping string
  | NotBoolean string
  | NotPositiveInteger string
  | MetricsPortRange
  | InvalidServerLanguage
  | InvalidServerMapping string
  | DuplicateServer string
  | TooManyServers
  | ServerOutsideProject
  | ExpectedServer
  | ExpectedNetwork
  | MalformedEntry
  | TooManyValues
  | MalformedSyntax

datatype file_error =
    CannotOpen string
  | ReadFailed string
  | AtLine string nat config_problem

record stored_file =
  fl_content :: string
  fl_broken :: bool
  fl_readable :: bool

type_synonym file_system = "string \<Rightarrow> stored_file option"

text \<open>\<open>fopen(path, "rb")\<close>: a file that is not there or may not be read cannot be opened.\<close>

definition fopen_read :: "file_system \<Rightarrow> string \<Rightarrow> stored_file option" where
  "fopen_read fs path =
     (case fs path of None \<Rightarrow> None | Some f \<Rightarrow> if fl_readable f then Some f else None)"

definition PROJECT_KEYS :: "string list" where
  "PROJECT_KEYS = [''network_timeout'', ''max_connections'', ''log_directory'', ''workspace_root'',
     ''auto_discover'', ''discovery_interval'', ''tls_enabled'', ''cert_file'', ''key_file'',
     ''max_memory_per_service'', ''max_cpu_per_service'', ''enable_metrics'', ''metrics_port'']"

definition RUNTIME_KEYS :: "string list" where
  "RUNTIME_KEYS = [''port'', ''server_type'', ''workspace'', ''log_level'', ''max_connections'',
     ''supports_diagnostics'', ''supports_completion'', ''supports_formatting'', ''max_memory'',
     ''timeout'', ''allow_remote'', ''require_auth'', ''network_timeout'', ''log_directory'',
     ''workspace_root'', ''auto_discover'', ''discovery_interval'', ''tls_enabled'', ''cert_file'',
     ''key_file'', ''max_memory_per_service'', ''max_cpu_per_service'', ''enable_metrics'', ''metrics_port'']"

definition BOOLEAN_KEYS :: "string list" where
  "BOOLEAN_KEYS = [''auto_discover'', ''tls_enabled'', ''enable_metrics'', ''supports_diagnostics'',
     ''supports_completion'', ''supports_formatting'', ''allow_remote'', ''require_auth'']"

definition POSITIVE_INTEGER_KEYS :: "string list" where
  "POSITIVE_INTEGER_KEYS = [''network_timeout'', ''max_connections'', ''discovery_interval'',
     ''max_cpu_per_service'', ''metrics_port'', ''timeout'']"

text \<open>What the code takes for existing is what it can open for reading.\<close>

definition file_exists :: "file_system \<Rightarrow> string \<Rightarrow> bool" where
  "file_exists fs path \<longleftrightarrow> fopen_read fs path \<noteq> None"

definition string_in_list :: "string \<Rightarrow> string list \<Rightarrow> bool" where
  "string_in_list value values \<longleftrightarrow> List.member values value"

definition is_known_key :: "string \<Rightarrow> config_layer \<Rightarrow> bool" where
  "is_known_key key layer =
     (if layer = LAYER_PROJECT then string_in_list key PROJECT_KEYS else string_in_list key RUNTIME_KEYS)"

section \<open>Values\<close>

definition config_get :: "config \<Rightarrow> string \<Rightarrow> string option" where
  "config_get c key = map_option cv_value (List.find (\<lambda>v. cv_key v = key) (cf_values c))"

text \<open>The first entry of that key gets the value; without one, a new entry if there is room.\<close>

fun set_value :: "string \<Rightarrow> string \<Rightarrow> config_value list \<Rightarrow> config_value list option" where
  "set_value key value [] = None"
| "set_value key value (v # vs) =
     (if cv_key v = key then Some (v\<lparr>cv_value := snprintf_s CONFIG_VALUE_SIZE value\<rparr> # vs)
      else map_option (Cons v) (set_value key value vs))"

definition config_set :: "config \<Rightarrow> string \<Rightarrow> string \<Rightarrow> config option" where
  "config_set c key value =
     (case set_value key value (cf_values c) of
        Some vs \<Rightarrow> Some (c\<lparr>cf_values := vs\<rparr>)
      | None \<Rightarrow>
          if length (cf_values c) \<ge> CONFIG_MAX_VALUES then None
          else Some (c\<lparr>cf_values := cf_values c @
                 [\<lparr>cv_key = snprintf_s CONFIG_KEY_SIZE key, cv_value = snprintf_s CONFIG_VALUE_SIZE value\<rparr>]\<rparr>))"

text \<open>The first problem of a value, if any.\<close>

definition validate_value :: "string \<Rightarrow> string \<Rightarrow> config_problem option" where
  "validate_value key value =
     (if key = ''port'' \<and> parse_port_mapping value = None then Some (InvalidPortMapping value)
      else if string_in_list key BOOLEAN_KEYS \<and> value \<noteq> ''true'' \<and> value \<noteq> ''false''
      then Some (NotBoolean key)
      else if string_in_list key POSITIVE_INTEGER_KEYS \<and> parse_positive_integer value = None
      then Some (NotPositiveInteger key)
      else if key = ''metrics_port'' \<and>
         (case parse_positive_integer value of None \<Rightarrow> True | Some number \<Rightarrow> number > 65535)
      then Some MetricsPortRange
      else None)"

section \<open>The three kinds of lines\<close>

definition add_server :: "string \<Rightarrow> string \<Rightarrow> config \<Rightarrow> config_problem + config" where
  "add_server language mapping c =
     (if language = [] \<or> length language \<ge> 32 then Inl InvalidServerLanguage
      else case parse_port_mapping mapping of None \<Rightarrow> Inl (InvalidServerMapping mapping)
      | Some (host_port, target_port) \<Rightarrow>
        if list_ex (\<lambda>s. srv_language s = language) (cf_servers c) then Inl (DuplicateServer language)
        else if length (cf_servers c) \<ge> CONFIG_MAX_SERVERS then Inl TooManyServers
        else Inr (c\<lparr>cf_servers := cf_servers c @
          [\<lparr>srv_language = snprintf_s 32 language, srv_host_port = host_port, srv_target_port = target_port\<rparr>]\<rparr>))"

definition server_line :: "config_layer \<Rightarrow> string \<Rightarrow> config \<Rightarrow> config_problem + config" where
  "server_line layer line c =
     (if layer \<noteq> LAYER_PROJECT then Inl ServerOutsideProject
      else case scan_words [31, 63, 1] (drop 6 line) of
        [language, mapping] \<Rightarrow> add_server language mapping c
      | _ \<Rightarrow> Inl ExpectedServer)"

definition network_line :: "config_layer \<Rightarrow> string \<Rightarrow> config \<Rightarrow> config_problem + config" where
  "network_line layer line c =
     (if layer \<noteq> LAYER_PROJECT then Inl ExpectedNetwork
      else case scan_words [15, 1] (drop 7 line) of
        [action] \<Rightarrow>
          if action = ''start'' \<or> action = ''stop''
          then Inr (c\<lparr>cf_network_enabled := (action = ''start''), cf_network_seen := True\<rparr>)
          else Inl ExpectedNetwork
      | _ \<Rightarrow> Inl ExpectedNetwork)"

definition store_entry :: "config_layer \<Rightarrow> string \<Rightarrow> string \<Rightarrow> config \<Rightarrow> config_problem + config" where
  "store_entry layer key value c =
     (if key = [] \<or> value = [] \<or> length key \<ge> CONFIG_KEY_SIZE \<or> length value \<ge> CONFIG_VALUE_SIZE
      then Inl MalformedEntry
      else
        let c1 = (if is_known_key key layer then c else c\<lparr>cf_warnings := cf_warnings c + 1\<rparr>)
        in case validate_value key value of
             Some problem \<Rightarrow> Inl problem
           | None \<Rightarrow> (case config_set c1 key value of None \<Rightarrow> Inl TooManyValues | Some c2 \<Rightarrow> Inr c2))"

definition entry_line :: "config_layer \<Rightarrow> string \<Rightarrow> string \<Rightarrow> config \<Rightarrow> config_problem + config" where
  "entry_line layer left right c =
     (if CHR ''='' \<in> set right then Inl MalformedEntry
      else store_entry layer (trim left) (trim right) c)"

section \<open>Files\<close>

text \<open>The line without its comment and the white space around it.\<close>

definition line_text :: "string \<Rightarrow> string" where
  "line_text raw_line = trim (takeWhile (\<lambda>c. c \<noteq> CHR ''#'') raw_line)"

definition parse_line :: "config_layer \<Rightarrow> string \<Rightarrow> config \<Rightarrow> config_problem + config" where
  "parse_line layer raw_line c =
     (let line = line_text raw_line in
      if line = [] then Inr c
      else if starts_directive ''server'' line then server_line layer line c
      else if starts_directive ''network'' line then network_line layer line c
      else case split_at (CHR ''='') line of
        Some (left, right) \<Rightarrow> entry_line layer left right c
      | None \<Rightarrow> Inl MalformedSyntax)"

text \<open>
  The loop over the file. A line the buffer cannot hold is refused; the buffer is read as a
  C string, up to its first NUL.
\<close>

function parse_lines :: "string \<Rightarrow> config_layer \<Rightarrow> bool \<Rightarrow> nat \<Rightarrow> string \<Rightarrow> config \<Rightarrow> file_error + config" where
  "parse_lines path layer broken line_number s c =
     (case fgets (CONFIG_LINE_SIZE - 1) broken s of
        None \<Rightarrow> if broken then Inl (ReadFailed path) else Inr c
      | Some (chunk, rest, at_end) \<Rightarrow>
          if CHR 0x0A \<notin> set (cstr chunk) \<and> \<not> at_end
          then Inl (AtLine path (line_number + 1) LineTooLong)
          else case parse_line layer (cstr chunk) c of
            Inl problem \<Rightarrow> Inl (AtLine path (line_number + 1) problem)
          | Inr c1 \<Rightarrow> parse_lines path layer broken (line_number + 1) rest c1)"
  by pat_completeness auto

termination
  by (relation "measure (\<lambda>(_, _, _, _, s, _). length s)") (auto dest!: fgets_progress)

declare parse_lines.simps [simp del]

definition parse_config_file :: "file_system \<Rightarrow> string \<Rightarrow> config_layer \<Rightarrow> config \<Rightarrow> file_error + config" where
  "parse_config_file fs path layer c =
     (case fopen_read fs path of None \<Rightarrow> Inl (CannotOpen path)
      | Some f \<Rightarrow> parse_lines path layer (fl_broken f) 0 (fl_content f) c)"

end
