(* ===== verification/Config_Load.thy ===== *)
theory Config_Load
  imports Config_File
begin

text \<open>
  What \<open>src/polycall_config.c\<close> does with configuration files: the hierarchy of project,
  runtime and language files, validation, migration and the \<open>polycall config\<close> commands. A
  command returns its exit status and what it prints to \<open>stdout\<close>; failures print to
  \<open>stderr\<close> what \<open>load_error\<close> says.
\<close>

section \<open>Required fields\<close>

datatype missing_field =
    MissingField string
  | ServerTypeMismatch string string

definition require_field :: "config \<Rightarrow> string \<Rightarrow> missing_field list" where
  "require_field c key = (if config_get c key = None then [MissingField key] else [])"

text \<open>Every problem is reported; the configuration is valid if there is none.\<close>

definition validate_required :: "config \<Rightarrow> bool \<Rightarrow> string option \<Rightarrow> missing_field list" where
  "validate_required c require_project_fields language =
     (if require_project_fields then require_field c ''workspace_root'' @ require_field c ''log_directory'' else []) @
     (if config_get c ''tls_enabled'' = Some ''true''
      then require_field c ''cert_file'' @ require_field c ''key_file'' else []) @
     (case language of None \<Rightarrow> [] | Some lang \<Rightarrow>
        require_field c ''workspace'' @
        (case config_get c ''server_type'' of
           None \<Rightarrow> [MissingField ''server_type'']
         | Some server_type \<Rightarrow> if server_type \<noteq> lang then [ServerTypeMismatch server_type lang] else []))"

definition valid_language :: "string option \<Rightarrow> bool" where
  "valid_language language =
     (case language of None \<Rightarrow> False
      | Some l \<Rightarrow> l \<noteq> [] \<and> list_all (\<lambda>c. is_alnum c \<or> c = CHR ''-'' \<or> c = CHR ''_'') l)"

section \<open>The hierarchy\<close>

record loaded_sources =
  ls_paths :: "string list"
  ls_used_legacy :: bool

datatype load_error =
    MissingProject
  | InFile file_error
  | InvalidLanguage string
  | MissingOverride string
  | TooManySources
  | RequiredMissing "missing_field list"

definition record_source :: "loaded_sources \<Rightarrow> string \<Rightarrow> loaded_sources option" where
  "record_source sources path =
     (if length (ls_paths sources) \<ge> 3 then None
      else Some (sources\<lparr>ls_paths := ls_paths sources @ [snprintf_s 512 path]\<rparr>))"

text \<open>Parse a file into the configuration and record it.\<close>

definition load_file :: "file_system \<Rightarrow> string \<Rightarrow> config_layer \<Rightarrow> config \<times> loaded_sources
    \<Rightarrow> load_error + config \<times> loaded_sources" where
  "load_file fs path layer = (\<lambda>(c, sources).
     case parse_config_file fs path layer c of
       Inl e \<Rightarrow> Inl (InFile e)
     | Inr c1 \<Rightarrow> (case record_source sources path of None \<Rightarrow> Inl TooManySources | Some s1 \<Rightarrow> Inr (c1, s1)))"

definition language_path :: "string \<Rightarrow> string" where
  "language_path language = snprintf_s 512 (''Polycallrc.'' @ language)"

definition load_language :: "file_system \<Rightarrow> string \<Rightarrow> config \<times> loaded_sources
    \<Rightarrow> load_error + config \<times> loaded_sources" where
  "load_language fs language st =
     (if \<not> valid_language (Some language) then Inl (InvalidLanguage language)
      else if file_exists fs (language_path language)
      then load_file fs (language_path language) LAYER_LANGUAGE st
      else if file_exists fs ''.polycallrc''
      then (case load_file fs ''.polycallrc'' LAYER_LANGUAGE st of
              Inl e \<Rightarrow> Inl e
            | Inr (c, sources) \<Rightarrow> Inr (c, sources\<lparr>ls_used_legacy := True\<rparr>))
      else Inl (MissingOverride (language_path language)))"

definition load_hierarchy :: "file_system \<Rightarrow> string option \<Rightarrow> load_error + config \<times> loaded_sources" where
  "load_hierarchy fs language =
     (if \<not> file_exists fs ''Polycallfile'' then Inl MissingProject
      else case load_file fs ''Polycallfile'' LAYER_PROJECT
             (empty_config, \<lparr>ls_paths = [], ls_used_legacy = False\<rparr>) of Inl e \<Rightarrow> Inl e | Inr st1 \<Rightarrow>
      case (if file_exists fs ''Polycallrc'' then load_file fs ''Polycallrc'' LAYER_RUNTIME st1
            else Inr st1) of Inl e \<Rightarrow> Inl e | Inr st2 \<Rightarrow>
      case (case language of None \<Rightarrow> Inr st2 | Some l \<Rightarrow> load_language fs l st2) of
        Inl e \<Rightarrow> Inl e
      | Inr (c, sources) \<Rightarrow>
          if validate_required c True language = [] then Inr (c, sources)
          else Inl (RequiredMissing (validate_required c True language)))"

section \<open>Showing a configuration\<close>

definition show_server :: "config_server \<Rightarrow> string" where
  "show_server s = ''server '' @ srv_language s @ '' '' @ show_nat (unat (srv_host_port s)) @ '':'' @
     show_nat (unat (srv_target_port s)) @ [CHR 0x0A]"

definition show_value :: "config_value \<Rightarrow> string" where
  "show_value v = cv_key v @ ''='' @ cv_value v @ [CHR 0x0A]"

definition show_config :: "config \<Rightarrow> string" where
  "show_config c = concat (map show_server (cf_servers c)) @
     (if cf_network_seen c then ''network '' @ (if cf_network_enabled c then ''start'' else ''stop'') @ [CHR 0x0A]
      else []) @
     concat (map show_value (cf_values c))"

section \<open>Commands\<close>

text \<open>The last component of a path with either separator.\<close>

definition base_name :: "string \<Rightarrow> string" where
  "base_name path = rev (takeWhile (\<lambda>c. c \<noteq> CHR ''/'' \<and> c \<noteq> CHR 0x5C) (rev path))"

definition infer_layer :: "string \<Rightarrow> config_layer \<times> string option" where
  "infer_layer path =
     (let name = base_name path in
      if name = ''Polycallfile'' then (LAYER_PROJECT, None)
      else if take 11 name = ''Polycallrc.'' \<and> 11 < length name then (LAYER_LANGUAGE, Some (drop 11 name))
      else if name = ''.polycallrc'' then (LAYER_LANGUAGE, None)
      else (LAYER_RUNTIME, None))"

text \<open>Exit status, standard output and the reason of a failure.\<close>

type_synonym command_result = "int \<times> string \<times> load_error option"

definition warning_suffix :: "config \<Rightarrow> string" where
  "warning_suffix c = (if cf_warnings c \<noteq> 0
     then '' with '' @ show_nat (unat (cf_warnings c)) @ '' warning(s)'' else [])"

definition validate_one :: "file_system \<Rightarrow> string \<Rightarrow> command_result" where
  "validate_one fs path =
     (case infer_layer path of (layer, language) \<Rightarrow>
      case parse_config_file fs path layer empty_config of
        Inl e \<Rightarrow> (1, [], Some (InFile e))
      | Inr c \<Rightarrow>
          if validate_required c (layer = LAYER_PROJECT) language \<noteq> []
          then (1, [], Some (RequiredMissing (validate_required c (layer = LAYER_PROJECT) language)))
          else (0, path @ '' is valid'' @ warning_suffix c @ [CHR 0x0A], None))"

fun numbered :: "nat \<Rightarrow> string list \<Rightarrow> string" where
  "numbered i [] = []"
| "numbered i (p # ps) = show_nat i @ ''. '' @ p @ [CHR 0x0A] @ numbered (i + 1) ps"

definition load_and_report :: "file_system \<Rightarrow> string option \<Rightarrow> bool \<Rightarrow> command_result" where
  "load_and_report fs language shown =
     (case load_hierarchy fs language of
        Inl e \<Rightarrow> (1, [], Some e)
      | Inr (c, sources) \<Rightarrow>
          if shown then (0, show_config c, None)
          else (0, ''Loaded configuration in order:'' @ [CHR 0x0A] @ numbered 1 (ls_paths sources) @
                   ''Configuration is valid'' @ warning_suffix c @ [CHR 0x0A], None))"

definition show_rc :: "file_system \<Rightarrow> string option \<Rightarrow> bool \<Rightarrow> command_result" where
  "show_rc fs language validate_only =
     (if \<not> valid_language language then (1, [], Some (InvalidLanguage (case language of None \<Rightarrow> [] | Some l \<Rightarrow> l)))
      else
        let lang = the language; path = language_path lang in
        if \<not> file_exists fs path \<and> \<not> file_exists fs ''.polycallrc'' then (1, [], Some (MissingOverride path))
        else
          let selected_path = (if file_exists fs path then path else ''.polycallrc'') in
          case parse_config_file fs selected_path LAYER_LANGUAGE empty_config of
            Inl e \<Rightarrow> (1, [], Some (InFile e))
          | Inr c \<Rightarrow>
              if validate_required c False language \<noteq> []
              then (1, [], Some (RequiredMissing (validate_required c False language)))
              else if validate_only
              then (0, selected_path @ '' is valid for '' @ lang @ [CHR 0x0A], None)
              else (0, show_config c, None))"

text \<open>
  What the operating system does with the destination of a migration: whether it can be
  opened for writing, whether the write of the \<open>n\<close>-th block succeeds and whether closing
  does, whether it can be removed again, what is in it if not, and whether a new file may
  be read.
\<close>

record output_device =
  od_creatable :: "string \<Rightarrow> bool"
  od_fwrite :: "string \<Rightarrow> nat \<Rightarrow> bool"
  od_fclose :: "string \<Rightarrow> bool"
  od_remove :: "string \<Rightarrow> bool"
  od_leftover :: "string \<Rightarrow> string"
  od_readable :: "string \<Rightarrow> bool"

text \<open>
  A file opened for writing: one that was there loses its contents and keeps its
  permissions.
\<close>

definition fopen_write :: "output_device \<Rightarrow> file_system \<Rightarrow> string \<Rightarrow> string \<Rightarrow> stored_file" where
  "fopen_write dev fs path content =
     \<lparr>fl_content = content, fl_broken = False,
      fl_readable = (case fs path of None \<Rightarrow> od_readable dev path | Some f \<Rightarrow> fl_readable f)\<rparr>"

text \<open>\<open>remove\<close> after a failure, its result ignored.\<close>

definition remove_output :: "output_device \<Rightarrow> file_system \<Rightarrow> string \<Rightarrow> file_system" where
  "remove_output dev fs path =
     (if od_remove dev path then fs(path := None)
      else fs(path \<mapsto> fopen_write dev fs path (od_leftover dev path)))"

text \<open>The copy loop; \<open>None\<close> when a write fails.\<close>

function copy_blocks :: "(nat \<Rightarrow> bool) \<Rightarrow> nat \<Rightarrow> string \<Rightarrow> string \<Rightarrow> string option" where
  "copy_blocks fwrite n input output =
     (if input = [] then Some output
      else if fwrite n then copy_blocks fwrite (n + 1) (drop 4096 input) (output @ take 4096 input)
      else None)"
  by pat_completeness auto

termination by (relation "measure (\<lambda>(_, _, input, _). length input)") auto

declare copy_blocks.simps [simp del]

definition migrate_config :: "output_device \<Rightarrow> string \<Rightarrow> string \<Rightarrow> file_system \<Rightarrow> int \<times> string \<times> file_system" where
  "migrate_config dev source destination fs =
     (if file_exists fs destination then (1, [], fs)
      else case infer_layer destination of (layer, language) \<Rightarrow>
        if layer \<noteq> LAYER_LANGUAGE \<or> language = None \<or> \<not> valid_language language then (1, [], fs)
        else case parse_config_file fs source LAYER_LANGUAGE empty_config of Inl e \<Rightarrow> (1, [], fs) | Inr c \<Rightarrow>
          if validate_required c False language \<noteq> [] then (1, [], fs)
          else case fopen_read fs source of None \<Rightarrow> (1, [], fs) | Some input \<Rightarrow>
            if \<not> od_creatable dev destination then (1, [], fs)
            else case copy_blocks (od_fwrite dev destination) 0 (fl_content input) [] of
              None \<Rightarrow> (1, [], remove_output dev fs destination)
            | Some output \<Rightarrow>
                if fl_broken input \<or> \<not> od_fclose dev destination
                then (1, [], remove_output dev fs destination)
                else (0, ''Migrated '' @ source @ '' to '' @ destination @ [CHR 0x0A],
                      fs(destination \<mapsto> fopen_write dev fs destination output)))"

definition config_usage :: string where
  "config_usage = concat (map (\<lambda>l. l @ [CHR 0x0A])
     [''PolyCall configuration commands:'',
      ''  polycall config load [language]'',
      ''  polycall config validate [path]'',
      ''  polycall config show [language]'',
      ''  polycall config rc show <language>'',
      ''  polycall config rc validate <language>'',
      ''  polycall config migrate <source> <Polycallrc.language>''])"

text \<open>A command that only reads leaves the file system alone.\<close>

definition reading :: "file_system \<Rightarrow> command_result \<Rightarrow> int \<times> string \<times> file_system" where
  "reading fs r = (fst r, fst (snd r), fs)"

definition polycall_config_cli :: "output_device \<Rightarrow> string list \<Rightarrow> file_system \<Rightarrow> int \<times> string \<times> file_system" where
  "polycall_config_cli dev argv fs =
     (let argc = length argv; usage = (1, config_usage, fs) in
      if argc < 2 \<or> argv ! 1 \<noteq> ''config'' then (-1, [], fs)
      else if argc < 3 then usage
      else if argv ! 2 = ''load'' then
        if argc > 4 then usage
        else reading fs (load_and_report fs (if argc = 4 then Some (argv ! 3) else None) False)
      else if argv ! 2 = ''validate'' then
        if argc = 3 then reading fs (load_and_report fs None False)
        else if argc = 4 then reading fs (validate_one fs (argv ! 3))
        else usage
      else if argv ! 2 = ''show'' then
        if argc > 4 then usage
        else reading fs (load_and_report fs (if argc = 4 then Some (argv ! 3) else None) True)
      else if argv ! 2 = ''migrate'' \<and> argc = 5 then migrate_config dev (argv ! 3) (argv ! 4) fs
      else if argv ! 2 = ''rc'' then
        if argc = 6 \<and> argv ! 3 = ''migrate'' then migrate_config dev (argv ! 4) (argv ! 5) fs
        else if argc \<noteq> 5 then usage
        else if argv ! 3 = ''show'' then reading fs (show_rc fs (Some (argv ! 4)) False)
        else if argv ! 3 = ''validate'' then reading fs (show_rc fs (Some (argv ! 4)) True)
        else usage
      else usage)"

end
