(* ===== verification/Config_Laws.thy ===== *)
theory Config_Laws
  imports Config_Load
begin

text \<open>
  Laws of the configuration: its values as an instance of \<open>partial_store\<close>, the settings a
  file gives whatever it is read into, the invariant of a configuration that was read from
  files, and printing and reading back.
\<close>

section \<open>Values as a store\<close>

lemma snprintf_s_id: "length s < n \<Longrightarrow> NUL \<notin> set s \<Longrightarrow> snprintf_s n s = s"
  by (simp add: snprintf_s_def cstr_id)

lemma find_set_value:
  "set_value key value vs = Some ws \<Longrightarrow>
   map_option cv_value (List.find (\<lambda>v. cv_key v = k) ws) =
     (if k = key then Some (snprintf_s CONFIG_VALUE_SIZE value)
      else map_option cv_value (List.find (\<lambda>v. cv_key v = k) vs))"
  by (induction vs arbitrary: ws) (auto split: if_splits)

lemma set_value_None: "set_value key value vs = None \<longleftrightarrow> key \<notin> cv_key ` set vs"
  by (induction vs) auto

lemma set_value_keys: "set_value key value vs = Some ws \<Longrightarrow> map cv_key ws = map cv_key vs"
  by (induction vs arbitrary: ws) (auto split: if_splits)

lemma set_value_set:
  "set_value key value vs = Some ws \<Longrightarrow> v \<in> set ws \<Longrightarrow>
   v \<in> set vs \<or> cv_key v = key \<and> cv_value v = snprintf_s CONFIG_VALUE_SIZE value"
  by (induction vs arbitrary: ws) (auto split: if_splits)

lemma find_append: "List.find P (xs @ ys) = (case List.find P xs of None \<Rightarrow> List.find P ys | Some x \<Rightarrow> Some x)"
  by (induction xs) auto

lemma config_get_set:
  assumes "config_set c key value = Some c'" "length key < 64" "length value < 256" "NUL \<notin> set key" "NUL \<notin> set value"
  shows "config_get c' = (config_get c)(key \<mapsto> value)"
proof (cases "set_value key value (cf_values c)")
  case None
  with assms have c': "cf_values c' = cf_values c @ [\<lparr>cv_key = key, cv_value = value\<rparr>]"
    by (auto simp: config_set_def snprintf_s_id split: if_splits)
  from None have "List.find (\<lambda>v. cv_key v = key) (cf_values c) = None"
    by (auto simp: set_value_None find_None_iff)
  then show ?thesis
    by (auto simp: fun_eq_iff config_get_def c' find_append split: option.splits)
next
  case (Some vs)
  with assms have c': "cf_values c' = vs" by (auto simp: config_set_def)
  from find_set_value [OF Some] show ?thesis
    using assms by (simp add: fun_eq_iff config_get_def c' snprintf_s_id)
qed

lemma config_set_frame:
  "config_set c key value = Some c' \<Longrightarrow>
   cf_servers c' = cf_servers c \<and> cf_network_enabled c' = cf_network_enabled c \<and>
   cf_network_seen c' = cf_network_seen c \<and> cf_warnings c' = cf_warnings c"
  by (auto simp: config_set_def split: option.splits if_splits)

text \<open>Storing an entry of a file, as an update that may be refused.\<close>

definition put_entry :: "config_layer \<Rightarrow> string \<Rightarrow> string \<Rightarrow> config \<Rightarrow> config option" where
  "put_entry layer key value c =
     (if NUL \<in> set key \<union> set value then None
      else case store_entry layer key value c of Inl _ \<Rightarrow> None | Inr c' \<Rightarrow> Some c')"

lemma store_entry_cases:
  assumes "store_entry layer key value c = Inr c'"
  obtains c1 where "key \<noteq> []" "value \<noteq> []" "length key < 64" "length value < 256" "validate_value key value = None"
    "c1 = (if is_known_key key layer then c else c\<lparr>cf_warnings := cf_warnings c + 1\<rparr>)" "config_set c1 key value = Some c'"
  using assms by (auto simp: store_entry_def Let_def not_le split: if_splits option.splits)

lemma get_store_entry:
  assumes "store_entry layer key value c = Inr c'" "NUL \<notin> set key" "NUL \<notin> set value"
  shows "config_get c' = (config_get c)(key \<mapsto> value)"
  using assms(1)
proof (rule store_entry_cases)
  fix c1
  assume c1: "c1 = (if is_known_key key layer then c else c\<lparr>cf_warnings := cf_warnings c + 1\<rparr>)"
    and "length key < 64" "length value < 256" "config_set c1 key value = Some c'"
  with assms(2,3) have "config_get c' = (config_get c1)(key \<mapsto> value)" by (intro config_get_set)
  moreover have "config_get c1 = config_get c" by (simp add: c1 config_get_def fun_eq_iff)
  ultimately show ?thesis by simp
qed

interpretation entries: partial_store config_get "put_entry layer" for layer
  by unfold_locales (auto simp: put_entry_def get_store_entry split: if_splits sum.splits)

section \<open>The settings of a file\<close>

text \<open>
  The lines a file is read in, and the settings its lines give: what a file means for the
  store, whatever configuration it is read into.
\<close>

function file_lines :: "string \<Rightarrow> string list" where
  "file_lines s = (case fgets 1023 False s of None \<Rightarrow> [] | Some (chunk, rest, _) \<Rightarrow> cstr chunk # file_lines rest)"
  by pat_completeness auto

termination by (relation "measure length") (auto dest!: fgets_progress)

declare file_lines.simps [simp del]

definition line_setting :: "string \<Rightarrow> (string \<times> string) option" where
  "line_setting raw_line =
     (let line = line_text raw_line in
      if line = [] \<or> starts_directive ''server'' line \<or> starts_directive ''network'' line then None
      else map_option (\<lambda>(left, right). (trim left, trim right)) (split_at (CHR ''='') line))"

definition file_settings :: "string \<Rightarrow> (string \<times> string) list" where
  "file_settings s = List.map_filter line_setting (file_lines s)"

definition settings_map :: "string \<Rightarrow> string \<Rightarrow> string option" where
  "settings_map s = map_of (rev (file_settings s))"

lemma line_text_chars: "c \<in> set (line_text raw) \<Longrightarrow> c \<in> set raw \<and> c \<noteq> CHR ''#''"
  unfolding line_text_def by (drule in_trim) (auto dest: set_takeWhileD)

lemma line_setting_chars:
  assumes "line_setting raw = Some (k, v)"
  shows "set k \<subseteq> set (line_text raw) \<and> set v \<subseteq> set (line_text raw)"
proof -
  obtain l r where "split_at (CHR ''='') (line_text raw) = Some (l, r)" "k = trim l" "v = trim r"
    using assms by (auto simp: line_setting_def Let_def split: if_splits)
  then show ?thesis using set_trim [of l] set_trim [of r] by (auto simp: split_at_Some)
qed

text \<open>The effect of a line on the values is that of its setting.\<close>

lemma add_server_frame: "add_server language mapping c = Inr c' \<Longrightarrow>
    cf_values c' = cf_values c \<and> cf_network_enabled c' = cf_network_enabled c \<and> cf_network_seen c' = cf_network_seen c"
  by (auto simp: add_server_def split: if_splits option.splits)

lemma server_line_cases:
  assumes "server_line layer line c = Inr c'"
  obtains language mapping where "layer = LAYER_PROJECT" "scan_words [31, 63, 1] (drop 6 line) = [language, mapping]"
    "add_server language mapping c = Inr c'"
  using assms by (auto simp: server_line_def split: if_splits list.splits)

lemma network_line_cases:
  assumes "network_line layer line c = Inr c'"
  obtains action where "layer = LAYER_PROJECT" "action = ''start'' \<or> action = ''stop''"
    "c' = c\<lparr>cf_network_enabled := (action = ''start''), cf_network_seen := True\<rparr>"
  using assms by (auto simp: network_line_def split: if_splits list.splits)

lemma parse_line_cases:
  assumes "parse_line layer raw c = Inr c'"
  obtains (blank) "line_text raw = []" "line_setting raw = None" "c' = c"
    | (server) "starts_directive ''server'' (line_text raw)" "line_setting raw = None"
        "server_line layer (line_text raw) c = Inr c'"
    | (network) "\<not> starts_directive ''server'' (line_text raw)" "starts_directive ''network'' (line_text raw)"
        "line_setting raw = None" "network_line layer (line_text raw) c = Inr c'"
    | (entry) left right where "\<not> starts_directive ''server'' (line_text raw)"
        "\<not> starts_directive ''network'' (line_text raw)" "line_text raw = left @ CHR ''='' # right"
        "CHR ''='' \<notin> set left" "CHR ''='' \<notin> set right" "line_setting raw = Some (trim left, trim right)"
        "store_entry layer (trim left) (trim right) c = Inr c'"
proof (cases "line_text raw = [] \<or> starts_directive ''server'' (line_text raw) \<or> starts_directive ''network'' (line_text raw)")
  case True
  with assms show thesis
    by (auto simp: parse_line_def line_setting_def Let_def split: if_splits intro: blank server network)
next
  case False
  with assms obtain left right where s: "split_at (CHR ''='') (line_text raw) = Some (left, right)"
    and e: "entry_line layer left right c = Inr c'"
    by (auto simp: parse_line_def Let_def split: option.splits)
  from s have "line_text raw = left @ CHR ''='' # right" "CHR ''='' \<notin> set left" by (auto simp only: split_at_Some)
  moreover have "line_setting raw = Some (trim left, trim right)" using False s by (simp add: line_setting_def Let_def)
  moreover from e have "CHR ''='' \<notin> set right" "store_entry layer (trim left) (trim right) c = Inr c'"
    by (simp_all add: entry_line_def split: if_splits)
  ultimately show thesis using False by (intro entry) simp_all
qed

lemma get_parse_line:
  assumes "parse_line layer raw c = Inr c'" "NUL \<notin> set raw"
  shows "config_get c' = config_get c ++ map_of (case line_setting raw of None \<Rightarrow> [] | Some kv \<Rightarrow> [kv])"
  using assms(1)
proof (cases rule: parse_line_cases)
  case server
  from server(3) show ?thesis
    by (rule server_line_cases) (auto simp: server(2) config_get_def dest!: add_server_frame)
next
  case network
  from network(4) show ?thesis
    by (rule network_line_cases) (simp add: network(3) config_get_def fun_eq_iff)
next
  case (entry left right)
  have "NUL \<notin> set (trim left)" "NUL \<notin> set (trim right)"
    using line_setting_chars [OF entry(6)] line_text_chars [of NUL raw] assms(2) by auto
  from get_store_entry [OF entry(7) this] show ?thesis by (simp add: entry(6))
qed simp

lemma parse_lines_step:
  assumes "parse_lines path layer broken n s c = Inr c'"
  obtains (finished) "fgets 1023 broken s = None" "\<not> broken" "c' = c"
    | (line) chunk rest at_end c1 where "fgets 1023 broken s = Some (chunk, rest, at_end)"
        "CHR 0x0A \<in> set (cstr chunk) \<or> at_end" "parse_line layer (cstr chunk) c = Inr c1"
        "parse_lines path layer broken (n + 1) rest c1 = Inr c'"
  using assms
  by (subst (asm) parse_lines.simps) (auto split: option.splits if_splits sum.splits)

text \<open>A file that was parsed to its end had no read error.\<close>

lemma parse_lines_unbroken: "parse_lines path layer broken n s c = Inr c' \<Longrightarrow> \<not> broken"
proof (induction s arbitrary: n c rule: length_induct)
  case (1 s)
  from "1.prems" show ?case
  proof (cases rule: parse_lines_step)
    case (line chunk rest at_end c1)
    from fgets_progress [OF line(1)] line(4) "1.IH" show ?thesis by auto
  qed simp
qed

lemma get_parse_lines:
  "parse_lines path layer broken n s c = Inr c' \<Longrightarrow> config_get c' = config_get c ++ settings_map s"
proof (induction s arbitrary: n c rule: length_induct)
  case (1 s)
  from "1.prems" parse_lines_unbroken have b: "\<not> broken" by blast
  from "1.prems" show ?case
  proof (cases rule: parse_lines_step)
    case finished
    then show ?thesis
      by (simp add: settings_map_def file_settings_def file_lines.simps [of s] map_filter_simps)
  next
    case (line chunk rest at_end c1)
    have lines: "file_lines s = cstr chunk # file_lines rest"
      using line(1) b by (subst file_lines.simps) simp
    have "config_get c' = config_get c1 ++ settings_map rest"
      using "1.IH" fgets_progress [OF line(1)] line(4) by auto
    also have "config_get c1 = config_get c ++ map_of (case line_setting (cstr chunk) of None \<Rightarrow> [] | Some kv \<Rightarrow> [kv])"
      by (rule get_parse_line [OF line(3)]) simp
    finally show ?thesis
      by (cases "line_setting (cstr chunk)")
        (simp_all add: settings_map_def file_settings_def lines map_filter_simps fun_eq_iff map_add_def split: option.splits)
  qed
qed

lemma get_parse_config_file:
  assumes "parse_config_file fs path layer c = Inr c'"
  shows "\<exists>f. fopen_read fs path = Some f \<and> config_get c' = config_get c ++ settings_map (fl_content f)"
  using assms get_parse_lines by (auto simp: parse_config_file_def split: option.splits)

section \<open>Well-formed configurations\<close>

definition plain_text :: "string \<Rightarrow> bool" where
  "plain_text s \<longleftrightarrow> CHR 0x0A \<notin> set s \<and> NUL \<notin> set s \<and> CHR ''#'' \<notin> set s"

definition server_ok :: "config_server \<Rightarrow> bool" where
  "server_ok s \<longleftrightarrow> srv_language s \<noteq> [] \<and> length (srv_language s) \<le> 31 \<and>
     (\<forall>c \<in> set (srv_language s). \<not> is_space c) \<and> plain_text (srv_language s) \<and>
     0 < srv_host_port s \<and> srv_host_port s \<le> 65535 \<and> 0 < srv_target_port s \<and> srv_target_port s \<le> 65535"

definition value_ok :: "config_value \<Rightarrow> bool" where
  "value_ok v \<longleftrightarrow>
     cv_key v \<noteq> [] \<and> length (cv_key v) < 64 \<and> plain_text (cv_key v) \<and> CHR ''='' \<notin> set (cv_key v) \<and>
     trim (cv_key v) = cv_key v \<and>
     cv_value v \<noteq> [] \<and> length (cv_value v) < 256 \<and> plain_text (cv_value v) \<and> CHR ''='' \<notin> set (cv_value v) \<and>
     trim (cv_value v) = cv_value v \<and> validate_value (cv_key v) (cv_value v) = None \<and>
     \<not> starts_directive ''server'' (cv_key v @ CHR ''='' # cv_value v) \<and>
     \<not> starts_directive ''network'' (cv_key v @ CHR ''='' # cv_value v)"

definition config_wf :: "config \<Rightarrow> bool" where
  "config_wf c \<longleftrightarrow>
     length (cf_servers c) \<le> 32 \<and> distinct (map srv_language (cf_servers c)) \<and> (\<forall>s \<in> set (cf_servers c). server_ok s) \<and>
     length (cf_values c) \<le> 128 \<and> distinct (map cv_key (cf_values c)) \<and> (\<forall>v \<in> set (cf_values c). value_ok v) \<and>
     (cf_network_enabled c \<longrightarrow> cf_network_seen c)"

lemma config_wf_empty [simp]: "config_wf empty_config"
  by (simp add: config_wf_def empty_config_def)

lemma config_wf_set:
  assumes "config_wf c" "config_set c key value = Some c'" "value_ok \<lparr>cv_key = key, cv_value = value\<rparr>"
  shows "config_wf c'"
proof -
  have trunc: "snprintf_s 64 key = key" "snprintf_s 256 value = value"
    using assms(3) by (simp_all add: value_ok_def plain_text_def snprintf_s_id)
  show ?thesis
  proof (cases "set_value key value (cf_values c)")
    case None
    with assms(1-3) trunc show ?thesis
      by (auto simp: config_set_def config_wf_def set_value_None split: if_splits)
  next
    case (Some vs)
    have ok: "value_ok v" if "v \<in> set vs" for v
    proof -
      from set_value_set [OF Some that] trunc consider "v \<in> set (cf_values c)" | "cv_key v = key" "cv_value v = value"
        by auto
      then show ?thesis
        by cases (use assms(1,3) in \<open>auto simp: config_wf_def value_ok_def\<close>)
    qed
    have "length vs = length (cf_values c)" using set_value_keys [OF Some] by (metis length_map)
    with ok Some assms(1,2) set_value_keys [OF Some] show ?thesis
      by (auto simp: config_set_def config_wf_def)
  qed
qed

lemma config_wf_store:
  assumes "config_wf c" "store_entry layer key value c = Inr c'"
    and "validate_value key value = None \<Longrightarrow> key \<noteq> [] \<Longrightarrow> value \<noteq> [] \<Longrightarrow> length key < 64 \<Longrightarrow> length value < 256 \<Longrightarrow>
      value_ok \<lparr>cv_key = key, cv_value = value\<rparr>"
  shows "config_wf c'"
  using assms(2)
proof (rule store_entry_cases)
  fix c1
  assume "key \<noteq> []" "value \<noteq> []" "length key < 64" "length value < 256" "validate_value key value = None"
    and c1: "c1 = (if is_known_key key layer then c else c\<lparr>cf_warnings := cf_warnings c + 1\<rparr>)"
    and s: "config_set c1 key value = Some c'"
  then have "value_ok \<lparr>cv_key = key, cv_value = value\<rparr>" by (intro assms(3))
  moreover have "config_wf c1" using assms(1) by (simp add: c1 config_wf_def)
  ultimately show ?thesis using s config_wf_set by blast
qed

lemma config_wf_add_server:
  assumes "config_wf c" "add_server language mapping c = Inr c'"
    and "\<forall>x \<in> set language. \<not> is_space x" "plain_text language"
  shows "config_wf c'"
proof -
  have nul: "NUL \<notin> set language" using assms(4) by (simp add: plain_text_def)
  obtain host target where p: "language \<noteq> []" "length language < 32" "parse_port_mapping mapping = Some (host, target)"
    "\<not> list_ex (\<lambda>s. srv_language s = language) (cf_servers c)" "length (cf_servers c) < 32"
    "c' = c\<lparr>cf_servers := cf_servers c @ [\<lparr>srv_language = language, srv_host_port = host, srv_target_port = target\<rparr>]\<rparr>"
    using assms(2) nul
    by (auto simp: add_server_def not_le snprintf_s_id split: if_splits option.splits)
  with assms(1,3,4) port_mapping_range [OF p(3)] show ?thesis
    by (auto simp: config_wf_def server_ok_def list_ex_iff)
qed

lemma scan_words_chars:
  "scan_words ns s = ws \<Longrightarrow> w \<in> set ws \<Longrightarrow> set w \<subseteq> set s \<and> (\<forall>c \<in> set w. \<not> is_space c)"
proof (induction ns s arbitrary: ws rule: scan_words.induct)
  case (2 n ns s)
  show ?case
  proof (cases "scan_word n s")
    case None
    with "2.prems" show ?thesis by auto
  next
    case (Some p)
    obtain u r where p: "p = (u, r)" by (cases p)
    let ?t = "dropWhile is_space s"
    from Some p have u: "u = take n (takeWhile (\<lambda>c. \<not> is_space c) ?t)" "r = drop (length u) ?t"
      by (auto simp: scan_word_def Let_def split: if_splits)
    have "set u \<subseteq> set s \<and> (\<forall>c \<in> set u. \<not> is_space c)"
      unfolding u(1) using in_set_takeD set_takeWhileD in_dropWhile by fast
    moreover have "set r \<subseteq> set s"
      unfolding u(2) using in_set_dropD in_dropWhile by fast
    ultimately show ?thesis using "2.prems" "2.IH" [OF Some p [symmetric]] Some p by fastforce
  qed
qed simp

text \<open>
  A raw line is a line as \<open>fgets\<close> delivers it: a newline can only be its last character.
\<close>

definition raw_line :: "string \<Rightarrow> bool" where
  "raw_line raw \<longleftrightarrow> NUL \<notin> set raw \<and> CHR 0x0A \<notin> set (butlast raw)"

lemma fgets_raw_line:
  assumes "fgets n broken s = Some (chunk, rest, at_end)"
  shows "raw_line (cstr chunk)"
proof -
  let ?l = "takeWhile (\<lambda>c. c \<noteq> CHR 0x0A) s"
  define len where "len = min n (if CHR 0x0A \<in> set s then Suc (length ?l) else length ?l)"
  have k: "chunk = take len s"
    using assms unfolding fgets_def Let_def len_def [symmetric] by (simp only: split: if_split_asm) simp_all
  have bound: "len \<le> Suc (length ?l)" by (auto simp: len_def)
  have but: "CHR 0x0A \<notin> set (butlast chunk)"
  proof -
    obtain rest' where s: "s = ?l @ rest'" by (metis takeWhile_dropWhile_id)
    have l: "CHR 0x0A \<notin> set ?l" by (auto dest: set_takeWhileD)
    show ?thesis
    proof (cases "len \<le> length ?l")
      case True
      then have "take len s = take len ?l" by (subst s) simp
      with l show ?thesis unfolding k by (metis in_set_butlastD in_set_takeD)
    next
      case False
      with bound have "len = Suc (length ?l)" by simp
      then have "take len s = ?l @ take 1 rest'" by (subst s) simp
      moreover have "butlast (?l @ take 1 rest') = (if rest' = [] then butlast ?l else ?l)"
        by (cases rest') (simp_all add: butlast_append)
      ultimately show ?thesis unfolding k using l by (auto dest: in_set_butlastD split: if_splits)
    qed
  qed
  have "CHR 0x0A \<notin> set (butlast (cstr chunk))"
  proof -
    obtain w where w: "chunk = cstr chunk @ w" by (metis cstr_def takeWhile_dropWhile_id)
    show ?thesis
    proof (cases "w = []")
      case False
      with w have "butlast chunk = cstr chunk @ butlast w" by (metis butlast_append)
      with but show ?thesis by (metis Un_iff in_set_butlastD set_append)
    qed (use w but in simp)
  qed
  then show ?thesis by (simp add: raw_line_def)
qed

section \<open>Reading keeps a configuration well formed\<close>

lemma line_text_no_newline:
  assumes "raw_line raw"
  shows "CHR 0x0A \<notin> set (line_text raw)"
proof (cases "CHR 0x0A \<in> set (takeWhile (\<lambda>c. c \<noteq> CHR ''#'') raw)")
  case False
  then show ?thesis unfolding line_text_def using in_trim by blast
next
  case True
  let ?u = "takeWhile (\<lambda>c. c \<noteq> CHR ''#'') raw"
  obtain w where w: "raw = ?u @ w" by (metis takeWhile_dropWhile_id)
  have "w = []"
  proof (rule ccontr)
    assume "w \<noteq> []"
    with w have "butlast raw = ?u @ butlast w" by (metis butlast_append)
    with True assms show False by (auto simp: raw_line_def)
  qed
  with w have u: "?u = raw" by simp
  from True have ne: "raw \<noteq> []" by auto
  from True u assms ne have "last raw = CHR 0x0A"
    by (metis append_butlast_last_id in_set_conv_nth raw_line_def rotate1.simps(2) set_ConsD set_rotate1)
  with ne have "raw = butlast raw @ [CHR 0x0A]" by (metis append_butlast_last_id)
  then have "trim raw = trim (butlast raw)" by (metis is_space_simps(1) set_ConsD list.set(1) empty_iff trim_append_space)
  then have "line_text raw = trim (butlast raw)" by (simp only: line_text_def u)
  moreover have "CHR 0x0A \<notin> set (butlast raw)" using assms unfolding raw_line_def by blast
  ultimately show ?thesis by (metis in_trim)
qed

lemma line_text_plain: "raw_line raw \<Longrightarrow> plain_text (line_text raw)"
  using line_text_no_newline [of raw] line_text_chars [of NUL raw] line_text_chars [of "CHR ''#''" raw]
  unfolding plain_text_def raw_line_def by blast

lemma plain_text_subset: "plain_text s \<Longrightarrow> set t \<subseteq> set s \<Longrightarrow> plain_text t"
  by (auto simp: plain_text_def)

lemma line_text_trimmed [simp]: "trim (line_text raw) = line_text raw"
  by (simp add: line_text_def)

lemma starts_directive_squeeze:
  assumes "starts_directive kw (k @ CHR ''='' # v)" "CHR ''='' \<notin> set kw"
  shows "starts_directive kw (k @ w @ CHR ''='' # r)"
proof -
  consider "length kw < length k" | "length kw = length k" | "length k < length kw" by linarith
  then show ?thesis
  proof cases
    case 1
    with assms(1) show ?thesis by (auto simp: starts_directive_def nth_append)
  next
    case 2
    with assms(1) show ?thesis by (simp add: starts_directive_def nth_append)
  next
    case 3
    with assms(1) have "take (length kw) (k @ CHR ''='' # v) = kw" by (simp add: starts_directive_def)
    moreover from 3 obtain n where "length kw - length k = Suc n" by (metis Suc_diff_Suc)
    ultimately have "CHR ''='' \<in> set kw" using 3 by (metis Un_iff list.set_intros(1) set_append take_Suc_Cons take_append)
    with assms(2) show ?thesis by simp
  qed
qed

lemma trim_Nil_iff: "trim s = [] \<longleftrightarrow> (\<forall>c \<in> set s. is_space c)"
proof
  assume t: "trim s = []"
  then have "dropWhile is_space (rev (dropWhile is_space s)) = []" by (simp add: trim_def)
  then have "\<forall>c \<in> set (dropWhile is_space s). is_space c" unfolding dropWhile_eq_Nil_conv by simp
  then have "dropWhile is_space s = []" by (metis hd_dropWhile hd_in_set)
  then show "\<forall>c \<in> set s. is_space c" unfolding dropWhile_eq_Nil_conv .
next
  assume "\<forall>c \<in> set s. is_space c"
  then have "dropWhile is_space s = []" unfolding dropWhile_eq_Nil_conv .
  then show "trim s = []" by (simp only: trim_def rev.simps dropWhile.simps)
qed

lemma config_wf_parse_line:
  assumes "config_wf c" "parse_line layer raw c = Inr c'" "raw_line raw"
  shows "config_wf c'"
  using assms(2)
proof (cases rule: parse_line_cases)
  case blank
  with assms(1) show ?thesis by simp
next
  case server
  from server(3) show ?thesis
  proof (rule server_line_cases)
    fix language mapping
    assume sc: "scan_words [31, 63, 1] (drop 6 (line_text raw)) = [language, mapping]"
      and add: "add_server language mapping c = Inr c'"
    have sp: "\<forall>c \<in> set language. \<not> is_space c" and sub: "set language \<subseteq> set (drop 6 (line_text raw))"
      using scan_words_chars [OF sc, of language] by simp_all
    have "plain_text language"
      by (rule plain_text_subset [OF line_text_plain [OF assms(3)]]) (use sub in_set_dropD in fast)
    with config_wf_add_server [OF assms(1) add sp] show ?thesis by simp
  qed
next
  case network
  from network(4) show ?thesis
    by (rule network_line_cases) (use assms(1) in \<open>simp add: config_wf_def\<close>)
next
  case (entry left right)
  show ?thesis
  proof (rule config_wf_store [OF assms(1) entry(7)])
    assume v: "validate_value (trim left) (trim right) = None" "trim left \<noteq> []" "trim right \<noteq> []"
      "length (trim left) < 64" "length (trim right) < 256"
    have plain: "plain_text (trim left)" "plain_text (trim right)"
      using line_setting_chars [OF entry(6)] plain_text_subset [OF line_text_plain [OF assms(3)]] by blast+
    have "trim (left @ CHR ''='' # right) = left @ CHR ''='' # right"
      using line_text_trimmed [of raw] by (simp only: entry(3))
    from trim_prefix [OF this v(2)] obtain w where w: "left = trim left @ w" by blast
    then have line: "line_text raw = trim left @ w @ CHR ''='' # right" using entry(3) by (metis append.assoc)
    have "\<not> starts_directive ''server'' (trim left @ CHR ''='' # trim right)"
      "\<not> starts_directive ''network'' (trim left @ CHR ''='' # trim right)"
      using entry(1,2) starts_directive_squeeze [of _ "trim left" "trim right" w right] by (auto simp: line)
    then show "value_ok \<lparr>cv_key = trim left, cv_value = trim right\<rparr>"
      using v plain entry(4,5) in_trim by (auto simp: value_ok_def)
  qed
qed

lemma config_wf_parse_lines:
  "config_wf c \<Longrightarrow> parse_lines path layer broken n s c = Inr c' \<Longrightarrow> config_wf c'"
proof (induction s arbitrary: n c rule: length_induct)
  case (1 s)
  from "1.prems"(2) show ?case
  proof (cases rule: parse_lines_step)
    case (line chunk rest at_end c1)
    have "config_wf c1" by (rule config_wf_parse_line [OF "1.prems"(1) line(3) fgets_raw_line [OF line(1)]])
    with "1.IH" fgets_progress [OF line(1)] line(4) show ?thesis by auto
  qed (use "1.prems"(1) in simp)
qed

lemma config_wf_parse_file:
  "config_wf c \<Longrightarrow> parse_config_file fs path layer c = Inr c' \<Longrightarrow> config_wf c'"
  by (auto simp: parse_config_file_def config_wf_parse_lines split: option.splits)

section \<open>Layers\<close>

text \<open>Only the project layer has servers and the network.\<close>

lemma parse_line_layer:
  assumes "parse_line layer raw c = Inr c'" "layer \<noteq> LAYER_PROJECT"
  shows "cf_servers c' = cf_servers c \<and> cf_network_enabled c' = cf_network_enabled c \<and>
    cf_network_seen c' = cf_network_seen c"
  using assms(1)
proof (cases rule: parse_line_cases)
  case server
  with assms(2) show ?thesis by (auto elim: server_line_cases)
next
  case network
  with assms(2) show ?thesis by (auto elim: network_line_cases)
next
  case (entry left right)
  from entry(7) show ?thesis
  proof (rule store_entry_cases)
    fix c1
    assume c1: "c1 = (if is_known_key (trim left) layer then c else c\<lparr>cf_warnings := cf_warnings c + 1\<rparr>)"
      and s: "config_set c1 (trim left) (trim right) = Some c'"
    from config_set_frame [OF s] show ?thesis by (simp add: c1)
  qed
qed simp

lemma parse_lines_layer:
  "parse_lines path layer broken n s c = Inr c' \<Longrightarrow> layer \<noteq> LAYER_PROJECT \<Longrightarrow>
   cf_servers c' = cf_servers c \<and> cf_network_enabled c' = cf_network_enabled c \<and> cf_network_seen c' = cf_network_seen c"
proof (induction s arbitrary: n c rule: length_induct)
  case (1 s)
  from "1.prems"(1) show ?case
  proof (cases rule: parse_lines_step)
    case (line chunk rest at_end c1)
    from parse_line_layer [OF line(3) "1.prems"(2)] "1.IH" fgets_progress [OF line(1)] line(4) "1.prems"(2)
    show ?thesis by auto
  qed simp
qed

lemma parse_file_layer:
  "parse_config_file fs path layer c = Inr c' \<Longrightarrow> layer \<noteq> LAYER_PROJECT \<Longrightarrow>
   cf_servers c' = cf_servers c \<and> cf_network_enabled c' = cf_network_enabled c \<and> cf_network_seen c' = cf_network_seen c"
  using parse_lines_layer by (auto simp: parse_config_file_def split: option.splits)


section \<open>Printing and reading back\<close>

lemma fgets_line:
  assumes "CHR 0x0A \<notin> set l" "length l < 1023"
  shows "fgets 1023 broken (l @ CHR 0x0A # rest) = Some (l @ [CHR 0x0A], rest, False)"
proof -
  have "takeWhile (\<lambda>c. c \<noteq> CHR 0x0A) (l @ CHR 0x0A # rest) = l"
    using assms(1) by (simp add: takeWhile_append)
  then show ?thesis using assms(2) by (simp add: fgets_def Let_def)
qed

lemma plain_textD: "plain_text s \<Longrightarrow> CHR 0x0A \<notin> set s" "plain_text s \<Longrightarrow> NUL \<notin> set s" "plain_text s \<Longrightarrow> CHR ''#'' \<notin> set s"
  by (simp_all add: plain_text_def)

lemma line_text_id:
  assumes "plain_text l" "trim l = l"
  shows "line_text (l @ [CHR 0x0A]) = l"
proof -
  have "takeWhile (\<lambda>c. c \<noteq> CHR ''#'') (l @ [CHR 0x0A]) = l @ [CHR 0x0A]"
    unfolding takeWhile_eq_all_conv using assms(1) by (auto simp: plain_text_def)
  moreover have "trim (l @ [CHR 0x0A]) = trim l" by (rule trim_append_space) simp
  ultimately show ?thesis by (simp only: line_text_def assms(2))
qed

text \<open>A printed line is read as one line and means its text.\<close>

lemma parse_lines_printed:
  assumes "plain_text l" "trim l = l" "length l < 1023" "parse_line layer (l @ [CHR 0x0A]) c = Inr c1"
  shows "parse_lines path layer False n (l @ CHR 0x0A # rest) c = parse_lines path layer False (n + 1) rest c1"
proof -
  have "NUL \<notin> set (l @ [CHR 0x0A])" using plain_textD(2) [OF assms(1)] by simp
  then have "cstr (l @ [CHR 0x0A]) = l @ [CHR 0x0A]" by (rule cstr_id)
  with fgets_line [OF plain_textD(1) [OF assms(1)] assms(3), of False rest] assms(4)
  show ?thesis by (subst parse_lines.simps) simp
qed

lemma scan_word_word:
  assumes "w \<noteq> []" "length w \<le> n" "\<forall>c \<in> set w. \<not> is_space c" "r = [] \<or> is_space (hd r)"
  shows "scan_word n (CHR '' '' # w @ r) = Some (w, r)"
proof -
  have "dropWhile is_space (CHR '' '' # w @ r) = w @ r" using assms(1,3) by (cases w) auto
  moreover have "takeWhile (\<lambda>c. \<not> is_space c) (w @ r) = w"
    using assms(3,4) by (cases r) (auto simp: takeWhile_append takeWhile_eq_all_conv)
  moreover have "0 < n" using assms(1,2) by (cases w) auto
  ultimately show ?thesis using assms(1,2) by (simp add: scan_word_def Let_def)
qed

definition mapping_text :: "config_server \<Rightarrow> string" where
  "mapping_text s = show_nat (unat (srv_host_port s)) @ '':'' @ show_nat (unat (srv_target_port s))"

lemma mapping_text_facts:
  assumes "server_ok s"
  shows "mapping_text s \<noteq> []" "length (mapping_text s) \<le> 11" "\<forall>c \<in> set (mapping_text s). \<not> is_space c"
    "plain_text (mapping_text s)" "parse_port_mapping (mapping_text s) = Some (srv_host_port s, srv_target_port s)"
proof -
  have p: "0 < srv_host_port s" "srv_host_port s \<le> 65535" "0 < srv_target_port s" "srv_target_port s \<le> 65535"
    using assms by (simp_all add: server_ok_def)
  show "mapping_text s \<noteq> []" by (simp add: mapping_text_def)
  show "length (mapping_text s) \<le> 11"
    using show_port_length [OF p(2)] show_port_length [OF p(4)] by (simp add: mapping_text_def)
  show "parse_port_mapping (mapping_text s) = Some (srv_host_port s, srv_target_port s)"
    unfolding mapping_text_def by (rule port_mapping_roundtrip [OF p])
  have c: "c = CHR '':'' \<or> is_digit c" if "c \<in> set (mapping_text s)" for c
    using that show_nat_digits by (auto simp: mapping_text_def)
  show "\<forall>c \<in> set (mapping_text s). \<not> is_space c"
    using c is_digit_not_space by fastforce
  show "plain_text (mapping_text s)"
    unfolding plain_text_def using c is_digit_neq(4,5) is_digit_not_NUL by fastforce
qed

definition server_text :: "config_server \<Rightarrow> string" where
  "server_text s = ''server '' @ srv_language s @ CHR '' '' # mapping_text s"

lemma show_server_text: "show_server s = server_text s @ [CHR 0x0A]"
  by (simp add: show_server_def server_text_def mapping_text_def)

lemma server_text_facts:
  assumes "server_ok s"
  shows "plain_text (server_text s)" "trim (server_text s) = server_text s" "length (server_text s) < 1023"
proof -
  note m = mapping_text_facts [OF assms]
  have l: "plain_text (srv_language s)" "length (srv_language s) \<le> 31" using assms by (simp_all add: server_ok_def)
  show "plain_text (server_text s)" using l(1) m(4) by (simp add: plain_text_def server_text_def)
  show "length (server_text s) < 1023" using l(2) m(2) by (simp add: server_text_def)
  have "last (mapping_text s) \<in> set (mapping_text s)" using m(1) by simp
  with m(3) have "\<not> is_space (last (mapping_text s))" by blast
  then show "trim (server_text s) = server_text s"
    using m(1) by (simp add: trim_fixed server_text_def is_space_def)
qed

lemma parse_server_text:
  assumes "server_ok s" "length (cf_servers c) < 32" "srv_language s \<notin> srv_language ` set (cf_servers c)"
  shows "parse_line LAYER_PROJECT (server_text s @ [CHR 0x0A]) c = Inr (c\<lparr>cf_servers := cf_servers c @ [s]\<rparr>)"
proof -
  note m = mapping_text_facts [OF assms(1)]
  have l: "srv_language s \<noteq> []" "length (srv_language s) \<le> 31" "\<forall>c \<in> set (srv_language s). \<not> is_space c"
    "NUL \<notin> set (srv_language s)" using assms(1) by (simp_all add: server_ok_def plain_text_def)
  have t: "line_text (server_text s @ [CHR 0x0A]) = server_text s"
    by (rule line_text_id) (use server_text_facts [OF assms(1)] in simp_all)
  have d: "starts_directive ''server'' (server_text s)" by (simp add: starts_directive_def server_text_def)
  have "scan_word 31 (drop 6 (server_text s)) = Some (srv_language s, CHR '' '' # mapping_text s)"
    using scan_word_word [OF l(1,2,3), of "CHR '' '' # mapping_text s"] by (simp add: server_text_def)
  moreover have "scan_word 63 (CHR '' '' # mapping_text s) = Some (mapping_text s, [])"
    using scan_word_word [OF m(1) _ m(3), of 63 "[]"] m(2) by simp
  moreover have "scan_word 1 [] = None" by (simp add: scan_word_def)
  ultimately have "scan_words [31, 63, 1] (drop 6 (server_text s)) = [srv_language s, mapping_text s]" by simp
  then have "server_line LAYER_PROJECT (server_text s) c = add_server (srv_language s) (mapping_text s) c"
    by (simp add: server_line_def)
  moreover have "add_server (srv_language s) (mapping_text s) c = Inr (c\<lparr>cf_servers := cf_servers c @ [s]\<rparr>)"
  proof -
    have "\<not> list_ex (\<lambda>t. srv_language t = srv_language s) (cf_servers c)"
      using assms(3) by (auto simp: list_ex_iff image_iff)
    with l m(5) assms(2) show ?thesis by (simp add: add_server_def snprintf_s_id)
  qed
  moreover have "server_text s \<noteq> []" by (simp add: server_text_def)
  ultimately show ?thesis using d by (simp add: parse_line_def t)
qed

lemma parse_servers:
  assumes "\<forall>s \<in> set ss. server_ok s" "length (cf_servers c) + length ss \<le> 32"
    "distinct (map srv_language (cf_servers c @ ss))"
  shows "parse_lines path LAYER_PROJECT False n (concat (map show_server ss) @ rest) c =
    parse_lines path LAYER_PROJECT False (n + length ss) rest (c\<lparr>cf_servers := cf_servers c @ ss\<rparr>)"
  using assms
proof (induction ss arbitrary: n c)
  case (Cons s ss)
  then have s: "server_ok s" "length (cf_servers c) < 32" "srv_language s \<notin> srv_language ` set (cf_servers c)" by auto
  from parse_lines_printed [OF server_text_facts [OF s(1)] parse_server_text [OF s]]
  have "parse_lines path LAYER_PROJECT False n (concat (map show_server (s # ss)) @ rest) c =
    parse_lines path LAYER_PROJECT False (n + 1) (concat (map show_server ss) @ rest) (c\<lparr>cf_servers := cf_servers c @ [s]\<rparr>)"
    by (simp add: show_server_text)
  also have "\<dots> = parse_lines path LAYER_PROJECT False (n + 1 + length ss) rest
      (c\<lparr>cf_servers := (cf_servers c @ [s]) @ ss\<rparr>)"
    using Cons.IH [of "c\<lparr>cf_servers := cf_servers c @ [s]\<rparr>" "n + 1"] Cons.prems by simp
  finally show ?case by simp
qed simp

definition value_text :: "config_value \<Rightarrow> string" where
  "value_text v = cv_key v @ CHR ''='' # cv_value v"

lemma show_value_text: "show_value v = value_text v @ [CHR 0x0A]"
  by (simp add: show_value_def value_text_def)

lemma value_text_facts:
  assumes "value_ok v"
  shows "plain_text (value_text v)" "trim (value_text v) = value_text v" "length (value_text v) < 1023"
proof -
  have k: "cv_key v \<noteq> []" "cv_value v \<noteq> []" "plain_text (cv_key v)" "plain_text (cv_value v)"
    "trim (cv_key v) = cv_key v" "trim (cv_value v) = cv_value v" "length (cv_key v) < 64" "length (cv_value v) < 256"
    using assms by (simp_all add: value_ok_def)
  show "plain_text (value_text v)" using k by (simp add: plain_text_def value_text_def)
  show "length (value_text v) < 1023" using k by (simp add: value_text_def)
  show "trim (value_text v) = value_text v" using k by (simp add: trim_fixed value_text_def)
qed

lemma parse_value_text:
  assumes "value_ok v" "length (cf_values c) < 128" "cv_key v \<notin> cv_key ` set (cf_values c)"
  shows "\<exists>w. parse_line layer (value_text v @ [CHR 0x0A]) c =
    Inr (c\<lparr>cf_values := cf_values c @ [v], cf_warnings := w\<rparr>)"
proof -
  have k: "cv_key v \<noteq> []" "cv_value v \<noteq> []" "trim (cv_key v) = cv_key v" "trim (cv_value v) = cv_value v"
    "length (cv_key v) < 64" "length (cv_value v) < 256" "validate_value (cv_key v) (cv_value v) = None"
    "CHR ''='' \<notin> set (cv_key v)" "CHR ''='' \<notin> set (cv_value v)" "NUL \<notin> set (cv_key v)" "NUL \<notin> set (cv_value v)"
    "\<not> starts_directive ''server'' (value_text v)" "\<not> starts_directive ''network'' (value_text v)"
    using assms(1) by (simp_all add: value_ok_def plain_text_def value_text_def)
  have t: "line_text (value_text v @ [CHR 0x0A]) = value_text v"
    by (rule line_text_id) (use value_text_facts [OF assms(1)] in simp_all)
  have "parse_line layer (value_text v @ [CHR 0x0A]) c =
      store_entry layer (cv_key v) (cv_value v) c"
    unfolding parse_line_def t Let_def using k
    by (simp add: entry_line_def value_text_def split_at_append)
  moreover have "config_set c' (cv_key v) (cv_value v) = Some (c'\<lparr>cf_values := cf_values c' @ [v]\<rparr>)"
    if "cf_values c' = cf_values c" for c'
  proof -
    have "set_value (cv_key v) (cv_value v) (cf_values c') = None"
      unfolding set_value_None that by (rule assms(3))
    with k assms(2) that show ?thesis by (simp add: config_set_def snprintf_s_id)
  qed
  ultimately show ?thesis
    using k
    by (intro exI [of _ "if is_known_key (cv_key v) layer then cf_warnings c else cf_warnings c + 1"])
      (simp add: store_entry_def Let_def)
qed

lemma parse_values:
  assumes "\<forall>v \<in> set vs. value_ok v" "length (cf_values c) + length vs \<le> 128"
    "distinct (map cv_key (cf_values c @ vs))"
  shows "\<exists>w. parse_lines path layer False n (concat (map show_value vs)) c =
    Inr (c\<lparr>cf_values := cf_values c @ vs, cf_warnings := w\<rparr>)"
  using assms
proof (induction vs arbitrary: n c)
  case Nil
  have "parse_lines path layer False n [] c = Inr c"
    by (subst parse_lines.simps) (simp add: fgets_def)
  then show ?case by (intro exI [of _ "cf_warnings c"]) simp
next
  case (Cons v vs)
  then have v: "value_ok v" "length (cf_values c) < 128" "cv_key v \<notin> cv_key ` set (cf_values c)" by auto
  obtain w where w: "parse_line layer (value_text v @ [CHR 0x0A]) c =
      Inr (c\<lparr>cf_values := cf_values c @ [v], cf_warnings := w\<rparr>)"
    using parse_value_text [OF v] by blast
  let ?c = "c\<lparr>cf_values := cf_values c @ [v], cf_warnings := w\<rparr>"
  from parse_lines_printed [OF value_text_facts [OF v(1)] w]
  have "parse_lines path layer False n (concat (map show_value (v # vs))) c =
    parse_lines path layer False (n + 1) (concat (map show_value vs)) ?c"
    by (simp add: show_value_text)
  with Cons.IH [of ?c "n + 1"] Cons.prems show ?case by auto
qed

lemma parse_network:
  "parse_lines path LAYER_PROJECT False n (''network '' @ (if b then ''start'' else ''stop'') @ CHR 0x0A # rest) c =
   parse_lines path LAYER_PROJECT False (n + 1) rest (c\<lparr>cf_network_enabled := b, cf_network_seen := True\<rparr>)"
proof -
  let ?a = "if b then ''start'' else ''stop''"
  let ?l = "''network '' @ ?a"
  have l: "plain_text ?l" "trim ?l = ?l" "length ?l < 1023"
    by (simp_all add: plain_text_def trim_fixed is_space_def)
  have t: "line_text (?l @ [CHR 0x0A]) = ?l" by (rule line_text_id [OF l(1,2)])
  have d: "\<not> starts_directive ''server'' ?l" "starts_directive ''network'' ?l" by (simp_all add: starts_directive_def)
  have "scan_word 15 (drop 7 ?l) = Some (?a, [])"
    using scan_word_word [of ?a 15 "[]"] by (auto simp: is_space_def)
  then have "scan_words [15, 1] (drop 7 ?l) = [?a]" by (simp add: scan_word_def [of "Suc 0"])
  then have "network_line LAYER_PROJECT ?l c = Inr (c\<lparr>cf_network_enabled := b, cf_network_seen := True\<rparr>)"
    by (simp add: network_line_def)
  then have "parse_line LAYER_PROJECT (?l @ [CHR 0x0A]) c = Inr (c\<lparr>cf_network_enabled := b, cf_network_seen := True\<rparr>)"
    unfolding parse_line_def t Let_def using d by simp
  from parse_lines_printed [OF l this] show ?thesis by (simp only: append.assoc)
qed

lemma parse_show_config:
  assumes "config_wf c"
  shows "\<exists>w. parse_lines path LAYER_PROJECT False n (show_config c) empty_config = Inr (c\<lparr>cf_warnings := w\<rparr>)"
proof -
  let ?net = "if cf_network_seen c then ''network '' @ (if cf_network_enabled c then ''start'' else ''stop'') @ [CHR 0x0A] else []"
  let ?vals = "concat (map show_value (cf_values c))"
  let ?c1 = "empty_config\<lparr>cf_servers := cf_servers c\<rparr>"
  let ?c2 = "?c1\<lparr>cf_network_enabled := cf_network_enabled c, cf_network_seen := cf_network_seen c\<rparr>"
  let ?m = "n + length (cf_servers c)"
  have "parse_lines path LAYER_PROJECT False n (show_config c) empty_config =
      parse_lines path LAYER_PROJECT False ?m (?net @ ?vals) ?c1"
    using parse_servers [of "cf_servers c" empty_config path n "?net @ ?vals"] assms
    by (simp add: config_wf_def show_config_def empty_config_def)
  moreover have "\<exists>k. parse_lines path LAYER_PROJECT False ?m (?net @ ?vals) ?c1 =
      parse_lines path LAYER_PROJECT False k ?vals ?c2"
  proof (cases "cf_network_seen c")
    case True
    with parse_network [of path ?m "cf_network_enabled c" ?vals ?c1] show ?thesis by auto
  next
    case False
    with assms show ?thesis by (auto simp: config_wf_def empty_config_def)
  qed
  moreover have "\<exists>w. parse_lines path LAYER_PROJECT False k ?vals ?c2 = Inr (?c2\<lparr>cf_values := cf_values c, cf_warnings := w\<rparr>)" for k
    using parse_values [of "cf_values c" ?c2 path LAYER_PROJECT k] assms by (simp add: config_wf_def empty_config_def)
  ultimately obtain w where "parse_lines path LAYER_PROJECT False n (show_config c) empty_config =
      Inr (?c2\<lparr>cf_values := cf_values c, cf_warnings := w\<rparr>)" by metis
  then show ?thesis by (intro exI [of _ w]) (simp add: empty_config_def)
qed

end
