(* ===== verification/Config_Properties.thy ===== *)
theory Config_Properties
  imports Config_Laws
begin

text \<open>
  What \<open>polycall config\<close> guarantees: consistent configurations, layers that override one
  another, a printed form that reads back, exact port ranges (and the negative numbers that
  slip through), complete configurations after a load, and commands that never touch a
  file they can open (and overwrite one they cannot).
\<close>

section \<open>A successful load, step by step\<close>

lemma load_file_cases:
  assumes "load_file fs path layer (c, src) = Inr (c', src')"
  shows "parse_config_file fs path layer c = Inr c' \<and> length (ls_paths src) < 3 \<and>
    src' = src\<lparr>ls_paths := ls_paths src @ [snprintf_s 512 path]\<rparr>"
  using assms by (auto simp: load_file_def record_source_def split: sum.splits option.splits if_splits)

text \<open>The runtime file of a language: its own, or the legacy one.\<close>

definition language_file :: "file_system \<Rightarrow> string \<Rightarrow> string" where
  "language_file fs language =
     (if file_exists fs (language_path language) then language_path language else ''.polycallrc'')"

lemma load_language_cases:
  assumes "load_language fs language (c, src) = Inr (c', src')"
  shows "valid_language (Some language) \<and> file_exists fs (language_file fs language) \<and>
    parse_config_file fs (language_file fs language) LAYER_LANGUAGE c = Inr c' \<and>
    ls_paths src' = ls_paths src @ [snprintf_s 512 (language_file fs language)]"
  using assms
  by (auto simp: load_language_def language_file_def split: if_splits sum.splits dest!: load_file_cases)

lemma load_hierarchy_cases:
  assumes "load_hierarchy fs language = Inr (c, src)"
  obtains c1 c2 where "parse_config_file fs ''Polycallfile'' LAYER_PROJECT empty_config = Inr c1"
    "if file_exists fs ''Polycallrc'' then parse_config_file fs ''Polycallrc'' LAYER_RUNTIME c1 = Inr c2 else c2 = c1"
    "case language of None \<Rightarrow> c = c2
     | Some l \<Rightarrow> valid_language (Some l) \<and> parse_config_file fs (language_file fs l) LAYER_LANGUAGE c2 = Inr c"
    "ls_paths src = [''Polycallfile''] @ (if file_exists fs ''Polycallrc'' then [''Polycallrc''] else []) @
       (case language of None \<Rightarrow> [] | Some l \<Rightarrow> [snprintf_s 512 (language_file fs l)])"
    "validate_required c True language = []" "file_exists fs ''Polycallfile''"
proof -
  let ?src0 = "\<lparr>ls_paths = [], ls_used_legacy = False\<rparr>"
  have trunc: "snprintf_s 512 ''Polycallfile'' = ''Polycallfile''" "snprintf_s 512 ''Polycallrc'' = ''Polycallrc''"
    by (simp_all add: snprintf_s_id)
  from assms obtain c1 src1 where l1: "load_file fs ''Polycallfile'' LAYER_PROJECT (empty_config, ?src0) = Inr (c1, src1)"
    and ex: "file_exists fs ''Polycallfile''"
    by (auto simp: load_hierarchy_def split: if_splits sum.splits)
  from assms ex l1 obtain c2 src2 where l2: "(if file_exists fs ''Polycallrc''
      then load_file fs ''Polycallrc'' LAYER_RUNTIME (c1, src1) else Inr (c1, src1)) = Inr (c2, src2)"
    by (auto simp: load_hierarchy_def split: sum.splits)
  from assms ex l1 l2 obtain l3: "(case language of None \<Rightarrow> Inr (c2, src2) | Some l \<Rightarrow> load_language fs l (c2, src2)) = Inr (c, src)"
    and req: "validate_required c True language = []"
    by (auto simp: load_hierarchy_def split: sum.splits if_splits)
  show thesis
  proof (rule that [of c1 c2])
    show "parse_config_file fs ''Polycallfile'' LAYER_PROJECT empty_config = Inr c1"
      using load_file_cases [OF l1] by simp
    show "if file_exists fs ''Polycallrc'' then parse_config_file fs ''Polycallrc'' LAYER_RUNTIME c1 = Inr c2 else c2 = c1"
      using l2 by (auto dest!: load_file_cases)
    show "case language of None \<Rightarrow> c = c2
     | Some l \<Rightarrow> valid_language (Some l) \<and> parse_config_file fs (language_file fs l) LAYER_LANGUAGE c2 = Inr c"
      using l3 by (auto split: option.splits dest!: load_language_cases)
    have "ls_paths src1 = [''Polycallfile'']" using load_file_cases [OF l1] trunc by simp
    moreover have "ls_paths src2 = ls_paths src1 @ (if file_exists fs ''Polycallrc'' then [''Polycallrc''] else [])"
      using l2 trunc by (auto dest!: load_file_cases split: if_splits)
    moreover have "ls_paths src = ls_paths src2 @ (case language of None \<Rightarrow> [] | Some l \<Rightarrow> [snprintf_s 512 (language_file fs l)])"
      using l3 by (auto split: option.splits dest!: load_language_cases)
    ultimately show "ls_paths src = [''Polycallfile''] @ (if file_exists fs ''Polycallrc'' then [''Polycallrc''] else []) @
       (case language of None \<Rightarrow> [] | Some l \<Rightarrow> [snprintf_s 512 (language_file fs l)])" by simp
  qed (use req ex in simp_all)
qed

definition layer_settings :: "file_system \<Rightarrow> string \<Rightarrow> string \<Rightarrow> string option" where
  "layer_settings fs path = (case fopen_read fs path of None \<Rightarrow> Map.empty | Some f \<Rightarrow> settings_map (fl_content f))"

lemma get_parse_layer:
  "parse_config_file fs path layer c = Inr c' \<Longrightarrow> config_get c' = config_get c ++ layer_settings fs path"
  using get_parse_config_file [of fs path layer c c'] by (auto simp: layer_settings_def)

lemma config_wf_load:
  assumes "load_hierarchy fs language = Inr (c, src)"
  shows "config_wf c"
  using assms
proof (rule load_hierarchy_cases)
  fix c1 c2
  assume p: "parse_config_file fs ''Polycallfile'' LAYER_PROJECT empty_config = Inr c1"
    "if file_exists fs ''Polycallrc'' then parse_config_file fs ''Polycallrc'' LAYER_RUNTIME c1 = Inr c2 else c2 = c1"
    "case language of None \<Rightarrow> c = c2
     | Some l \<Rightarrow> valid_language (Some l) \<and> parse_config_file fs (language_file fs l) LAYER_LANGUAGE c2 = Inr c"
  have "config_wf c1" using config_wf_parse_file [OF config_wf_empty p(1)] .
  with p(2) have "config_wf c2" by (auto intro: config_wf_parse_file split: if_splits)
  with p(3) show ?thesis by (auto intro: config_wf_parse_file split: option.splits)
qed

lemma copy_blocks_Some: "copy_blocks w n input copied = Some r \<Longrightarrow> r = copied @ input"
proof (induction w n input copied rule: copy_blocks.induct)
  case (1 w n input copied)
  show ?case
  proof (cases "input = []")
    case True
    with "1.prems" show ?thesis by (subst (asm) copy_blocks.simps) simp
  next
    case False
    with "1.prems" have "w n" "copy_blocks w (n + 1) (drop 4096 input) (copied @ take 4096 input) = Some r"
      by (subst (asm) copy_blocks.simps, simp split: if_splits)+
    with "1.IH" [OF False] show ?thesis by simp
  qed
qed

section \<open>A project to run the witnesses on\<close>

definition demo_config :: config where
  "demo_config = \<lparr>cf_servers = [\<lparr>srv_language = ''node'', srv_host_port = 8080, srv_target_port = 8084\<rparr>],
     cf_values = [\<lparr>cv_key = ''workspace_root'', cv_value = ''/w''\<rparr>, \<lparr>cv_key = ''log_directory'', cv_value = ''/l''\<rparr>],
     cf_network_enabled = False, cf_network_seen = False, cf_warnings = 0\<rparr>"

definition demo_fs :: file_system where
  "demo_fs = [''Polycallfile'' \<mapsto> \<lparr>fl_content = show_config demo_config, fl_broken = False, fl_readable = True\<rparr>]"

lemma demo_config_wf: "config_wf demo_config"
  by (simp add: config_wf_def demo_config_def server_ok_def value_ok_def plain_text_def is_space_def trim_fixed
      starts_directive_def validate_value_def string_in_list_def BOOLEAN_KEYS_def POSITIVE_INTEGER_KEYS_def
      word_less_nat_alt word_le_nat_alt)

lemma demo_load:
  obtains w src where "load_hierarchy demo_fs None = Inr (demo_config\<lparr>cf_warnings := w\<rparr>, src)"
proof -
  obtain w where "parse_lines ''Polycallfile'' LAYER_PROJECT False 0 (show_config demo_config) empty_config =
      Inr (demo_config\<lparr>cf_warnings := w\<rparr>)"
    using parse_show_config [OF demo_config_wf] by blast
  moreover have "validate_required (demo_config\<lparr>cf_warnings := w\<rparr>) True None = []" for w
    by (simp add: validate_required_def require_field_def config_get_def demo_config_def)
  ultimately show thesis
    using that by (simp add: load_hierarchy_def file_exists_def fopen_read_def demo_fs_def load_file_def parse_config_file_def
        record_source_def)
qed


lemma strtoul_negative:
  assumes "n < 2 ^ 64"
  shows "strtoul10 ('' -'' @ show_nat n) = (- of_nat n, [], False)"
proof -
  have tw: "takeWhile is_digit (show_nat n) = show_nat n" "dropWhile is_digit (show_nat n) = []"
    unfolding takeWhile_eq_all_conv dropWhile_eq_Nil_conv using show_nat_digits by auto
  show ?thesis using assms by (simp add: strtoul10_def Let_def is_space_def digits_value_show_nat tw)
qed

text \<open>
  A command's result: status 0 or 1, every change of the file system is to the destination,
  which could not be opened before, and a failure removes it if it can.
\<close>

definition harmless :: "output_device \<Rightarrow> string \<Rightarrow> file_system \<Rightarrow> int \<times> string \<times> file_system \<Rightarrow> bool" where
  "harmless dev destination fs r \<longleftrightarrow> (case r of (status, out, fs') \<Rightarrow>
     (\<forall>path. fs' path \<noteq> fs path \<longrightarrow> path = destination \<and> \<not> file_exists fs path \<and> od_creatable dev path) \<and>
     (status \<noteq> 0 \<and> od_remove dev destination \<longrightarrow> fs' destination = fs destination \<or> fs' destination = None) \<and>
     status \<in> {0, 1})"

lemma remove_output_apply:
  "remove_output dev fs destination path \<noteq> fs path \<Longrightarrow> path = destination"
  "od_remove dev destination \<Longrightarrow> remove_output dev fs destination destination = None"
  by (auto simp: remove_output_def split: if_splits)

lemma harmless_migrate: "harmless dev destination fs (migrate_config dev source destination fs)"
proof (cases "file_exists fs destination \<or> \<not> od_creatable dev destination")
  case True
  then show ?thesis
    by (auto simp: harmless_def migrate_config_def split: prod.splits sum.splits option.splits)
next
  case False
  then show ?thesis
    by (auto simp: harmless_def migrate_config_def remove_output_apply(2) dest: remove_output_apply(1)
        split: prod.splits sum.splits option.splits if_splits)
qed

lemma harmless_commands:
  "harmless dev d fs (1, out, fs)"
  "harmless dev d fs (reading fs (load_and_report fs language shown))"
  "harmless dev d fs (reading fs (validate_one fs path))"
  "harmless dev d fs (reading fs (show_rc fs language v))"
  by (auto simp: harmless_def reading_def load_and_report_def validate_one_def show_rc_def Let_def
      split: sum.splits prod.splits)

lemma last_argument:
  "length argv = 5 \<Longrightarrow> last argv = argv ! 4" "length argv = 6 \<Longrightarrow> last argv = argv ! 5"
  by (cases "argv = []"; simp add: last_conv_nth)+

lemma harmless_cli:
  "length argv \<ge> 2 \<Longrightarrow> argv ! 1 = ''config'' \<Longrightarrow> harmless dev (last argv) fs (polycall_config_cli dev argv fs)"
  by (auto simp: polycall_config_cli_def Let_def last_argument harmless_migrate harmless_commands
      simp del: One_nat_def)

text \<open>A file of a language to migrate.\<close>

definition legacy_config :: config where
  "legacy_config = \<lparr>cf_servers = [],
     cf_values = [\<lparr>cv_key = ''workspace'', cv_value = ''/w''\<rparr>, \<lparr>cv_key = ''server_type'', cv_value = ''node''\<rparr>],
     cf_network_enabled = False, cf_network_seen = False, cf_warnings = 0\<rparr>"

definition legacy_fs :: file_system where
  "legacy_fs = [''legacy'' \<mapsto> \<lparr>fl_content = show_config legacy_config, fl_broken = False, fl_readable = True\<rparr>]"

definition willing_device :: output_device where
  "willing_device = \<lparr>od_creatable = \<lambda>_. True, od_fwrite = \<lambda>_ _. True, od_fclose = \<lambda>_. True,
     od_remove = \<lambda>_. True, od_leftover = \<lambda>_. [], od_readable = \<lambda>_. True\<rparr>"

lemma legacy_migrates:
  assumes "fs ''legacy'' = legacy_fs ''legacy''" "\<not> file_exists fs ''Polycallrc.node''"
  shows "\<exists>out. migrate_config willing_device ''legacy'' ''Polycallrc.node'' fs =
    (0, out, fs(''Polycallrc.node'' \<mapsto> fopen_write willing_device fs ''Polycallrc.node'' (show_config legacy_config)))"
proof -
  have ok: "\<forall>v \<in> set (cf_values legacy_config). value_ok v"
    by (simp add: legacy_config_def value_ok_def plain_text_def is_space_def trim_fixed starts_directive_def
        validate_value_def string_in_list_def BOOLEAN_KEYS_def POSITIVE_INTEGER_KEYS_def)
  have s: "show_config legacy_config = concat (map show_value (cf_values legacy_config))"
    by (simp add: show_config_def legacy_config_def)
  obtain w where "parse_lines ''legacy'' LAYER_LANGUAGE False 0 (show_config legacy_config) empty_config =
      Inr (empty_config\<lparr>cf_values := cf_values legacy_config, cf_warnings := w\<rparr>)"
    using parse_values [OF ok, of empty_config "''legacy''" LAYER_LANGUAGE 0]
    unfolding s by (auto simp: empty_config_def legacy_config_def)
  moreover have "validate_required (empty_config\<lparr>cf_values := cf_values legacy_config, cf_warnings := w\<rparr>) False (Some ''node'') = []" for w
    by (simp add: validate_required_def require_field_def config_get_def legacy_config_def)
  moreover have "infer_layer ''Polycallrc.node'' = (LAYER_LANGUAGE, Some ''node'')"
    by (simp add: infer_layer_def base_name_def Let_def)
  moreover have "valid_language (Some ''node'')"
    by (simp add: valid_language_def is_alnum_def is_alpha_def)
  moreover have "copy_blocks (\<lambda>_. True) n input copied = Some (copied @ input)" for n input copied
    by (induction "\<lambda>_ :: nat. True" n input copied rule: copy_blocks.induct) (subst copy_blocks.simps, simp)
  moreover have "fopen_read fs ''legacy'' = Some \<lparr>fl_content = show_config legacy_config, fl_broken = False, fl_readable = True\<rparr>"
    using assms(1) by (simp add: fopen_read_def legacy_fs_def)
  ultimately show ?thesis
    using assms(2) by (auto simp: migrate_config_def parse_config_file_def willing_device_def)
qed

section \<open>Properties\<close>

text \<open>
  C14: every configuration that \<open>polycall config\<close> loads is within its bounds and consistent:
  at most 32 servers with distinct languages of at most 31 characters and ports from 1 to
  65535, at most 128 values with distinct keys, keys and values that fit their buffers and
  pass validation.
\<close>

theorem loaded_config_consistent:
  assumes "load_hierarchy fs language = Inr (c, src)"
  shows "length (cf_servers c) \<le> 32 \<and> distinct (map srv_language (cf_servers c)) \<and>
    (\<forall>s \<in> set (cf_servers c). length (srv_language s) \<le> 31 \<and> 0 < srv_host_port s \<and> srv_host_port s \<le> 65535 \<and>
       0 < srv_target_port s \<and> srv_target_port s \<le> 65535) \<and>
    length (cf_values c) \<le> 128 \<and> distinct (map cv_key (cf_values c)) \<and>
    (\<forall>v \<in> set (cf_values c). length (cv_key v) < 64 \<and> length (cv_value v) < 256 \<and>
       validate_value (cv_key v) (cv_value v) = None)"
  using config_wf_load [OF assms] by (auto simp: config_wf_def server_ok_def value_ok_def)

theorem loaded_config_consistent_witness:
  "\<exists>c src. load_hierarchy demo_fs None = Inr (c, src) \<and> length (cf_servers c) \<le> 32"
proof (rule demo_load)
  fix w src
  assume l: "load_hierarchy demo_fs None = Inr (demo_config\<lparr>cf_warnings := w\<rparr>, src)"
  from loaded_config_consistent [OF l] l show ?thesis by blast
qed

text \<open>
  C15: the hierarchy overrides layer by layer. What a loaded configuration says of a key is
  what the language file sets it to, else what \<open>Polycallrc\<close> sets it to, else what
  \<open>Polycallfile\<close> sets it to; within one file the last line of a key counts. The files were
  read in that order, and \<open>LoadedSources\<close> lists exactly them.
\<close>

theorem hierarchy_overrides:
  assumes "load_hierarchy fs language = Inr (c, src)"
  shows "config_get c = layer_settings fs ''Polycallfile'' ++ layer_settings fs ''Polycallrc'' ++
      (case language of None \<Rightarrow> Map.empty | Some l \<Rightarrow> layer_settings fs (language_file fs l)) \<and>
    ls_paths src = [''Polycallfile''] @ (if file_exists fs ''Polycallrc'' then [''Polycallrc''] else []) @
      (case language of None \<Rightarrow> [] | Some l \<Rightarrow> [snprintf_s 512 (language_file fs l)])"
  using assms
proof (rule load_hierarchy_cases)
  fix c1 c2
  assume p: "parse_config_file fs ''Polycallfile'' LAYER_PROJECT empty_config = Inr c1"
    "if file_exists fs ''Polycallrc'' then parse_config_file fs ''Polycallrc'' LAYER_RUNTIME c1 = Inr c2 else c2 = c1"
    "case language of None \<Rightarrow> c = c2
     | Some l \<Rightarrow> valid_language (Some l) \<and> parse_config_file fs (language_file fs l) LAYER_LANGUAGE c2 = Inr c"
    and s: "ls_paths src = [''Polycallfile''] @ (if file_exists fs ''Polycallrc'' then [''Polycallrc''] else []) @
      (case language of None \<Rightarrow> [] | Some l \<Rightarrow> [snprintf_s 512 (language_file fs l)])"
  have "config_get empty_config = Map.empty" by (simp add: fun_eq_iff config_get_def empty_config_def)
  with get_parse_layer [OF p(1)] have g1: "config_get c1 = layer_settings fs ''Polycallfile''" by simp
  have g2: "config_get c2 = config_get c1 ++ layer_settings fs ''Polycallrc''"
  proof (cases "file_exists fs ''Polycallrc''")
    case True
    with p(2) get_parse_layer show ?thesis by auto
  next
    case False
    with p(2) show ?thesis by (simp add: layer_settings_def file_exists_def)
  qed
  have "config_get c = config_get c2 ++
      (case language of None \<Rightarrow> Map.empty | Some l \<Rightarrow> layer_settings fs (language_file fs l))"
    using p(3) get_parse_layer by (auto split: option.splits)
  with g1 g2 s show ?thesis by simp
qed

theorem hierarchy_overrides_witness:
  "\<exists>c src. load_hierarchy demo_fs None = Inr (c, src) \<and>
     config_get c = layer_settings demo_fs ''Polycallfile'' ++ layer_settings demo_fs ''Polycallrc'' \<and>
     ls_paths src = [''Polycallfile'']"
proof (rule demo_load)
  fix w src
  assume l: "load_hierarchy demo_fs None = Inr (demo_config\<lparr>cf_warnings := w\<rparr>, src)"
  have "\<not> file_exists demo_fs ''Polycallrc''" by (simp add: file_exists_def fopen_read_def demo_fs_def)
  with hierarchy_overrides [OF l] l show ?thesis by auto
qed

text \<open>
  C16: \<open>polycall config show\<close> prints a Polycallfile. Whatever was loaded, the text it prints,
  read back as a project file, gives the same servers, network setting and values, in the
  same order; only the count of warnings can differ.
\<close>

theorem show_reads_back:
  assumes "load_hierarchy fs language = Inr (c, src)"
    and "fs' path = Some \<lparr>fl_content = show_config c, fl_broken = False, fl_readable = True\<rparr>"
  shows "\<exists>w. parse_config_file fs' path LAYER_PROJECT empty_config = Inr (c\<lparr>cf_warnings := w\<rparr>)"
  using parse_show_config [OF config_wf_load [OF assms(1)]] assms(2)
  by (simp add: parse_config_file_def fopen_read_def)

theorem show_reads_back_witness:
  "\<exists>c src w. load_hierarchy demo_fs None = Inr (c, src) \<and>
     parse_config_file [''copy'' \<mapsto> \<lparr>fl_content = show_config c, fl_broken = False, fl_readable = True\<rparr>] ''copy'' LAYER_PROJECT empty_config =
       Inr (c\<lparr>cf_warnings := w\<rparr>)"
proof (rule demo_load)
  fix w src
  let ?c = "demo_config\<lparr>cf_warnings := w\<rparr>"
  assume l: "load_hierarchy demo_fs None = Inr (?c, src)"
  from show_reads_back [OF l, of "[''copy'' \<mapsto> \<lparr>fl_content = show_config ?c, fl_broken = False, fl_readable = True\<rparr>]" "''copy''"] l
  show ?thesis by auto
qed

text \<open>
  Port mappings. An accepted mapping has both ports from 1 to 65535, and every such
  pair is accepted in its decimal form and gives back the pair.
\<close>

theorem port_mappings_exact:
  "(case parse_port_mapping s of None \<Rightarrow> True
    | Some (h, t) \<Rightarrow> h \<in> {1..65535} \<and> t \<in> {1..65535}) \<and>
   (host \<in> {1..65535} \<and> target \<in> {1..65535} \<longrightarrow>
      parse_port_mapping (show_nat (unat host) @ '':'' @ show_nat (unat target)) = Some (host, target))"
proof -
  have pos: "(1 \<le> p) = (0 < p)" for p :: u32
    by (simp add: word_le_nat_alt word_less_nat_alt Suc_le_eq)
  show ?thesis
    using port_mapping_range [of s] port_mapping_roundtrip [of host target]
    by (auto simp: pos split: option.splits)
qed

theorem port_mappings_exact_witness:
  "parse_port_mapping (show_nat (unat (8080 :: u32)) @ '':'' @ show_nat (unat (443 :: u32))) = Some (8080, 443)"
  using port_mappings_exact [of "[]" 8080 443] by (simp add: word_le_nat_alt)

text \<open>
  A negative number can pass as a port. After a space, which the check for a leading
  minus does not look behind, \<open>strtoul\<close> negates the number modulo \<open>2 ^ 64\<close>: the target
  \<open>" -18446744073709551615"\<close> is accepted as port 1, and so on for every port.
\<close>

theorem negative_port_accepted:
  assumes "0 < p" "p \<le> 65535"
  shows "parse_port_mapping (''1: -'' @ show_nat (2 ^ 64 - p)) = Some (1, of_nat p)"
proof -
  let ?n = "2 ^ 64 - p"
  have n: "?n < 2 ^ 64" using assms(1) by simp
  have d: "\<forall>c \<in> set (show_nat ?n). is_digit c" by (rule show_nat_digits)
  have "strtoul10 ('' -'' @ show_nat ?n) = (- of_nat ?n, [], False)"
    by (rule strtoul_negative [OF n])
  moreover have "(- of_nat ?n :: u64) = of_nat p"
  proof -
    have "(of_nat ?n + of_nat p :: u64) = of_nat (?n + p)" by simp
    also have "\<dots> = of_nat (2 ^ 64)" using assms(2) by simp
    also have "\<dots> = 0" by simp
    finally show ?thesis by (rule minus_unique)
  qed
  moreover have "(of_nat p :: u64) \<noteq> 0" "\<not> (of_nat p :: u64) > 65535" "ucast (of_nat p :: u64) = (of_nat p :: u32)"
    using assms by (simp_all add: word_unat_eq_iff unat_of_nat unsigned_of_nat take_bit_nat_eq_self not_less word_le_nat_alt)
  ultimately have right: "parse_positive_integer ('' -'' @ show_nat ?n) = Some (of_nat p)"
    by (simp add: parse_positive_integer_def)
  have "show_nat 1 = ''1''" by code_simp
  with parse_positive_show_nat [of 1] have left: "parse_positive_integer ''1'' = Some 1" by simp
  have "CHR '':'' \<notin> set (show_nat ?n)" using d is_digit_neq(1) by blast
  moreover have "length (show_nat ?n) \<le> 20" by (rule show_nat_length) simp_all
  moreover have "split_at (CHR '':'') (''1: -'' @ show_nat ?n) = Some (''1'', '' -'' @ show_nat ?n)"
    using split_at_append [of "CHR '':''" "''1''" "'' -'' @ show_nat ?n"] by simp
  ultimately show ?thesis
    using left right \<open>\<not> (of_nat p :: u64) > 65535\<close> \<open>ucast (of_nat p :: u64) = (of_nat p :: u32)\<close>
    by (simp add: parse_port_mapping_def word_less_nat_alt)
qed

theorem negative_port_accepted_witness:
  "parse_port_mapping (''1: -'' @ show_nat 18446744073709551615) = Some (1, 1)"
  using negative_port_accepted [of 1] by simp

text \<open>
  Only the project file defines servers and the network. \<open>Polycallrc\<close> and the files of
  a language can change values; the servers and the network setting after them are those
  of \<open>Polycallfile\<close>.
\<close>

theorem runtime_files_keep_servers:
  assumes "load_hierarchy fs language = Inr (c, src)"
  shows "\<exists>project. parse_config_file fs ''Polycallfile'' LAYER_PROJECT empty_config = Inr project \<and>
    cf_servers c = cf_servers project \<and> cf_network_enabled c = cf_network_enabled project \<and>
    cf_network_seen c = cf_network_seen project"
  using assms
proof (rule load_hierarchy_cases)
  fix c1 c2
  assume p: "parse_config_file fs ''Polycallfile'' LAYER_PROJECT empty_config = Inr c1"
    "if file_exists fs ''Polycallrc'' then parse_config_file fs ''Polycallrc'' LAYER_RUNTIME c1 = Inr c2 else c2 = c1"
    "case language of None \<Rightarrow> c = c2
     | Some l \<Rightarrow> valid_language (Some l) \<and> parse_config_file fs (language_file fs l) LAYER_LANGUAGE c2 = Inr c"
  have "cf_servers c2 = cf_servers c1 \<and> cf_network_enabled c2 = cf_network_enabled c1 \<and> cf_network_seen c2 = cf_network_seen c1"
    using p(2) parse_file_layer [of fs "''Polycallrc''" LAYER_RUNTIME c1 c2] by (auto split: if_splits)
  moreover have "cf_servers c = cf_servers c2 \<and> cf_network_enabled c = cf_network_enabled c2 \<and> cf_network_seen c = cf_network_seen c2"
    using p(3) parse_file_layer by (fastforce split: option.splits)
  ultimately show ?thesis using p(1) by simp
qed

theorem runtime_files_keep_servers_witness:
  "\<exists>c src project. load_hierarchy demo_fs None = Inr (c, src) \<and>
     parse_config_file demo_fs ''Polycallfile'' LAYER_PROJECT empty_config = Inr project \<and>
     cf_servers c = cf_servers project"
proof (rule demo_load)
  fix w src
  assume l: "load_hierarchy demo_fs None = Inr (demo_config\<lparr>cf_warnings := w\<rparr>, src)"
  from runtime_files_keep_servers [OF l] l show ?thesis by blast
qed

text \<open>
  What a successful load guarantees to its user: the workspace root and the log
  directory are set; with TLS enabled, a certificate and a key file are; and for a
  language, a workspace is set and the server type is that language.
\<close>

theorem loaded_config_complete:
  assumes "load_hierarchy fs language = Inr (c, src)"
  shows "config_get c ''workspace_root'' \<noteq> None \<and> config_get c ''log_directory'' \<noteq> None \<and>
    (config_get c ''tls_enabled'' = Some ''true'' \<longrightarrow>
       config_get c ''cert_file'' \<noteq> None \<and> config_get c ''key_file'' \<noteq> None) \<and>
    (\<forall>l. language = Some l \<longrightarrow>
       valid_language (Some l) \<and> config_get c ''workspace'' \<noteq> None \<and> config_get c ''server_type'' = Some l)"
  using assms
proof (rule load_hierarchy_cases)
  fix c1 c2
  assume r: "validate_required c True language = []"
    and v: "case language of None \<Rightarrow> c = c2
     | Some l \<Rightarrow> valid_language (Some l) \<and> parse_config_file fs (language_file fs l) LAYER_LANGUAGE c2 = Inr c"
  have "require_field c k = [] \<longleftrightarrow> config_get c k \<noteq> None" for k
    by (simp add: require_field_def del: not_None_eq)
  with r v show ?thesis
    by (auto simp: validate_required_def simp del: not_None_eq split: if_splits option.splits)
qed

theorem loaded_config_complete_witness:
  "\<exists>c src. load_hierarchy demo_fs None = Inr (c, src) \<and> config_get c ''workspace_root'' \<noteq> None"
proof (rule demo_load)
  fix w src
  assume l: "load_hierarchy demo_fs None = Inr (demo_config\<lparr>cf_warnings := w\<rparr>, src)"
  from loaded_config_complete [OF l] l show ?thesis by blast
qed

text \<open>
  C17: the commands do not touch what they can open. Whatever its arguments and whatever
  the operating system does, the only path \<open>polycall config\<close> can change is its last argument,
  and only if that could not be opened for reading before and can be opened for writing; a
  command that fails leaves that path as it was or removed, unless \<open>remove\<close> fails too. Its
  status is -1 exactly when the arguments are not a configuration command. A file that is
  there but may not be read counts as absent (\<open>migration_overwrites_unreadable\<close>).
\<close>

theorem config_commands_preserve_files:
  assumes "polycall_config_cli dev argv fs = (status, out, fs')"
  shows "(\<forall>path. fs' path \<noteq> fs path \<longrightarrow>
      path = last argv \<and> \<not> file_exists fs path \<and> od_creatable dev path) \<and>
    (status \<noteq> 0 \<and> od_remove dev (last argv) \<longrightarrow> fs' (last argv) = fs (last argv) \<or> fs' (last argv) = None) \<and>
    (status = -1 \<longleftrightarrow> length argv < 2 \<or> argv ! 1 \<noteq> ''config'') \<and> status \<in> {-1, 0, 1}"
proof (cases "length argv < 2 \<or> argv ! 1 \<noteq> ''config''")
  case True
  with assms have "status = -1" "fs' = fs" by (auto simp: polycall_config_cli_def Let_def)
  with True show ?thesis by simp
next
  case False
  with harmless_cli [of argv dev fs] assms show ?thesis by (auto simp: harmless_def)
qed

theorem config_commands_preserve_files_witness:
  "\<exists>status out fs'. polycall_config_cli willing_device
      [''polycall'', ''config'', ''migrate'', ''legacy'', ''legacy''] legacy_fs = (status, out, fs') \<and>
     fs' ''legacy'' = legacy_fs ''legacy'' \<and> status \<in> {0, 1}"
proof -
  obtain status out fs' where c: "polycall_config_cli willing_device
      [''polycall'', ''config'', ''migrate'', ''legacy'', ''legacy''] legacy_fs = (status, out, fs')"
    by (rule prod_cases3)
  have "file_exists legacy_fs ''legacy''" by (simp add: file_exists_def fopen_read_def legacy_fs_def)
  with config_commands_preserve_files [OF c] c show ?thesis by auto
qed

text \<open>
  A migration that reports success has written exactly the source to the destination,
  which could not be opened before and is named for a language; the source parses as a file
  of that language with every required field; and no other file changed.
\<close>

theorem migration_copies:
  assumes "migrate_config dev source destination fs = (0, out, fs')"
  shows "\<exists>input l c. fs source = Some input \<and> \<not> file_exists fs destination \<and>
    fs' = fs(destination \<mapsto> fopen_write dev fs destination (fl_content input)) \<and>
    base_name destination = ''Polycallrc.'' @ l \<and> valid_language (Some l) \<and>
    parse_config_file fs source LAYER_LANGUAGE empty_config = Inr c \<and> validate_required c False (Some l) = []"
proof -
  obtain l where l: "infer_layer destination = (LAYER_LANGUAGE, Some l)" "valid_language (Some l)"
    using assms by (auto simp: migrate_config_def split: if_splits prod.splits)
  have "base_name destination = ''Polycallrc.'' @ l"
  proof -
    have "take 11 (base_name destination) = ''Polycallrc.''" "l = drop 11 (base_name destination)"
      using l(1) by (auto simp: infer_layer_def Let_def split: if_splits)
    then show ?thesis by (metis append_take_drop_id)
  qed
  moreover have "fopen_read fs source = Some input \<Longrightarrow> fs source = Some input" for input
    by (auto simp: fopen_read_def split: option.splits if_splits)
  ultimately show ?thesis using assms l
    by (auto simp: migrate_config_def simp del: not_None_eq
        split: if_splits sum.splits option.splits dest!: copy_blocks_Some)
qed

theorem migration_copies_witness:
  "\<exists>out fs'. migrate_config willing_device ''legacy'' ''Polycallrc.node'' legacy_fs = (0, out, fs') \<and>
     fs' ''legacy'' = legacy_fs ''legacy''"
proof -
  have "\<not> file_exists legacy_fs ''Polycallrc.node''" by (simp add: file_exists_def fopen_read_def legacy_fs_def)
  then obtain out fs' where m: "migrate_config willing_device ''legacy'' ''Polycallrc.node'' legacy_fs = (0, out, fs')"
    using legacy_migrates by blast
  from migration_copies [OF m] m show ?thesis by auto
qed

text \<open>
  A destination that is there but may not be read is overwritten: \<open>file_exists\<close> tries to open
  it for reading, fails, and the migration opens it for writing and truncates it.
\<close>

theorem migration_overwrites_unreadable:
  fixes secret :: stored_file
  defines "fs \<equiv> legacy_fs(''Polycallrc.node'' \<mapsto> secret)"
  assumes "\<not> fl_readable secret"
  shows "\<exists>out fs'. polycall_config_cli willing_device
      [''polycall'', ''config'', ''migrate'', ''legacy'', ''Polycallrc.node''] fs = (0, out, fs') \<and>
    map_option fl_content (fs' ''Polycallrc.node'') = Some (show_config legacy_config)"
proof -
  have "fs ''legacy'' = legacy_fs ''legacy''" "\<not> file_exists fs ''Polycallrc.node''"
    using assms(2) by (simp_all add: fs_def file_exists_def fopen_read_def)
  from legacy_migrates [OF this] obtain out where
    "migrate_config willing_device ''legacy'' ''Polycallrc.node'' fs =
      (0, out, fs(''Polycallrc.node'' \<mapsto> fopen_write willing_device fs ''Polycallrc.node'' (show_config legacy_config)))"
    by blast
  then show ?thesis by (simp add: polycall_config_cli_def fopen_write_def)
qed

theorem migration_overwrites_unreadable_witness:
  "\<exists>out fs'. polycall_config_cli willing_device
      [''polycall'', ''config'', ''migrate'', ''legacy'', ''Polycallrc.node'']
      (legacy_fs(''Polycallrc.node'' \<mapsto> \<lparr>fl_content = ''mine'', fl_broken = False, fl_readable = False\<rparr>)) = (0, out, fs')"
  using migration_overwrites_unreadable [of "\<lparr>fl_content = ''mine'', fl_broken = False, fl_readable = False\<rparr>"] by fastforce

end
