(* ===== verification/Memory.thy ===== *)
theory Memory
  imports Polycall_Prelude
begin

text \<open>
  The allocations of the C heap the tokens point into: a block is named by its index, and
  is gone (\<open>None\<close>) once it was freed; block names are never reused. A pointer is NULL or a
  block and an offset. Freeing or reading what may not be freed or read is undefined
  behaviour, \<open>None\<close> as the result of the operation. The locale \<open>allocator\<close> states what
  owners of several blocks rely on; the interpretation gives it for \<open>malloc\<close> and \<open>free\<close>.
\<close>

section \<open>Ownership of several blocks\<close>

locale allocator =
  fixes alloc :: "'c \<Rightarrow> 'm \<Rightarrow> 'b \<times> 'm"
    and release :: "'b \<Rightarrow> 'm \<Rightarrow> 'm option"
    and contents :: "'m \<Rightarrow> 'b \<Rightarrow> 'c option"
  assumes alloc_fresh: "alloc c m = (b, m') \<Longrightarrow> contents m b = None"
    and alloc_contents: "alloc c m = (b, m') \<Longrightarrow> contents m' k = (if k = b then Some c else contents m k)"
    and release_live: "contents m b \<noteq> None \<Longrightarrow> \<exists>m'. release b m = Some m'"
    and release_dead: "contents m b = None \<Longrightarrow> release b m = None"
    and release_contents:
      "release b m = Some m' \<Longrightarrow> contents m' k = (if k = b then None else contents m k)"
begin

definition release_all :: "'b list \<Rightarrow> 'm option \<Rightarrow> 'm option" where
  "release_all bs = fold (\<lambda>b mo. Option.bind mo (release b)) bs"

lemma release_all_undefined: "release_all bs None = None"
  by (induction bs) (simp_all add: release_all_def)

text \<open>Releasing succeeds exactly on distinct live blocks, and takes away exactly those.\<close>

lemma release_all_Some:
  "release_all bs (Some m) \<noteq> None \<longleftrightarrow> distinct bs \<and> (\<forall>b \<in> set bs. contents m b \<noteq> None)"
proof (induction bs arbitrary: m)
  case Nil
  then show ?case by (simp add: release_all_def)
next
  case (Cons b bs)
  show ?case
  proof (cases "release b m")
    case None
    with release_live [of m b] have "contents m b = None" by (cases "contents m b") auto
    with None release_all_undefined show ?thesis by (simp add: release_all_def)
  next
    case (Some m')
    with release_dead [of m b] have live: "contents m b \<noteq> None" by auto
    from Some have "release_all (b # bs) (Some m) = release_all bs (Some m')"
      by (simp add: release_all_def)
    with Cons.IH [of m'] release_contents [OF Some] live show ?thesis
      by (auto split: if_splits)
  qed
qed

lemma release_all_contents:
  "release_all bs (Some m) = Some m' \<Longrightarrow>
   contents m' k = (if k \<in> set bs then None else contents m k)"
proof (induction bs arbitrary: m)
  case Nil
  then show ?case by (simp add: release_all_def)
next
  case (Cons b bs)
  then obtain m1 where "release b m = Some m1" "release_all bs (Some m1) = Some m'"
    using release_all_undefined [of bs] by (cases "release b m") (auto simp: release_all_def)
  with Cons.IH release_contents show ?case by simp
qed

text \<open>A block two owners both release is released once too often.\<close>

lemma release_shared:
  assumes "release_all bs (Some m) = Some m'" "b \<in> set bs" "b \<in> set cs"
  shows "release_all cs (Some m') = None"
  using release_all_Some [of cs m'] release_all_contents [OF assms(1), of b] assms(2,3) by auto

lemma alloc_release:
  assumes "alloc c m = (b, m')"
  shows "\<exists>m''. release b m' = Some m'' \<and> (\<forall>k. contents m'' k = contents m k)"
proof -
  obtain m'' where r: "release b m' = Some m''"
    using release_live [of m' b] alloc_contents [OF assms, of b] by auto
  moreover have "contents m'' k = contents m k" for k
    using release_contents [OF r, of k] alloc_contents [OF assms, of k] alloc_fresh [OF assms] by simp
  ultimately show ?thesis by auto
qed

end


section \<open>The heap\<close>

type_synonym memory = "string option list"

datatype pointer = Null | Ptr nat nat

text \<open>Blocks of any kind of contents: strings here, the nodes of syntax trees elsewhere.\<close>

definition block :: "'c option list \<Rightarrow> nat \<Rightarrow> 'c option" where
  "block m b = (if b < length m then m ! b else None)"

definition malloc :: "'c \<Rightarrow> 'c option list \<Rightarrow> nat \<times> 'c option list" where
  "malloc c m = (length m, m @ [Some c])"

definition free_block :: "nat \<Rightarrow> 'c option list \<Rightarrow> 'c option list option" where
  "free_block b m = (if block m b = None then None else Some (m[b := None]))"

text \<open>\<open>free(p)\<close>: NULL is fine, anything but the start of a live block is not.\<close>

fun free :: "pointer \<Rightarrow> memory \<Rightarrow> memory option" where
  "free Null m = Some m"
| "free (Ptr b offset) m = (if offset = 0 then free_block b m else None)"

text \<open>The \<open>n\<close> bytes at a pointer.\<close>

fun read_bytes :: "memory \<Rightarrow> pointer \<Rightarrow> nat \<Rightarrow> string option" where
  "read_bytes m Null n = (if n = 0 then Some [] else None)"
| "read_bytes m (Ptr b offset) n =
     (case block m b of None \<Rightarrow> None
      | Some c \<Rightarrow> if offset + n \<le> length c then Some (take n (drop offset c)) else None)"

interpretation heap: allocator malloc free_block block
  by unfold_locales
     (auto simp: malloc_def free_block_def block_def nth_append nth_list_update split: if_splits)

lemma block_update: "block m b \<noteq> None \<Longrightarrow> block (m[b := c]) k = (if k = b then c else block m k)"
  by (auto simp: block_def nth_list_update split: if_splits)


section \<open>Running code\<close>

text \<open>
  The result of code that may meet undefined behaviour, and may not return within the fuel
  it was given (\<open>None\<close>).
\<close>

datatype 'a outcome = Undefined | Returned 'a

type_synonym 'a run = "'a outcome option"

definition returns :: "'a \<Rightarrow> 'a run" where [simp]: "returns x = Some (Returned x)"

definition run_then :: "'a run \<Rightarrow> ('a \<Rightarrow> 'b run) \<Rightarrow> 'b run" where
  "run_then r f = (case r of None \<Rightarrow> None | Some Undefined \<Rightarrow> Some Undefined | Some (Returned x) \<Rightarrow> f x)"

text \<open>A value that must be there, and a loop over a list.\<close>

definition need :: "'a option \<Rightarrow> ('a \<Rightarrow> 'b run) \<Rightarrow> 'b run" where
  "need x f = (case x of None \<Rightarrow> Some Undefined | Some y \<Rightarrow> f y)"

fun fold_run :: "('a \<Rightarrow> 's \<Rightarrow> 's run) \<Rightarrow> 'a list \<Rightarrow> 's \<Rightarrow> 's run" where
  "fold_run f [] s = returns s"
| "fold_run f (x # xs) s = run_then (f x s) (fold_run f xs)"

lemma run_then_simps [simp]:
  "run_then None f = None" "run_then (Some Undefined) f = Some Undefined"
  "run_then (Some (Returned x)) f = f x"
  by (simp_all add: run_then_def)

lemma need_simps [simp]: "need None f = Some Undefined" "need (Some x) f = f x"
  by (simp_all add: need_def)

lemma run_then_Returned:
  "run_then r f = Some (Returned y) \<longleftrightarrow> (\<exists>x. r = Some (Returned x) \<and> f x = Some (Returned y))"
  by (cases r rule: option.exhaust; simp; case_tac x2; simp)

lemma need_Returned: "need x f = Some (Returned y) \<longleftrightarrow> (\<exists>z. x = Some z \<and> f z = Some (Returned y))"
  by (cases x) simp_all

lemma fold_run_append: "fold_run f (xs @ ys) s = run_then (fold_run f xs s) (fold_run f ys)"
  by (induction xs arbitrary: s) (auto simp: run_then_def split: option.splits outcome.splits)

text \<open>A loop keeps what every turn keeps.\<close>

lemma fold_run_invariant:
  assumes "fold_run f xs s = Some (Returned s')" "P s"
    and "\<And>x s s'. x \<in> set xs \<Longrightarrow> P s \<Longrightarrow> f x s = Some (Returned s') \<Longrightarrow> P s'"
  shows "P s'"
  using assms by (induction xs arbitrary: s) (auto simp: run_then_Returned)

text \<open>It ends, in a result or in undefined behaviour, if every turn does.\<close>

lemma fold_run_not_None:
  assumes "\<And>x s. x \<in> set xs \<Longrightarrow> P s \<Longrightarrow> f x s \<noteq> None"
    and "\<And>x s s'. x \<in> set xs \<Longrightarrow> P s \<Longrightarrow> f x s = Some (Returned s') \<Longrightarrow> P s'" "P s"
  shows "fold_run f xs s \<noteq> None"
  using assms
proof (induction xs arbitrary: s)
  case (Cons x xs)
  obtain r where r: "f x s = Some r" using Cons.prems(1) [of x s] Cons.prems(3) by auto
  show ?case
  proof (cases r)
    case (Returned s')
    have "P s'" using Cons.prems(2) [of x s s'] Cons.prems(3) r Returned by simp
    have "fold_run f xs s' \<noteq> None"
    proof (rule Cons.IH)
      fix y t assume "y \<in> set xs" "P t"
      then show "f y t \<noteq> None" using Cons.prems(1) [of y t] by simp
    next
      fix y t t' assume "y \<in> set xs" "P t" "f y t = Some (Returned t')"
      then show "P t'" using Cons.prems(2) [of y t t'] by simp
    qed fact
    with r Returned show ?thesis by simp
  qed (use r in simp)
qed simp


section \<open>Sequences of operations that may not return\<close>

text \<open>
  The counterpart of \<open>stepwise_invariant\<close> for operations that may block or be undefined. The
  first that does ends the sequence; the invariant is about the states that are reached.
\<close>

locale run_invariant =
  fixes step :: "'e \<Rightarrow> 's \<Rightarrow> 's run"
    and inv :: "'s \<Rightarrow> bool"
  assumes inv_step: "inv s \<Longrightarrow> step e s = Some (Returned s') \<Longrightarrow> inv s'"
begin

lemma inv_run: "fold_run step es s = Some (Returned s') \<Longrightarrow> inv s \<Longrightarrow> inv s'"
  by (erule fold_run_invariant) (auto intro: inv_step)

lemma run_ends:
  assumes "\<And>e s. e \<in> set es \<Longrightarrow> inv s \<Longrightarrow> step e s \<noteq> None" "inv s"
  shows "fold_run step es s \<noteq> None"
  by (rule fold_run_not_None [where P = inv]) (use assms inv_step in blast)+

lemma run_returns:
  assumes "\<And>e s. e \<in> set es \<Longrightarrow> inv s \<Longrightarrow> \<exists>s'. step e s = Some (Returned s')" "inv s"
  shows "\<exists>s'. fold_run step es s = Some (Returned s')"
  using assms
proof (induction es arbitrary: s)
  case (Cons e es)
  then obtain s' where s': "step e s = Some (Returned s')" by force
  with Cons.IH [of s'] Cons.prems inv_step [of s e s'] show ?case by simp
qed simp

text \<open>What happens after a sequence that returned is a sequence too.\<close>

lemma run_append: "fold_run step (es @ fs) s = run_then (fold_run step es s) (fold_run step fs)"
  by (rule fold_run_append)

end

end
