(* ===== verification/Token.thy ===== *)
theory Token
  imports Memory
begin

text \<open>
  \<open>src/polycall_token.c\<close> and \<open>include/polycall_token.h\<close>: tagged values, tokens, token
  arrays and the operations on them. String values are pointers into the heap of
  \<open>Memory\<close>, and copying a token copies the pointer. An array is the list of its entries in
  use with its capacity; the memory of the arrays themselves is not part of the heap. A
  \<open>double\<close> is its 64 bits. Where an operation could meet undefined behaviour its result is
  an option, \<open>None\<close> for that.
\<close>

section \<open>Data\<close>

datatype value_type = VALUE_NONE | VALUE_INTEGER | VALUE_FLOAT | VALUE_STRING | VALUE_IDENTIFIER

datatype polycall_value =
    NoneValue
  | IntegerValue u64
  | FloatValue u64
  | StringValue pointer u32
  | IdentifierValue pointer u32

datatype token_type =
    TOKEN_INVALID | TOKEN_IDENTIFIER | TOKEN_NUMBER | TOKEN_STRING | TOKEN_OPERATOR
  | TOKEN_KEYWORD | TOKEN_SEPARATOR | TOKEN_COMMENT | TOKEN_EOF

definition TOKEN_FLAG_NONE :: u32 where "TOKEN_FLAG_NONE = 0x00"
definition TOKEN_FLAG_ERROR :: u32 where "TOKEN_FLAG_ERROR = 0x04"

record polycall_token =
  tk_value :: polycall_value
  tk_type :: token_type
  tk_flags :: u32
  tk_line :: u32
  tk_column :: u32
  tk_length :: u32

record token_array =
  ta_tokens :: "polycall_token list"
  ta_capacity :: u32
  ta_error_count :: u32
  ta_line :: u32
  ta_column :: u32

type_synonym token_operation = "polycall_token \<Rightarrow> polycall_token"
type_synonym token_predicate = "polycall_token \<Rightarrow> bool"


section \<open>Values\<close>

text \<open>What \<open>data\<close> points to; reading it as another type is undefined.\<close>

datatype value_data = IntegerData u64 | FloatData u64 | TextData string

text \<open>A copy of \<open>strlen + 1\<close> bytes, both counted in \<open>uint32_t\<close>.\<close>

definition copy_text :: "bool \<Rightarrow> (pointer \<Rightarrow> u32 \<Rightarrow> polycall_value) \<Rightarrow> string \<Rightarrow> memory
    \<Rightarrow> polycall_value \<times> memory" where
  "copy_text malloc_ok wrap src m =
     (if malloc_ok
      then let len = of_nat (length (cstr src)) :: u32;
               (b, m') = malloc (take (unat (len + 1)) (cstr src @ [NUL])) m
           in (wrap (Ptr b 0) len, m')
      else (NoneValue, m))"

fun polycall_value_create ::
  "bool \<Rightarrow> value_type \<Rightarrow> value_data option \<Rightarrow> memory \<Rightarrow> (polycall_value \<times> memory) option" where
  "polycall_value_create malloc_ok VALUE_NONE data m = Some (NoneValue, m)"
| "polycall_value_create malloc_ok VALUE_INTEGER None m = Some (IntegerValue 0, m)"
| "polycall_value_create malloc_ok VALUE_FLOAT None m = Some (FloatValue 0, m)"
| "polycall_value_create malloc_ok VALUE_STRING None m = Some (StringValue Null 0, m)"
| "polycall_value_create malloc_ok VALUE_IDENTIFIER None m = Some (IdentifierValue Null 0, m)"
| "polycall_value_create malloc_ok VALUE_INTEGER (Some (IntegerData i)) m = Some (IntegerValue i, m)"
| "polycall_value_create malloc_ok VALUE_FLOAT (Some (FloatData d)) m = Some (FloatValue d, m)"
| "polycall_value_create malloc_ok VALUE_STRING (Some (TextData s)) m =
     Some (copy_text malloc_ok StringValue s m)"
| "polycall_value_create malloc_ok VALUE_IDENTIFIER (Some (TextData s)) m =
     Some (copy_text malloc_ok IdentifierValue s m)"
| "polycall_value_create malloc_ok _ _ m = None"

text \<open>The pointer a value holds, as \<open>string_value.data\<close>.\<close>

fun value_pointer :: "polycall_value \<Rightarrow> pointer" where
  "value_pointer (StringValue p n) = p"
| "value_pointer (IdentifierValue p n) = p"
| "value_pointer v = Null"

text \<open>The value becomes \<open>VALUE_NONE\<close>; its string is freed.\<close>

definition polycall_value_destroy ::
  "polycall_value option \<Rightarrow> memory \<Rightarrow> (polycall_value option \<times> memory) option" where
  "polycall_value_destroy value m =
     (case value of None \<Rightarrow> Some (None, m)
      | Some v \<Rightarrow> map_option (Pair (Some NoneValue)) (free (value_pointer v) m))"

text \<open>\<open>==\<close> on \<open>double\<close>: a NaN differs from everything, the two zeros are equal.\<close>

definition magnitude :: "u64 \<Rightarrow> u64" where
  "magnitude d = d AND 0x7FFFFFFFFFFFFFFF"

definition is_nan :: "u64 \<Rightarrow> bool" where
  "is_nan d \<longleftrightarrow> 0x7FF0000000000000 < magnitude d"

definition double_eq :: "u64 \<Rightarrow> u64 \<Rightarrow> bool" where
  "double_eq a b \<longleftrightarrow> \<not> is_nan a \<and> \<not> is_nan b \<and> (a = b \<or> magnitude a = 0 \<and> magnitude b = 0)"

definition same_text :: "memory \<Rightarrow> pointer \<Rightarrow> u32 \<Rightarrow> pointer \<Rightarrow> u32 \<Rightarrow> bool option" where
  "same_text m p n q k =
     (if n \<noteq> k then Some False
      else case (read_bytes m p (unat n), read_bytes m q (unat n)) of
             (Some s, Some t) \<Rightarrow> Some (s = t) | _ \<Rightarrow> None)"

fun polycall_value_equals ::
  "memory \<Rightarrow> polycall_value option \<Rightarrow> polycall_value option \<Rightarrow> bool option" where
  "polycall_value_equals m None b = Some False"
| "polycall_value_equals m a None = Some False"
| "polycall_value_equals m (Some (IntegerValue i)) (Some (IntegerValue j)) = Some (i = j)"
| "polycall_value_equals m (Some (FloatValue d)) (Some (FloatValue e)) = Some (double_eq d e)"
| "polycall_value_equals m (Some (StringValue p n)) (Some (StringValue q k)) = same_text m p n q k"
| "polycall_value_equals m (Some (IdentifierValue p n)) (Some (IdentifierValue q k)) = same_text m p n q k"
| "polycall_value_equals m (Some NoneValue) (Some NoneValue) = Some True"
| "polycall_value_equals m (Some a) (Some b) = Some False"


section \<open>Arrays\<close>

text \<open>\<open>calloc_ok\<close> is whether both allocations succeed.\<close>

definition polycall_token_create_array :: "bool \<Rightarrow> u32 \<Rightarrow> token_array option" where
  "polycall_token_create_array calloc_ok capacity =
     (if \<not> calloc_ok then None
      else Some \<lparr>ta_tokens = [], ta_capacity = (if capacity = 0 then 16 else capacity),
                 ta_error_count = 0, ta_line = 1, ta_column = 1\<rparr>)"

fun destroy_values :: "polycall_token list \<Rightarrow> memory \<Rightarrow> memory option" where
  "destroy_values [] m = Some m"
| "destroy_values (t # ts) m =
     (case polycall_value_destroy (Some (tk_value t)) m of None \<Rightarrow> None
      | Some (_, m') \<Rightarrow> destroy_values ts m')"

definition polycall_token_destroy_array :: "token_array option \<Rightarrow> memory \<Rightarrow> memory option" where
  "polycall_token_destroy_array array m =
     (case array of None \<Rightarrow> Some m | Some a \<Rightarrow> destroy_values (ta_tokens a) m)"

definition invalid_token :: polycall_token where
  "invalid_token = \<lparr>tk_value = NoneValue, tk_type = TOKEN_INVALID, tk_flags = TOKEN_FLAG_ERROR,
     tk_line = 0, tk_column = 0, tk_length = 0\<rparr>"

definition polycall_token_map :: "polycall_token option \<Rightarrow> token_operation option \<Rightarrow> polycall_token" where
  "polycall_token_map token op =
     (case (token, op) of (Some t, Some f) \<Rightarrow> f t | _ \<Rightarrow> invalid_token)"

text \<open>
  Appending to a result array: at the capacity it is doubled, in \<open>uint32_t\<close>. A \<open>realloc\<close>
  that fails (\<open>realloc_ok\<close>, by the new capacity) gives the array up and destroys it; a
  doubling that wraps to a size the next write does not fit in is undefined.
\<close>

definition append_token ::
  "(u32 \<Rightarrow> bool) \<Rightarrow> polycall_token \<Rightarrow> token_array \<Rightarrow> memory
     \<Rightarrow> (token_array option \<times> memory) option" where
  "append_token realloc_ok t r m =
     (let new_cap = ta_capacity r * 2
      in if length (ta_tokens r) < unat (ta_capacity r)
         then Some (Some (r\<lparr>ta_tokens := ta_tokens r @ [t]\<rparr>), m)
         else if \<not> realloc_ok new_cap
         then map_option (Pair None) (polycall_token_destroy_array (Some r) m)
         else if unat new_cap \<le> length (ta_tokens r) then None
         else Some (Some (r\<lparr>ta_capacity := new_cap, ta_tokens := ta_tokens r @ [t]\<rparr>), m))"

text \<open>The loop over the source: \<open>f t\<close> is what is appended for \<open>t\<close>, if anything.\<close>

fun append_from ::
  "(u32 \<Rightarrow> bool) \<Rightarrow> (polycall_token \<Rightarrow> polycall_token option) \<Rightarrow> polycall_token list
     \<Rightarrow> token_array \<Rightarrow> memory \<Rightarrow> (token_array option \<times> memory) option" where
  "append_from realloc_ok f [] r m = Some (Some r, m)"
| "append_from realloc_ok f (t # ts) r m =
     (case f t of None \<Rightarrow> append_from realloc_ok f ts r m
      | Some t' \<Rightarrow> (case append_token realloc_ok t' r m of None \<Rightarrow> None
          | Some (None, m') \<Rightarrow> Some (None, m')
          | Some (Some r', m') \<Rightarrow> append_from realloc_ok f ts r' m'))"

definition polycall_token_filter ::
  "bool \<Rightarrow> (u32 \<Rightarrow> bool) \<Rightarrow> token_array option \<Rightarrow> token_predicate option \<Rightarrow> memory
     \<Rightarrow> (token_array option \<times> memory) option" where
  "polycall_token_filter calloc_ok realloc_ok array pred m =
     (case (array, pred) of
        (Some a, Some p) \<Rightarrow> (case polycall_token_create_array calloc_ok (ta_capacity a) of
            None \<Rightarrow> Some (None, m)
          | Some r \<Rightarrow> append_from realloc_ok (\<lambda>t. if p t then Some t else None) (ta_tokens a) r m)
      | _ \<Rightarrow> Some (None, m))"

text \<open>The chain of operations; NULL entries are skipped.\<close>

definition apply_operations :: "token_operation option list \<Rightarrow> polycall_token \<Rightarrow> polycall_token" where
  "apply_operations ops t = fold (\<lambda>op c. case op of None \<Rightarrow> c | Some f \<Rightarrow> f c) ops t"

definition polycall_token_chain ::
  "bool \<Rightarrow> (u32 \<Rightarrow> bool) \<Rightarrow> token_array option \<Rightarrow> token_operation option list option \<Rightarrow> memory
     \<Rightarrow> (token_array option \<times> memory) option" where
  "polycall_token_chain calloc_ok realloc_ok array ops m =
     (case (array, ops) of
        (Some a, Some os) \<Rightarrow>
          if os = [] then Some (None, m)
          else (case polycall_token_create_array calloc_ok (ta_capacity a) of
              None \<Rightarrow> Some (None, m)
            | Some r \<Rightarrow> append_from realloc_ok (\<lambda>t. Some (apply_operations os t)) (ta_tokens a) r m)
      | _ \<Rightarrow> Some (None, m))"

end
