(* ===== verification/Tokenizer.thy ===== *)
theory Tokenizer
  imports Token
begin

text \<open>
  \<open>src/polycall_tokenizer.c\<close> and \<open>include/polycall_tokenizer.h\<close>: the pattern matchers, the
  input buffer, and the scanning loop. A matcher gets a C string and returns the length it
  stored when it matched. The buffer is a block of the heap of \<open>Memory\<close>; its contents before
  the first input are whatever \<open>malloc\<close> gives. \<open>strtod\<close>, which rounds to a \<open>double\<close>, is a
  parameter. Positions, lines and columns are \<open>size_t\<close> and bounded by the buffer.
\<close>

section \<open>Pattern matchers\<close>

type_synonym matcher = "string \<Rightarrow> nat option"

text \<open>Reading character \<open>i\<close> of a C string; the one after the last is its NUL.\<close>

definition char_at :: "string \<Rightarrow> nat \<Rightarrow> char" where
  "char_at s i = (if i < length s then s ! i else NUL)"

text \<open>\<open>while (p(s[i])) i++\<close> for a class \<open>p\<close> that NUL is not in.\<close>

definition skip_while :: "(char \<Rightarrow> bool) \<Rightarrow> string \<Rightarrow> nat \<Rightarrow> nat" where
  "skip_while p s i = i + length (takeWhile p (drop i s))"

definition is_identifier_start :: "char \<Rightarrow> bool" where
  "is_identifier_start c \<longleftrightarrow> is_alpha c \<or> c = CHR ''_''"

definition is_identifier_part :: "char \<Rightarrow> bool" where
  "is_identifier_part c \<longleftrightarrow> is_alnum c \<or> c = CHR ''_''"

definition polycall_tokenizer_match_identifier :: matcher where
  "polycall_tokenizer_match_identifier input =
     (if \<not> is_identifier_start (char_at input 0) then None
      else Some (skip_while is_identifier_part input 1))"

definition is_sign :: "char \<Rightarrow> bool" where
  "is_sign c \<longleftrightarrow> c = CHR ''+'' \<or> c = CHR ''-''"

text \<open>The digits after a decimal point, and the exponent.\<close>

definition match_fraction :: "string \<Rightarrow> nat \<Rightarrow> nat option" where
  "match_fraction input pos =
     (if char_at input pos = CHR ''.''
      then if \<not> is_digit (char_at input (pos + 1)) then None
           else Some (skip_while is_digit input (pos + 1))
      else Some pos)"

definition match_exponent :: "string \<Rightarrow> nat \<Rightarrow> nat option" where
  "match_exponent input pos =
     (if (char_at input pos = CHR ''e'' \<or> char_at input pos = CHR ''E'') \<and> pos > 0
      then let exp_pos = (if is_sign (char_at input (pos + 1)) then pos + 2 else pos + 1)
           in if \<not> is_digit (char_at input exp_pos) then None
              else Some (skip_while is_digit input exp_pos)
      else Some pos)"

definition polycall_tokenizer_match_number :: matcher where
  "polycall_tokenizer_match_number input =
     (let pos = (if is_sign (char_at input 0) then 1 else 0)
      in if \<not> is_digit (char_at input pos) then None
         else Option.bind (match_fraction input (skip_while is_digit input pos)) (match_exponent input))"

text \<open>The loop over the characters after the opening quote: \<open>None\<close> if no quote ends it.\<close>

fun match_quote :: "bool \<Rightarrow> nat \<Rightarrow> string \<Rightarrow> nat option" where
  "match_quote escaped pos [] = None"
| "match_quote escaped pos (c # cs) =
     (if escaped then match_quote False (pos + 1) cs
      else if c = CHR 0x22 then Some (pos + 1)
      else match_quote (c = CHR 0x5C) (pos + 1) cs)"

definition polycall_tokenizer_match_string :: matcher where
  "polycall_tokenizer_match_string input =
     (if char_at input 0 \<noteq> CHR 0x22 then None else match_quote False 1 (tl input))"

definition operator_texts :: "string list" where
  "operator_texts =
     [''++'', ''--'', ''+='', ''-='', ''*='', ''/='',
      ''=='', ''!='', ''>='', ''<='', ''&&'', ''||'',
      ''+'', ''-'', ''*'', ''/'', ''%'',
      ''='', ''<'', ''>'', ''!'', ''&'', ''|'']"

definition polycall_tokenizer_match_operator :: matcher where
  "polycall_tokenizer_match_operator input =
     map_option length (List.find (\<lambda>op. take (length op) input = op) operator_texts)"


section \<open>Data\<close>

datatype tokenizer_state =
    TOKENIZER_STATE_READY | TOKENIZER_STATE_SCANNING | TOKENIZER_STATE_ERROR | TOKENIZER_STATE_EOF
  | TOKENIZER_STATE_COMMENT | TOKENIZER_STATE_STRING | TOKENIZER_STATE_NUMBER
  | TOKENIZER_STATE_IDENTIFIER

record tokenizer_config =
  tc_buffer :: nat
  tc_token :: nat
  tc_identifier :: nat
  tc_string :: nat
  tc_flags :: u32

definition POLYCALL_TOKENIZER_DEFAULT_CONFIG :: tokenizer_config where
  "POLYCALL_TOKENIZER_DEFAULT_CONFIG =
     \<lparr>tc_buffer = 4096, tc_token = 256, tc_identifier = 64, tc_string = 1024, tc_flags = 0\<rparr>"

record token_pattern =
  pt_match :: matcher
  pt_produces :: token_type

record token_consumer =
  cn_consume :: token_operation
  cn_accepts :: token_type

text \<open>\<open>count\<close> is the length of both arrays.\<close>

record tokenizer_ops =
  op_patterns :: "token_pattern list"
  op_consumers :: "token_consumer list"

record tokenizer =
  tz_buffer :: nat
  tz_size :: nat
  tz_position :: nat
  tz_line :: nat
  tz_column :: nat
  tz_state :: tokenizer_state
  tz_error_message :: "string option"
  tz_error_count :: u32
  tz_tokens :: token_array
  tz_config :: tokenizer_config

definition ERROR_BUFFER_OVERFLOW :: string where "ERROR_BUFFER_OVERFLOW = ''Buffer overflow''"
definition ERROR_INVALID_INPUT :: string where "ERROR_INVALID_INPUT = ''Invalid input''"

definition set_error_state :: "string \<Rightarrow> tokenizer \<Rightarrow> tokenizer" where
  "set_error_state message tz =
     tz\<lparr>tz_state := TOKENIZER_STATE_ERROR, tz_error_message := Some message,
        tz_error_count := tz_error_count tz + 1\<rparr>"

definition reset_state :: "tokenizer \<Rightarrow> tokenizer" where
  "reset_state tz =
     tz\<lparr>tz_state := TOKENIZER_STATE_READY, tz_line := 1, tz_column := 1, tz_position := 0,
        tz_error_message := None\<rparr>"


section \<open>Management\<close>

text \<open>
  \<open>calloc_ok\<close>, \<open>malloc_ok\<close> and \<open>array_ok\<close> are the outcomes of the allocations, \<open>fresh\<close>
  what the new buffer contains. A token limit of 0 is a division by zero.
\<close>

definition polycall_tokenizer_create ::
  "bool \<Rightarrow> bool \<Rightarrow> bool \<Rightarrow> (nat \<Rightarrow> char) \<Rightarrow> tokenizer_config option \<Rightarrow> memory
     \<Rightarrow> (tokenizer option \<times> memory) option" where
  "polycall_tokenizer_create calloc_ok malloc_ok array_ok fresh config m =
     (let actual = (case config of None \<Rightarrow> POLYCALL_TOKENIZER_DEFAULT_CONFIG | Some c \<Rightarrow> c);
          (b, m') = malloc (map fresh [0..<tc_buffer actual]) m
      in if \<not> calloc_ok \<or> \<not> malloc_ok then Some (None, m)
         else if tc_token actual = 0 then None
         else case polycall_token_create_array array_ok (of_nat (tc_buffer actual div tc_token actual)) of
                None \<Rightarrow> map_option (Pair None) (free (Ptr b 0) m')
              | Some a \<Rightarrow> Some (Some (reset_state \<lparr>tz_buffer = b, tz_size = tc_buffer actual,
                  tz_position = 0, tz_line = 0, tz_column = 0, tz_state = TOKENIZER_STATE_READY,
                  tz_error_message = None, tz_error_count = 0, tz_tokens = a, tz_config = actual\<rparr>), m'))"

text \<open>The buffer is freed before the values of the tokens.\<close>

definition polycall_tokenizer_destroy :: "tokenizer option \<Rightarrow> memory \<Rightarrow> memory option" where
  "polycall_tokenizer_destroy tokenizer m =
     (case tokenizer of None \<Rightarrow> Some m
      | Some tz \<Rightarrow> Option.bind (free (Ptr (tz_buffer tz) 0) m)
                    (polycall_token_destroy_array (Some (tz_tokens tz))))"

definition polycall_tokenizer_reset :: "tokenizer option \<Rightarrow> tokenizer option" where
  "polycall_tokenizer_reset = map_option (\<lambda>tz. (reset_state tz)\<lparr>tz_tokens := (tz_tokens tz)
     \<lparr>ta_tokens := [], ta_error_count := 0, ta_line := 1, ta_column := 1\<rparr>\<rparr>)"

text \<open>
  \<open>input\<close> is the memory behind the pointer: fewer than \<open>len\<close> bytes are read past their end.
  The NUL after the input is written even where the input fills the buffer.
\<close>

definition polycall_tokenizer_set_input ::
  "tokenizer option \<Rightarrow> string option \<Rightarrow> nat \<Rightarrow> memory \<Rightarrow> (bool \<times> tokenizer option \<times> memory) option" where
  "polycall_tokenizer_set_input tokenizer input len m =
     (case (tokenizer, input) of
        (Some tz, Some text) \<Rightarrow>
          if len = 0 then Some (False, Some tz, m)
          else if len > tz_size tz
          then Some (False, Some (set_error_state ERROR_BUFFER_OVERFLOW tz), m)
          else (case block m (tz_buffer tz) of None \<Rightarrow> None
            | Some old \<Rightarrow>
                if length text < len \<or> length old \<le> len then None
                else Some (True, Some (reset_state tz),
                           m[tz_buffer tz := Some (take len text @ [NUL] @ drop (len + 1) old)]))
      | _ \<Rightarrow> Some (False, tokenizer, m))"


section \<open>Scanning\<close>

text \<open>\<open>strtoll(s, NULL, 10)\<close>: clamped to 64 bits.\<close>

definition strtoll10 :: "string \<Rightarrow> u64" where
  "strtoll10 s =
     (let t = dropWhile is_space s;
          negative = (t \<noteq> [] \<and> hd t = CHR ''-'');
          u = (if t \<noteq> [] \<and> is_sign (hd t) then tl t else t);
          v = int (digits_value 0 (takeWhile is_digit u))
      in if negative then word_of_int (max (- (2 ^ 63)) (- v)) else word_of_int (min (2 ^ 63 - 1) v))"

text \<open>\<open>text\<close> is the C string at \<open>start\<close>: to the end of the input, not of the token.\<close>

definition number_value :: "(string \<Rightarrow> u64) \<Rightarrow> string \<Rightarrow> polycall_value" where
  "number_value strtod text =
     (if CHR ''.'' \<notin> set text then IntegerValue (strtoll10 text) else FloatValue (strtod text))"

definition create_token ::
  "(string \<Rightarrow> u64) \<Rightarrow> tokenizer \<Rightarrow> token_type \<Rightarrow> string \<Rightarrow> nat \<Rightarrow> polycall_token" where
  "create_token strtod tz type text len =
     \<lparr>tk_value = (case type of
          TOKEN_IDENTIFIER \<Rightarrow> IdentifierValue (Ptr (tz_buffer tz) (tz_position tz)) (of_nat len)
        | TOKEN_NUMBER \<Rightarrow> number_value strtod text
        | TOKEN_STRING \<Rightarrow> StringValue (Ptr (tz_buffer tz) (tz_position tz + 1)) (of_nat len - 2)
        | _ \<Rightarrow> NoneValue),
      tk_type = type, tk_flags = TOKEN_FLAG_NONE, tk_line = of_nat (tz_line tz),
      tk_column = of_nat (tz_column tz), tk_length = of_nat len\<rparr>"

text \<open>A token beyond the capacity is dropped.\<close>

definition add_token :: "polycall_token \<Rightarrow> tokenizer \<Rightarrow> tokenizer" where
  "add_token t tz =
     (if length (ta_tokens (tz_tokens tz)) < unat (ta_capacity (tz_tokens tz))
      then tz\<lparr>tz_tokens := (tz_tokens tz)\<lparr>ta_tokens := ta_tokens (tz_tokens tz) @ [t]\<rparr>\<rparr>
      else tz)"

definition accept_token ::
  "(string \<Rightarrow> u64) \<Rightarrow> token_type \<Rightarrow> token_consumer \<Rightarrow> string \<Rightarrow> nat \<Rightarrow> tokenizer \<Rightarrow> tokenizer" where
  "accept_token strtod type consumer text len tz =
     (let token = create_token strtod tz type text len;
          consumed = (if cn_accepts consumer = tk_type token then cn_consume consumer token else token);
          tz' = add_token consumed tz
      in tz'\<lparr>tz_position := tz_position tz' + len, tz_column := tz_column tz' + len\<rparr>)"

text \<open>The first pattern that matches, with the consumer at its index.\<close>

fun try_patterns ::
  "(string \<Rightarrow> u64) \<Rightarrow> (token_pattern \<times> token_consumer) list \<Rightarrow> string \<Rightarrow> tokenizer \<Rightarrow> tokenizer option" where
  "try_patterns strtod [] text tz = None"
| "try_patterns strtod ((p, c) # pcs) text tz =
     (case pt_match p text of
        None \<Rightarrow> try_patterns strtod pcs text tz
      | Some len \<Rightarrow> Some (accept_token strtod (pt_produces p) c text len tz))"

definition skip_space :: "char \<Rightarrow> tokenizer \<Rightarrow> tokenizer" where
  "skip_space c tz =
     (if c = CHR 0x0A then tz\<lparr>tz_line := tz_line tz + 1, tz_column := 1, tz_position := tz_position tz + 1\<rparr>
      else tz\<lparr>tz_column := tz_column tz + 1, tz_position := tz_position tz + 1\<rparr>)"

text \<open>
  One turn of the loop at a position inside the buffer. A matcher that is handed bytes with
  no NUL up to the end of the buffer may read past it: \<open>Overrun\<close>.
\<close>

datatype scan_result = Advanced tokenizer | Rejected tokenizer | Overrun

definition scan_step ::
  "(string \<Rightarrow> u64) \<Rightarrow> (token_pattern \<times> token_consumer) list \<Rightarrow> string \<Rightarrow> tokenizer \<Rightarrow> scan_result" where
  "scan_step strtod pcs buf tz =
     (let rest = drop (tz_position tz) buf
      in if is_space (hd rest) then Advanced (skip_space (hd rest) tz)
         else if NUL \<notin> set rest \<and> pcs \<noteq> [] then Overrun
         else case try_patterns strtod pcs (cstr rest) tz of
                None \<Rightarrow> Rejected (set_error_state ERROR_INVALID_INPUT tz)
              | Some tz' \<Rightarrow> Advanced tz')"

definition eof_token :: "tokenizer \<Rightarrow> polycall_token" where
  "eof_token tz = \<lparr>tk_value = NoneValue, tk_type = TOKEN_EOF, tk_flags = TOKEN_FLAG_NONE,
     tk_line = of_nat (tz_line tz), tk_column = of_nat (tz_column tz), tk_length = 0\<rparr>"

text \<open>
  The loop runs over the whole buffer, \<open>input.size\<close>, and not over the input. A match of
  length 0 is repeated for ever (\<open>None\<close>); \<open>Undefined\<close> is an overrun.
\<close>

partial_function (option) process_loop ::
  "(string \<Rightarrow> u64) \<Rightarrow> (token_pattern \<times> token_consumer) list \<Rightarrow> string \<Rightarrow> tokenizer
     \<Rightarrow> (bool \<times> tokenizer) run" where
  "process_loop strtod pcs buf tz =
     (if tz_position tz < tz_size tz
      then (case scan_step strtod pcs buf tz of
              Advanced tz' \<Rightarrow> process_loop strtod pcs buf tz'
            | Rejected tz' \<Rightarrow> Some (Returned (False, tz'))
            | Overrun \<Rightarrow> Some Undefined)
      else Some (Returned (True, (add_token (eof_token tz) tz)\<lparr>tz_state := TOKENIZER_STATE_READY\<rparr>)))"

definition polycall_tokenizer_process ::
  "(string \<Rightarrow> u64) \<Rightarrow> tokenizer option \<Rightarrow> tokenizer_ops option \<Rightarrow> memory
     \<Rightarrow> (bool \<times> tokenizer option) run" where
  "polycall_tokenizer_process strtod tokenizer ops m =
     (case (tokenizer, ops) of
        (Some tz, Some os) \<Rightarrow>
          (case block m (tz_buffer tz) of None \<Rightarrow> Some Undefined
           | Some buf \<Rightarrow>
               map_option (\<lambda>r. case r of Undefined \<Rightarrow> Undefined | Returned (ok, tz') \<Rightarrow> Returned (ok, Some tz'))
                 (process_loop strtod (zip (op_patterns os) (op_consumers os)) buf
                    (tz\<lparr>tz_state := TOKENIZER_STATE_SCANNING\<rparr>)))
      | _ \<Rightarrow> Some (Returned (False, tokenizer)))"


section \<open>Operations and accessors\<close>

text \<open>\<open>memcpy\<close> of \<open>count\<close> entries of each array; \<open>malloc_ok\<close> covers the three allocations.\<close>

definition polycall_tokenizer_create_ops ::
  "bool \<Rightarrow> token_pattern list option \<Rightarrow> token_consumer list option \<Rightarrow> nat \<Rightarrow> tokenizer_ops option" where
  "polycall_tokenizer_create_ops malloc_ok patterns consumers count =
     (case (patterns, consumers) of
        (Some ps, Some cs) \<Rightarrow>
          if count = 0 \<or> \<not> malloc_ok then None
          else Some \<lparr>op_patterns = take count ps, op_consumers = take count cs\<rparr>
      | _ \<Rightarrow> None)"

definition polycall_tokenizer_compose_ops ::
  "bool \<Rightarrow> tokenizer_ops option \<Rightarrow> tokenizer_ops option \<Rightarrow> tokenizer_ops option" where
  "polycall_tokenizer_compose_ops malloc_ok ops1 ops2 =
     (case (ops1, ops2) of
        (Some a, Some b) \<Rightarrow>
          if \<not> malloc_ok then None
          else Some \<lparr>op_patterns = op_patterns a @ op_patterns b,
                     op_consumers = op_consumers a @ op_consumers b\<rparr>
      | _ \<Rightarrow> None)"

text \<open>The object is freed: the caller's pointer dangles.\<close>

definition polycall_tokenizer_destroy_ops :: "tokenizer_ops option \<Rightarrow> tokenizer_ops option" where
  "polycall_tokenizer_destroy_ops ops = None"

definition polycall_tokenizer_get_tokens :: "tokenizer option \<Rightarrow> token_array option" where
  "polycall_tokenizer_get_tokens = map_option tz_tokens"

definition polycall_tokenizer_get_error :: "tokenizer option \<Rightarrow> string option" where
  "polycall_tokenizer_get_error tokenizer = Option.bind tokenizer tz_error_message"

definition polycall_tokenizer_get_state :: "tokenizer option \<Rightarrow> tokenizer_state" where
  "polycall_tokenizer_get_state tokenizer =
     (case tokenizer of None \<Rightarrow> TOKENIZER_STATE_ERROR | Some tz \<Rightarrow> tz_state tz)"

end
