(* ===== verification/Lexical.thy ===== *)
theory Lexical
  imports Tokenizer
begin

text \<open>
  The languages the four pattern matchers of \<open>src/polycall_tokenizer.c\<close> are meant to match,
  independent of how they scan, and the contract \<open>token_matcher\<close>: what is matched is in the
  language and no longer prefix of the input is. Each matcher is an instance.
\<close>

section \<open>The contract of a matcher\<close>

locale token_matcher =
  fixes match :: matcher and lang :: "string \<Rightarrow> bool"
  assumes matched: "match s = Some n \<Longrightarrow> n \<le> length s \<and> lang (take n s)"
    and longest: "match s = Some n \<Longrightarrow> k \<le> length s \<Longrightarrow> lang (take k s) \<Longrightarrow> k \<le> n"
    and nonempty: "\<not> lang []"
begin

lemma progress: "match s = Some n \<Longrightarrow> 0 < n \<and> n \<le> length s"
  using matched [of s n] nonempty by (cases n) auto

lemma refuses_empty: "match [] = None"
  using progress [of "[]"] by (cases "match []") auto

text \<open>Maximal munch: the match is the longest prefix in the language.\<close>

lemma munch:
  "match s = Some n \<Longrightarrow> lang (take n s) \<and> (\<forall>k. n < k \<and> k \<le> length s \<longrightarrow> \<not> lang (take k s))"
  using matched longest not_less by blast

end


section \<open>Scanning\<close>

lemma char_at_append: "i < length t \<Longrightarrow> char_at (t @ r) i = t ! i"
  by (simp add: char_at_def nth_append)

lemma char_at_class: "p (char_at s i) \<Longrightarrow> \<not> p NUL \<Longrightarrow> i < length s \<and> p (s ! i)"
  by (auto simp: char_at_def split: if_splits)

text \<open>Skipping over a class that NUL is not in stays inside the string.\<close>

lemma skip_while_bound: "i \<le> length s \<Longrightarrow> i \<le> skip_while p s i \<and> skip_while p s i \<le> length s"
  using length_takeWhile_le [of p "drop i s"] by (simp add: skip_while_def)

lemma take_skip_while:
  "take (skip_while p s i) s = take i s @ takeWhile p (drop i s)"
  unfolding skip_while_def take_add
  by (metis append_take_drop_id takeWhile_eq_take)

text \<open>Over a run of the class, and exactly to its end where another character follows.\<close>

lemma skip_while_run:
  assumes "\<forall>c \<in> set d. p c"
  shows "length (t @ d) \<le> skip_while p (t @ d @ r) (length t)"
    and "r \<noteq> [] \<Longrightarrow> \<not> p (hd r) \<Longrightarrow> skip_while p (t @ d @ r) (length t) = length (t @ d)"
  using assms by (simp_all add: skip_while_def takeWhile_append2 takeWhile_tail) (cases r; simp)

lemma take_nonempty_run:
  assumes "p (char_at s i)" "\<not> p NUL"
  shows "takeWhile p (drop i s) \<noteq> []" "i < length s"
  using char_at_class [of p s i, OF assms] by (simp_all add: Cons_nth_drop_Suc [symmetric])


section \<open>Identifiers\<close>

fun identifier_text :: "string \<Rightarrow> bool" where
  "identifier_text [] \<longleftrightarrow> False"
| "identifier_text (c # cs) \<longleftrightarrow> is_identifier_start c \<and> list_all is_identifier_part cs"

lemma class_NUL [simp]:
  "\<not> is_identifier_start NUL" "\<not> is_identifier_part NUL" "\<not> is_digit NUL" "\<not> is_sign NUL"
  by (simp_all add: is_identifier_start_def is_identifier_part_def is_alnum_def is_alpha_def
      is_digit_def is_sign_def)

interpretation idents: token_matcher polycall_tokenizer_match_identifier identifier_text
proof
  fix s n k
  assume m: "polycall_tokenizer_match_identifier s = Some n"
  then obtain c cs where s: "s = c # cs" "is_identifier_start c"
    by (cases s) (auto simp: polycall_tokenizer_match_identifier_def char_at_def split: if_splits)
  with m have n: "n = Suc (length (takeWhile is_identifier_part cs))"
    by (simp add: polycall_tokenizer_match_identifier_def char_at_def skip_while_def)
  have "take n s = c # takeWhile is_identifier_part cs"
    by (simp add: n s(1)) (metis takeWhile_eq_take)
  then show "n \<le> length s \<and> identifier_text (take n s)"
    using s n by (auto simp: length_takeWhile_le list_all_iff dest: set_takeWhileD)
  assume k: "k \<le> length s" "identifier_text (take k s)"
  then obtain j where j: "k = Suc j" by (cases k) auto
  from k s have "\<forall>c \<in> set (take j cs). is_identifier_part c" by (simp add: j list_all_iff)
  then have "takeWhile is_identifier_part (take j cs @ drop j cs) =
      take j cs @ takeWhile is_identifier_part (drop j cs)"
    by (rule takeWhile_append2 [OF bspec])
  then have "j \<le> length (takeWhile is_identifier_part cs)"
    using k s j by (metis append_take_drop_id le_add1 length_Cons length_append length_take min.absorb2 Suc_le_mono)
  then show "k \<le> n" by (simp add: n j)
qed simp


section \<open>Numbers\<close>

definition digit_run :: "string \<Rightarrow> bool" where
  "digit_run ds \<longleftrightarrow> ds \<noteq> [] \<and> list_all is_digit ds"

definition sign_text :: "string \<Rightarrow> bool" where
  "sign_text s \<longleftrightarrow> s = [] \<or> (\<exists>c. is_sign c \<and> s = [c])"

inductive fraction_text :: "string \<Rightarrow> bool" where
  no_fraction: "fraction_text []"
| fraction: "digit_run ds \<Longrightarrow> fraction_text (CHR ''.'' # ds)"

inductive exponent_text :: "string \<Rightarrow> bool" where
  no_exponent: "exponent_text []"
| exponent: "c = CHR ''e'' \<or> c = CHR ''E'' \<Longrightarrow> sign_text s \<Longrightarrow> digit_run ds \<Longrightarrow> exponent_text (c # s @ ds)"

inductive number_text :: "string \<Rightarrow> bool" where
  number: "sign_text s \<Longrightarrow> digit_run ds \<Longrightarrow> fraction_text f \<Longrightarrow> exponent_text e \<Longrightarrow>
    number_text (s @ ds @ f @ e)"

lemma digit_run_skip:
  assumes "is_digit (char_at s i)"
  shows "\<exists>ds. digit_run ds \<and> take (skip_while is_digit s i) s = take i s @ ds" "i < length s"
proof -
  show "\<exists>ds. digit_run ds \<and> take (skip_while is_digit s i) s = take i s @ ds"
    using take_nonempty_run(1) [of is_digit, OF assms]
    by (intro exI [of _ "takeWhile is_digit (drop i s)"])
       (auto simp: digit_run_def take_skip_while list_all_iff dest: set_takeWhileD)
  show "i < length s" using take_nonempty_run(2) [of is_digit, OF assms] by simp
qed

lemma not_digit_marks [simp]:
  "\<not> is_digit CHR ''.''" "\<not> is_digit CHR ''e''" "\<not> is_digit CHR ''E''" "\<not> is_digit CHR ''+''"
  "\<not> is_digit CHR ''-''"
  by (simp_all add: is_digit_def)

lemma match_fraction_Some:
  assumes "match_fraction s p = Some q" "p \<le> length s"
  shows "p \<le> q \<and> q \<le> length s \<and> (\<exists>f. fraction_text f \<and> take q s = take p s @ f)"
proof (cases "char_at s p = CHR ''.''")
  case False
  with assms show ?thesis by (auto simp: match_fraction_def intro: no_fraction)
next
  case True
  with assms(1) have d: "is_digit (char_at s (p + 1))" and q: "q = skip_while is_digit s (p + 1)"
    by (auto simp: match_fraction_def split: if_splits)
  from digit_run_skip [OF d] obtain ds where ds: "digit_run ds" "take q s = take (p + 1) s @ ds"
    and p: "p + 1 < length s" by (auto simp: q)
  with True have "take (p + 1) s = take p s @ [CHR ''.'']" by (simp add: char_at_def take_Suc_conv_app_nth)
  with ds have "fraction_text (CHR ''.'' # ds) \<and> take q s = take p s @ CHR ''.'' # ds"
    by (auto intro: fraction)
  with skip_while_bound [of "p + 1" s is_digit] p q show ?thesis by auto
qed

lemma match_exponent_Some:
  assumes "match_exponent s p = Some q" "p \<le> length s"
  shows "p \<le> q \<and> q \<le> length s \<and> (\<exists>e. exponent_text e \<and> take q s = take p s @ e)"
proof (cases "(char_at s p = CHR ''e'' \<or> char_at s p = CHR ''E'') \<and> p > 0")
  case False
  with assms show ?thesis by (auto simp: match_exponent_def intro: no_exponent)
next
  case True
  define x where "x = (if is_sign (char_at s (p + 1)) then p + 2 else p + 1)"
  from True assms(1) have d: "is_digit (char_at s x)" and q: "q = skip_while is_digit s x"
    by (auto simp: match_exponent_def x_def Let_def split: if_splits)
  from digit_run_skip [OF d] obtain ds where ds: "digit_run ds" "take q s = take x s @ ds"
    and x: "x < length s" by (auto simp: q)
  obtain sg where "sign_text sg" "take x s = take p s @ s ! p # sg"
  proof (cases "is_sign (char_at s (p + 1))")
    case True
    with x have "take x s = take p s @ [s ! p, s ! (p + 1)]" "is_sign (s ! (p + 1))"
      by (simp_all add: x_def char_at_def numeral_2_eq_2 take_Suc_conv_app_nth)
    then show ?thesis by (intro that [of "[s ! (p + 1)]"]) (auto simp: sign_text_def)
  next
    case False
    with x have "take x s = take p s @ [s ! p]" by (simp add: x_def take_Suc_conv_app_nth)
    then show ?thesis by (intro that [of "[]"]) (simp_all add: sign_text_def)
  qed
  moreover have "s ! p = CHR ''e'' \<or> s ! p = CHR ''E''"
    using True x by (auto simp: char_at_def x_def split: if_splits)
  ultimately have "exponent_text (s ! p # sg @ ds) \<and> take q s = take p s @ s ! p # sg @ ds"
    using ds by (auto intro: exponent)
  moreover have "p \<le> q \<and> q \<le> length s"
    using skip_while_bound [of x s is_digit] x q by (simp add: x_def split: if_splits)
  ultimately show ?thesis by blast
qed

lemma fraction_covers:
  assumes "fraction_text f" "match_fraction (t @ f @ r) (length t) = Some q"
  shows "length (t @ f) \<le> q"
    and "r \<noteq> [] \<Longrightarrow> \<not> is_digit (hd r) \<Longrightarrow> hd r \<noteq> CHR ''.'' \<Longrightarrow> q = length (t @ f)"
proof -
  have "length (t @ f) \<le> q \<and> (r \<noteq> [] \<longrightarrow> \<not> is_digit (hd r) \<longrightarrow> hd r \<noteq> CHR ''.'' \<longrightarrow> q = length (t @ f))"
    using assms(1)
  proof cases
    case no_fraction
    with assms(2) show ?thesis
      by (cases r) (auto simp: match_fraction_def char_at_def skip_while_def split: if_splits)
  next
    case (fraction ds)
    with assms(2) have "q = skip_while is_digit ((t @ [CHR ''.'']) @ ds @ r) (length (t @ [CHR ''.'']))"
      by (auto simp: match_fraction_def char_at_def split: if_splits)
    with fraction skip_while_run [where p = is_digit and d = ds and t = "t @ [CHR ''.'']" and r = r]
    show ?thesis by (auto simp: digit_run_def list_all_iff)
  qed
  then show "length (t @ f) \<le> q"
    and "r \<noteq> [] \<Longrightarrow> \<not> is_digit (hd r) \<Longrightarrow> hd r \<noteq> CHR ''.'' \<Longrightarrow> q = length (t @ f)" by auto
qed

lemma exponent_covers:
  assumes "exponent_text e" "t \<noteq> []" "match_exponent (t @ e @ r) (length t) = Some q"
  shows "length (t @ e) \<le> q"
  using assms(1)
proof cases
  case no_exponent
  with assms match_exponent_Some [OF assms(3)] show ?thesis by auto
next
  case (exponent c s ds)
  from exponent(4) obtain d ds' where ds: "ds = d # ds'" "is_digit d"
    by (cases ds) (auto simp: digit_run_def)
  then have nd: "\<not> is_sign d" by (auto simp: is_digit_def is_sign_def)
  have "q = skip_while is_digit ((t @ c # s) @ ds @ r) (length (t @ c # s))"
    using assms exponent(1-3) ds nd
    by (auto simp: match_exponent_def char_at_def sign_text_def nth_append Let_def split: if_splits)
  with exponent skip_while_run(1) [where p = is_digit and d = ds and t = "t @ c # s" and r = r]
  show ?thesis by (auto simp: digit_run_def list_all_iff)
qed

lemma match_number_Some:
  assumes "polycall_tokenizer_match_number s = Some n"
  shows "n \<le> length s \<and> number_text (take n s)"
proof -
  define i where "i = (if is_sign (char_at s 0) then 1 else 0 :: nat)"
  define p where "p = skip_while is_digit s i"
  from assms obtain q where d: "is_digit (char_at s i)" and q: "match_fraction s p = Some q"
    and n: "match_exponent s q = Some n"
    by (auto simp: polycall_tokenizer_match_number_def i_def p_def Let_def bind_eq_Some_conv split: if_splits)
  from digit_run_skip [OF d] obtain ds where ds: "digit_run ds" "take p s = take i s @ ds"
    and i: "i < length s" by (auto simp: p_def)
  have sg: "sign_text (take i s)"
    using i by (cases s) (auto simp: i_def sign_text_def char_at_def split: if_splits)
  have p: "p \<le> length s" using skip_while_bound [of i s is_digit] i by (simp add: p_def)
  from match_fraction_Some [OF q p] obtain f where f: "fraction_text f" "take q s = take p s @ f"
    and ql: "q \<le> length s" by auto
  from match_exponent_Some [OF n ql] obtain e where e: "exponent_text e" "take n s = take q s @ e"
    and "n \<le> length s" by auto
  then show ?thesis
    using number [OF sg ds(1) f(1) e(1)] ds f e by simp
qed

lemma match_number_covers:
  assumes "number_text t" "polycall_tokenizer_match_number (t @ r) = Some n"
  shows "length t \<le> n"
  using assms(1)
proof cases
  case (number sg ds f e)
  from number(3) obtain d ds' where ds: "ds = d # ds'" "is_digit d"
    by (cases ds) (auto simp: digit_run_def)
  then have nd: "\<not> is_sign d" by (auto simp: is_digit_def is_sign_def)
  define p where "p = skip_while is_digit (sg @ ds @ (f @ e @ r)) (length sg)"
  from assms(2) obtain q where q: "match_fraction (t @ r) p = Some q" and n: "match_exponent (t @ r) q = Some n"
    using number(1,2) ds nd
    by (auto simp: polycall_tokenizer_match_number_def char_at_def sign_text_def p_def Let_def
        bind_eq_Some_conv split: if_splits)
  have run: "\<forall>c \<in> set ds. is_digit c" using number(3) by (simp add: digit_run_def list_all_iff)
  have covers: "length (sg @ ds) \<le> p" and exact: "f @ e \<noteq> [] \<Longrightarrow> p = length (sg @ ds)"
    using skip_while_run [where p = is_digit and d = ds and t = sg and r = "f @ e @ r", OF run] number(4,5)
    by (auto simp: p_def elim!: fraction_text.cases exponent_text.cases)
  have pb: "p \<le> length (t @ r)"
    using skip_while_bound [of "length sg" "t @ r" is_digit] number(1) by (simp add: p_def)
  have step: "p \<le> q" "q \<le> n"
    using match_fraction_Some [OF q pb] match_exponent_Some [OF n] by auto
  show ?thesis
  proof (cases "e = []")
    case True
    show ?thesis
    proof (cases "f = []")
      case True
      with \<open>e = []\<close> covers step number(1) show ?thesis by simp
    next
      case False
      then have "p = length (sg @ ds)" using exact by simp
      with fraction_covers(1) [of f "sg @ ds" r q] q step number(1,4) True show ?thesis by simp
    qed
  next
    case False
    then obtain c e' where e: "e = c # e'" "c = CHR ''e'' \<or> c = CHR ''E''"
      using number(5) by (auto elim: exponent_text.cases)
    have "p = length (sg @ ds)" using exact False by simp
    with fraction_covers(2) [of f "sg @ ds" "e @ r" q] q number(1,4) e
    have "q = length ((sg @ ds) @ f)" by auto
    with exponent_covers [OF number(5), of "sg @ ds @ f" r n] n number(1) ds show ?thesis by simp
  qed
qed

interpretation numbers: token_matcher polycall_tokenizer_match_number number_text
proof
  fix s n k
  assume m: "polycall_tokenizer_match_number s = Some n"
  then show "n \<le> length s \<and> number_text (take n s)" by (rule match_number_Some)
  assume k: "k \<le> length s" "number_text (take k s)"
  with match_number_covers [of "take k s" "drop k s" n] m show "k \<le> n" by simp
next
  show "\<not> number_text []" by (auto simp: digit_run_def elim: number_text.cases)
qed

text \<open>It misses some numbers: a point must have digits behind it.\<close>

lemma number_point_refused:
  assumes "digit_run ds" "r = [] \<or> \<not> is_digit (hd r)"
  shows "polycall_tokenizer_match_number (ds @ CHR ''.'' # r) = None"
proof -
  obtain d ds' where ds: "ds = d # ds'" "is_digit d" using assms(1) by (cases ds) (auto simp: digit_run_def)
  then have "\<not> is_sign d" by (auto simp: is_digit_def is_sign_def)
  moreover have "skip_while is_digit (ds @ CHR ''.'' # r) 0 = length ds"
    using skip_while_run(2) [where p = is_digit and d = ds and t = "[]" and r = "CHR ''.'' # r"] assms(1)
    by (simp add: digit_run_def list_all_iff)
  ultimately show ?thesis
    using ds assms(2) by (cases r) (auto simp: polycall_tokenizer_match_number_def match_fraction_def
        char_at_def nth_append Let_def)
qed


section \<open>Strings\<close>

text \<open>Between the quotes, a backslash makes the next character ordinary.\<close>

inductive string_body :: "string \<Rightarrow> bool" where
  empty_body: "string_body []"
| plain: "c \<noteq> CHR 0x22 \<Longrightarrow> c \<noteq> CHR 0x5C \<Longrightarrow> string_body b \<Longrightarrow> string_body (c # b)"
| escape: "string_body b \<Longrightarrow> string_body (CHR 0x5C # c # b)"

definition string_text :: "string \<Rightarrow> bool" where
  "string_text t \<longleftrightarrow> (\<exists>b. string_body b \<and> t = CHR 0x22 # b @ [CHR 0x22])"

lemma match_quote_Some:
  "match_quote escaped p s = Some n \<Longrightarrow>
   \<exists>b r. s = b @ CHR 0x22 # r \<and> n = p + length b + 1 \<and>
     (if escaped then \<exists>c b'. b = c # b' \<and> string_body b' else string_body b)"
proof (induction escaped p s rule: match_quote.induct)
  case (1 escaped p)
  then show ?case by simp
next
  case (2 escaped p c cs)
  show ?case
  proof (cases "\<not> escaped \<and> c = CHR 0x22")
    case True
    with 2 show ?thesis by (intro exI [of _ "[]"] exI [of _ cs]) (auto intro: empty_body)
  next
    case False
    with 2 have "match_quote (\<not> escaped \<and> c = CHR 0x5C) (p + 1) cs = Some n"
      by (auto split: if_splits)
    with 2 False obtain b r where b: "cs = b @ CHR 0x22 # r" "n = p + 1 + length b + 1"
      "if \<not> escaped \<and> c = CHR 0x5C then \<exists>d b'. b = d # b' \<and> string_body b' else string_body b"
      by (cases escaped) auto
    with False show ?thesis
      by (intro exI [of _ "c # b"] exI [of _ r]) (auto split: if_splits intro: string_body.intros)
  qed
qed

lemma match_quote_body:
  "string_body b \<Longrightarrow> match_quote False p (b @ CHR 0x22 # r) = Some (p + length b + 1)"
  by (induction b arbitrary: p rule: string_body.induct) simp_all

lemma match_string_text:
  "string_text t \<Longrightarrow> polycall_tokenizer_match_string (t @ r) = Some (length t)"
  by (auto simp: string_text_def polycall_tokenizer_match_string_def char_at_def match_quote_body)

interpretation strings: token_matcher polycall_tokenizer_match_string string_text
proof
  fix s n k
  assume m: "polycall_tokenizer_match_string s = Some n"
  then obtain cs where s: "s = CHR 0x22 # cs" and q: "match_quote False 1 cs = Some n"
    by (cases s) (auto simp: polycall_tokenizer_match_string_def char_at_def split: if_splits)
  from match_quote_Some [OF q] obtain b r where
    "cs = b @ CHR 0x22 # r" "n = 1 + length b + 1" "string_body b" by auto
  then show "n \<le> length s \<and> string_text (take n s)" by (auto simp: s string_text_def)
  assume "k \<le> length s" "string_text (take k s)"
  with match_string_text [of "take k s" "drop k s"] m show "k \<le> n" by simp
qed (simp add: string_text_def)


section \<open>Operators\<close>

definition operator_text :: "string \<Rightarrow> bool" where
  "operator_text t \<longleftrightarrow> t \<in> set operator_texts"

text \<open>The table has its operators of two characters before those of one.\<close>

lemma operators_by_length:
  "operator_texts = filter (\<lambda>op. length op = 2) operator_texts @ filter (\<lambda>op. length op = 1) operator_texts"
  by (simp add: operator_texts_def)

lemma operator_length: "operator_text t \<Longrightarrow> length t = 1 \<or> length t = 2"
  by (auto simp: operator_text_def operator_texts_def)

lemma find_append_list:
  "List.find P (xs @ ys) = (case List.find P xs of None \<Rightarrow> List.find P ys | Some x \<Rightarrow> Some x)"
  by (induction xs) simp_all

interpretation operators: token_matcher polycall_tokenizer_match_operator operator_text
proof
  fix s :: string and n k
  let ?P = "\<lambda>op. take (length op) s = op"
  assume m: "polycall_tokenizer_match_operator s = Some n"
  then obtain op where op: "List.find ?P operator_texts = Some op" and n: "n = length op"
    by (auto simp: polycall_tokenizer_match_operator_def)
  from op have o: "op \<in> set operator_texts" "take n s = op"
    by (auto simp: find_Some_iff n)
  then show "n \<le> length s \<and> operator_text (take n s)"
    using n by (metis length_take min_def nat_le_linear operator_text_def)
  assume k: "k \<le> length s" "operator_text (take k s)"
  show "k \<le> n"
  proof (rule ccontr)
    assume "\<not> k \<le> n"
    moreover have "length (take k s) = 1 \<or> length (take k s) = 2" "length op = 1 \<or> length op = 2"
      using operator_length [OF k(2)] operator_length [of op] o(1) by (simp_all only: operator_text_def)
    ultimately have two: "length (take k s) = 2" "k = 2" "length op = 1" using k(1) n by auto
    then have "take k s \<in> set (filter (\<lambda>op. length op = 2) operator_texts)" "?P (take k s)"
      using k(2) by (auto simp: operator_text_def)
    then obtain x where x: "List.find ?P (filter (\<lambda>op. length op = 2) operator_texts) = Some x"
      using find_None_iff [of ?P] by (metis not_None_eq)
    then have "List.find ?P operator_texts = Some x"
      by (subst operators_by_length) (simp add: find_append_list)
    moreover have "x \<in> set (filter (\<lambda>op. length op = 2) operator_texts)"
      using x unfolding find_Some_iff by (metis nth_mem)
    ultimately have "List.find ?P operator_texts = Some x" "length x = 2" by simp_all
    with op two(3) show False by simp
  qed
qed (simp add: operator_text_def operator_texts_def)


section \<open>Matchers that miss nothing\<close>

definition longest_prefix :: "(string \<Rightarrow> bool) \<Rightarrow> string \<Rightarrow> nat \<Rightarrow> bool" where
  "longest_prefix lang s n \<longleftrightarrow>
     n \<le> length s \<and> lang (take n s) \<and> (\<forall>k. n < k \<and> k \<le> length s \<longrightarrow> \<not> lang (take k s))"

locale complete_matcher = token_matcher +
  assumes complete: "lang t \<Longrightarrow> match (t @ r) \<noteq> None"
begin

lemma match_iff: "match s = Some n \<longleftrightarrow> longest_prefix lang s n"
proof
  assume "match s = Some n"
  then show "longest_prefix lang s n" using matched munch by (simp add: longest_prefix_def)
next
  assume l: "longest_prefix lang s n"
  then obtain k where k: "match s = Some k"
    using complete [of "take n s" "drop n s"] by (auto simp: longest_prefix_def)
  moreover have "n \<le> k" using longest [OF k, of n] l by (simp add: longest_prefix_def)
  moreover have "\<not> n < k" using matched [OF k] l by (auto simp: longest_prefix_def)
  ultimately show "match s = Some n" by simp
qed

end

interpretation idents: complete_matcher polycall_tokenizer_match_identifier identifier_text
proof
  fix t r
  assume "identifier_text t"
  then show "polycall_tokenizer_match_identifier (t @ r) \<noteq> None"
    by (cases t) (auto simp: polycall_tokenizer_match_identifier_def char_at_def)
qed

interpretation strings: complete_matcher polycall_tokenizer_match_string string_text
  by unfold_locales (simp add: match_string_text)

interpretation operators: complete_matcher polycall_tokenizer_match_operator operator_text
  by unfold_locales (auto simp: polycall_tokenizer_match_operator_def operator_text_def find_None_iff)

end
