(* ===== verification/Tokenizer_Laws.thy ===== *)
theory Tokenizer_Laws
  imports Lexical
begin

text \<open>
  The reference for the scanning loop: \<open>lexemes\<close> splits a text into lexemes, with neither
  buffer, pointers, capacity nor error state. The lemmas relate the loop of
  \<open>polycall_tokenizer_process\<close> to it: it ends at the NUL behind the input at the latest, in
  the error state, and the tokens it recorded are the lexemes.
\<close>

section \<open>Lexemes\<close>

record lexeme =
  lx_type :: token_type
  lx_offset :: nat
  lx_line :: nat
  lx_column :: nat
  lx_text :: string

text \<open>Every match makes progress within its input, and a string has its two quotes.\<close>

definition pattern_ok :: "token_pattern \<Rightarrow> bool" where
  "pattern_ok p \<longleftrightarrow> (\<forall>s n. pt_match p s = Some n \<longrightarrow>
     0 < n \<and> n \<le> length s \<and> (pt_produces p = TOKEN_STRING \<longrightarrow> 2 \<le> n))"

fun first_match :: "token_pattern list \<Rightarrow> string \<Rightarrow> (token_type \<times> nat) option" where
  "first_match [] s = None"
| "first_match (p # ps) s =
     (case pt_match p s of None \<Rightarrow> first_match ps s | Some n \<Rightarrow> Some (pt_produces p, n))"

text \<open>The lexemes from line, column and offset on, and the rest nothing matches.\<close>

function lexemes :: "token_pattern list \<Rightarrow> nat \<Rightarrow> nat \<Rightarrow> nat \<Rightarrow> string \<Rightarrow> lexeme list \<times> string" where
  "lexemes ps line column offset [] = ([], [])"
| "lexemes ps line column offset (c # cs) =
     (if is_space c
      then if c = CHR 0x0A then lexemes ps (line + 1) 1 (offset + 1) cs
           else lexemes ps line (column + 1) (offset + 1) cs
      else case first_match ps (c # cs) of
             None \<Rightarrow> ([], c # cs)
           | Some (ty, n) \<Rightarrow>
               if n = 0 then ([], c # cs)
               else let (ls, rest) = lexemes ps line (column + n) (offset + n) (drop n (c # cs))
                    in (\<lparr>lx_type = ty, lx_offset = offset, lx_line = line, lx_column = column,
                         lx_text = take n (c # cs)\<rparr> # ls, rest))"
  by pat_completeness auto
termination
  by (relation "measure (\<lambda>(ps, line, column, offset, s). length s)") auto

lemma first_match_ok:
  "\<forall>p \<in> set ps. pattern_ok p \<Longrightarrow> first_match ps s = Some (ty, n) \<Longrightarrow>
   0 < n \<and> n \<le> length s \<and> (ty = TOKEN_STRING \<longrightarrow> 2 \<le> n)"
  by (induction ps) (auto simp: pattern_ok_def split: option.splits)

lemma first_match_empty: "\<forall>p \<in> set ps. pattern_ok p \<Longrightarrow> first_match ps [] = None"
  using first_match_ok [of ps "[]"] by (cases "first_match ps []") auto

text \<open>Nothing is lost: the lexemes are in the text at their offsets, in order.\<close>

lemma lexemes_at_offset:
  "\<forall>p \<in> set ps. pattern_ok p \<Longrightarrow> lx \<in> set (fst (lexemes ps line column offset s)) \<Longrightarrow>
   offset \<le> lx_offset lx \<and> lx_text lx \<noteq> [] \<and> lx_offset lx + length (lx_text lx) \<le> offset + length s \<and>
   lx_text lx = take (length (lx_text lx)) (drop (lx_offset lx - offset) s) \<and>
   (lx_type lx = TOKEN_STRING \<longrightarrow> 2 \<le> length (lx_text lx))"
proof (induction ps line column offset s rule: lexemes.induct)
  case (1 ps line column offset)
  then show ?case by simp
next
  case (2 ps line column offset c cs)
  show ?case
  proof (cases "is_space c")
    case True
    have "offset + 1 \<le> lx_offset lx \<and> lx_text lx \<noteq> [] \<and>
        lx_offset lx + length (lx_text lx) \<le> offset + 1 + length cs \<and>
        lx_text lx = take (length (lx_text lx)) (drop (lx_offset lx - (offset + 1)) cs) \<and>
        (lx_type lx = TOKEN_STRING \<longrightarrow> 2 \<le> length (lx_text lx))"
    proof (cases "c = CHR 0x0A")
      case True
      with \<open>is_space c\<close> 2(1) [OF _ _ 2(4)] 2(5) show ?thesis by simp
    next
      case False
      with \<open>is_space c\<close> 2(2) [OF _ _ 2(4)] 2(5) show ?thesis by simp
    qed
    moreover from this obtain j where "lx_offset lx = offset + 1 + j"
      using nat_le_iff_add by metis
    ultimately show ?thesis by simp
  next
    case False
    show ?thesis
    proof (cases "first_match ps (c # cs)")
      case None
      with False 2(5) show ?thesis by simp
    next
      case (Some tn)
      obtain ty n where tn: "tn = (ty, n)" by (cases tn)
      with Some first_match_ok [OF 2(4), of "c # cs" ty n] have n: "0 < n" "n \<le> length (c # cs)" "ty = TOKEN_STRING \<longrightarrow> 2 \<le> n"
        by auto
      let ?rec = "lexemes ps line (column + n) (offset + n) (drop n (c # cs))"
      have "lx = \<lparr>lx_type = ty, lx_offset = offset, lx_line = line, lx_column = column,
          lx_text = take n (c # cs)\<rparr> \<or> lx \<in> set (fst ?rec)"
        using 2(5) False Some tn n by (auto split: prod.splits)
      then show ?thesis
      proof
        assume "lx \<in> set (fst ?rec)"
        with 2(3) [OF False Some tn [symmetric] _ 2(4)] n show ?thesis
          by (auto simp: drop_drop)
      qed (use n in \<open>auto simp: min_def\<close>)
    qed
  qed
qed


section \<open>The loop\<close>

text \<open>The token that records a lexeme of a text in the buffer \<open>b\<close>.\<close>

definition lexeme_token :: "(string \<Rightarrow> u64) \<Rightarrow> nat \<Rightarrow> string \<Rightarrow> lexeme \<Rightarrow> polycall_token" where
  "lexeme_token strtod b text lx =
     \<lparr>tk_value = (case lx_type lx of
          TOKEN_IDENTIFIER \<Rightarrow> IdentifierValue (Ptr b (lx_offset lx)) (of_nat (length (lx_text lx)))
        | TOKEN_NUMBER \<Rightarrow> number_value strtod (drop (lx_offset lx) text)
        | TOKEN_STRING \<Rightarrow> StringValue (Ptr b (lx_offset lx + 1)) (of_nat (length (lx_text lx)) - 2)
        | _ \<Rightarrow> NoneValue),
      tk_type = lx_type lx, tk_flags = TOKEN_FLAG_NONE, tk_line = of_nat (lx_line lx),
      tk_column = of_nat (lx_column lx), tk_length = of_nat (length (lx_text lx))\<rparr>"

text \<open>The tokens after some are offered to the array: what fits is appended.\<close>

definition recorded :: "polycall_token list \<Rightarrow> tokenizer \<Rightarrow> polycall_token list" where
  "recorded ts tz =
     ta_tokens (tz_tokens tz) @
     take (unat (ta_capacity (tz_tokens tz)) - length (ta_tokens (tz_tokens tz))) ts"

lemma recorded_add: "recorded ts (add_token t tz) = recorded (t # ts) tz"
  by (auto simp: recorded_def add_token_def not_less take_Cons' Suc_diff_Suc)

lemma recorded_Nil [simp]: "recorded [] tz = ta_tokens (tz_tokens tz)"
  by (simp add: recorded_def)

lemma add_token_fields [simp]:
  "tz_buffer (add_token t tz) = tz_buffer tz" "tz_size (add_token t tz) = tz_size tz"
  "tz_position (add_token t tz) = tz_position tz" "tz_line (add_token t tz) = tz_line tz"
  "tz_column (add_token t tz) = tz_column tz" "tz_error_count (add_token t tz) = tz_error_count tz"
  "ta_capacity (tz_tokens (add_token t tz)) = ta_capacity (tz_tokens tz)"
  by (simp_all add: add_token_def)

text \<open>With consumers that change no token, a turn is decided by the first match.\<close>

definition harmless_consumer :: "token_consumer \<Rightarrow> bool" where
  "harmless_consumer c \<longleftrightarrow> (\<forall>t. cn_consume c t = t)"

definition token_taken :: "(string \<Rightarrow> u64) \<Rightarrow> token_type \<Rightarrow> string \<Rightarrow> nat \<Rightarrow> tokenizer \<Rightarrow> tokenizer" where
  "token_taken strtod ty text n tz =
     (add_token (create_token strtod tz ty text n) tz)
       \<lparr>tz_position := tz_position tz + n, tz_column := tz_column tz + n\<rparr>"

lemma try_patterns_first:
  "length cs = length ps \<Longrightarrow> \<forall>c \<in> set cs. harmless_consumer c \<Longrightarrow>
   try_patterns strtod (zip ps cs) text tz =
     map_option (\<lambda>(ty, n). token_taken strtod ty text n tz) (first_match ps text)"
  by (induction ps arbitrary: cs)
     (auto simp: length_Suc_conv harmless_consumer_def accept_token_def token_taken_def Let_def
       split: option.splits)

lemma scan_step_text:
  assumes "buf = text @ NUL # junk" "NUL \<notin> set text" "tz_position tz \<le> length text"
    and "length cs = length ps" "\<forall>c \<in> set cs. harmless_consumer c"
  shows "scan_step strtod (zip ps cs) buf tz =
    (case drop (tz_position tz) text of
       [] \<Rightarrow> (case first_match ps [] of None \<Rightarrow> Rejected (set_error_state ERROR_INVALID_INPUT tz)
              | Some (ty, n) \<Rightarrow> Advanced (token_taken strtod ty [] n tz))
     | c # r \<Rightarrow> if is_space c then Advanced (skip_space c tz)
         else (case first_match ps (c # r) of None \<Rightarrow> Rejected (set_error_state ERROR_INVALID_INPUT tz)
               | Some (ty, n) \<Rightarrow> Advanced (token_taken strtod ty (c # r) n tz)))"
proof -
  have d: "drop (tz_position tz) buf = drop (tz_position tz) text @ NUL # junk"
    using assms(1,3) by simp
  have n: "NUL \<notin> set (drop (tz_position tz) text)" using assms(2) in_set_dropD by fastforce
  then have "cstr (drop (tz_position tz) buf) = drop (tz_position tz) text"
    unfolding d by (rule cstr_append_NUL)
  with d show ?thesis
    using assms(4,5)
    by (cases "drop (tz_position tz) text")
       (auto simp: scan_step_def try_patterns_first split: option.splits)
qed

lemma process_lexemes:
  assumes ps: "\<forall>p \<in> set ps. pattern_ok p"
    and cs: "length cs = length ps" "\<forall>c \<in> set cs. harmless_consumer c"
    and buf: "buf = text @ NUL # junk" "NUL \<notin> set text"
  shows "offset \<le> length text \<Longrightarrow> s = drop offset text \<Longrightarrow> tz_size tz = length buf \<Longrightarrow>
    tz_position tz = offset \<Longrightarrow> tz_line tz = line \<Longrightarrow> tz_column tz = column \<Longrightarrow>
    \<exists>tz'. process_loop strtod (zip ps cs) buf tz =
        Some (Returned (False, set_error_state ERROR_INVALID_INPUT tz')) \<and>
      ta_tokens (tz_tokens tz') =
        recorded (map (lexeme_token strtod (tz_buffer tz) text) (fst (lexemes ps line column offset s))) tz \<and>
      snd (lexemes ps line column offset s) = drop (tz_position tz') text \<and>
      tz_buffer tz' = tz_buffer tz \<and> tz_error_count tz' = tz_error_count tz"
  using ps cs(1)
proof (induction ps line column offset s arbitrary: tz rule: lexemes.induct)
  case (1 ps line column offset)
  then have "process_loop strtod (zip ps cs) buf tz =
      Some (Returned (False, set_error_state ERROR_INVALID_INPUT tz))"
    using scan_step_text [OF buf, of tz cs ps strtod] cs(2) buf(1) first_match_empty [of ps]
    by (subst process_loop.simps) simp
  with 1 show ?case by auto
next
  case (2 ps line column offset c r)
  have pos: "tz_position tz < tz_size tz" using 2(4,6,7) buf(1) by simp
  have drop: "drop (tz_position tz) text = c # r" using 2(5,7) by simp
  have step: "scan_step strtod (zip ps cs) buf tz =
      (if is_space c then Advanced (skip_space c tz)
       else case first_match ps (c # r) of None \<Rightarrow> Rejected (set_error_state ERROR_INVALID_INPUT tz)
         | Some (ty, n) \<Rightarrow> Advanced (token_taken strtod ty (c # r) n tz))"
    using scan_step_text [OF buf, of tz cs ps strtod] cs(2) 2(4,7,11) drop by simp
  have off: "offset + 1 \<le> length text" "r = drop (offset + 1) text"
    using 2(4,5) by (metis Suc_eq_plus1 Suc_leI drop_all list.distinct(1) not_less)
      (metis 2(5) Suc_eq_plus1 drop_Suc list.sel(3) tl_drop)
  show ?case
  proof (cases "is_space c")
    case True
    have loop: "process_loop strtod (zip ps cs) buf tz = process_loop strtod (zip ps cs) buf (skip_space c tz)"
      using pos step True by (subst process_loop.simps) simp
    have fields: "tz_tokens (skip_space c tz) = tz_tokens tz" "tz_buffer (skip_space c tz) = tz_buffer tz"
      "tz_error_count (skip_space c tz) = tz_error_count tz" "tz_size (skip_space c tz) = tz_size tz"
      "tz_position (skip_space c tz) = offset + 1"
      using 2(7) by (simp_all add: skip_space_def)
    show ?thesis
    proof (cases "c = CHR 0x0A")
      case nl: True
      with 2(1) [OF True nl off, of "skip_space c tz"] loop fields True 2(6-) show ?thesis
        by (simp add: recorded_def) (simp add: skip_space_def)
    next
      case nl: False
      with 2(2) [OF True nl off, of "skip_space c tz"] loop fields True 2(6-) show ?thesis
        by (simp add: recorded_def) (simp add: skip_space_def)
    qed
  next
    case False
    show ?thesis
    proof (cases "first_match ps (c # r)")
      case None
      with False step pos 2(5,7) have "process_loop strtod (zip ps cs) buf tz =
          Some (Returned (False, set_error_state ERROR_INVALID_INPUT tz))"
        by (subst process_loop.simps) simp
      with None False drop show ?thesis by (intro exI [of _ tz]) simp
    next
      case (Some tn)
      obtain ty n where tn: "tn = (ty, n)" by (cases tn)
      with Some first_match_ok [OF 2(10), of "c # r" ty n] have n: "0 < n" "n \<le> length (c # r)" by auto
      let ?tz = "token_taken strtod ty (c # r) n tz"
      let ?lx = "\<lparr>lx_type = ty, lx_offset = offset, lx_line = line, lx_column = column, lx_text = take n (c # r)\<rparr>"
      have loop: "process_loop strtod (zip ps cs) buf tz = process_loop strtod (zip ps cs) buf ?tz"
        using pos step False Some tn by (subst process_loop.simps) simp
      have off: "offset + n \<le> length text" "drop n (c # r) = drop (offset + n) text"
        using n 2(4,5) by (auto simp: add.commute)
      have "create_token strtod tz ty (c # r) n = lexeme_token strtod (tz_buffer tz) text ?lx"
        using 2(4,5,7-9) n by (simp add: create_token_def lexeme_token_def min_def split: token_type.splits)
      then have rec: "recorded ts ?tz = recorded (lexeme_token strtod (tz_buffer tz) text ?lx # ts) tz" for ts
        by (simp add: recorded_add [symmetric] token_taken_def) (simp add: recorded_def)
      have fields: "tz_buffer ?tz = tz_buffer tz" "tz_error_count ?tz = tz_error_count tz"
        "tz_size ?tz = length buf" "tz_position ?tz = offset + n" "tz_line ?tz = line"
        "tz_column ?tz = column + n"
        using 2(6-9) by (simp_all add: token_taken_def)
      obtain ls rest where lr: "lexemes ps line (column + n) (offset + n) (drop n (c # r)) = (ls, rest)"
        by (cases "lexemes ps line (column + n) (offset + n) (drop n (c # r))")
      show ?thesis
        using 2(3) [OF False Some tn [symmetric] _ off fields(3-6) 2(10,11)] n loop fields(1,2) rec False Some tn lr
        by simp
    qed
  qed
qed

text \<open>The same through the public operations.\<close>

lemma set_input_True:
  assumes "polycall_tokenizer_set_input (Some tz) (Some input) len m = Some (True, tzo, m')"
  shows "\<exists>old. block m (tz_buffer tz) = Some old \<and> len < length old \<and> len \<le> length input \<and>
    tzo = Some (reset_state tz) \<and>
    m' = m[tz_buffer tz := Some (take len input @ [NUL] @ drop (len + 1) old)]"
  using assms by (auto simp: polycall_tokenizer_set_input_def split: if_splits option.splits)

lemma cstr_terminated: "cstr (s @ NUL # r) = cstr s"
  by (induction s) (simp_all add: cstr_simps)

lemma cstr_split: "NUL \<in> set s \<Longrightarrow> \<exists>junk. s = cstr s @ NUL # junk"
  by (induction s) (auto simp: cstr_simps)

end
