(* ===== verification/Token_Laws.thy ===== *)
theory Token_Laws
  imports Token
begin

text \<open>
  Laws of token arrays: filter and chain compute what their names say and never grow the
  result, and destroying an array releases the strings of its values through the contract
  \<open>allocator\<close>: exactly once each, or the program is undefined.
\<close>

section \<open>Filling an array\<close>

definition array_wf :: "token_array \<Rightarrow> bool" where
  "array_wf a \<longleftrightarrow> ta_capacity a \<noteq> 0 \<and> length (ta_tokens a) \<le> unat (ta_capacity a)"

lemma append_from_fits:
  "length (ta_tokens r) + length (List.map_filter f ts) \<le> unat (ta_capacity r) \<Longrightarrow>
   append_from realloc_ok f ts r m =
     Some (Some (r\<lparr>ta_tokens := ta_tokens r @ List.map_filter f ts\<rparr>), m)"
proof (induction ts arbitrary: r)
  case Nil
  then show ?case by (simp add: List.map_filter_def)
next
  case (Cons t ts)
  show ?case
  proof (cases "f t")
    case None
    with Cons show ?thesis by (simp add: List.map_filter_def)
  next
    case (Some t')
    with Cons.prems have "append_token realloc_ok t' r m = Some (Some (r\<lparr>ta_tokens := ta_tokens r @ [t']\<rparr>), m)"
      by (simp add: append_token_def Let_def List.map_filter_def)
    with Some Cons show ?thesis by (simp add: List.map_filter_def)
  qed
qed

lemma map_filter_if: "List.map_filter (\<lambda>t. if p t then Some t else None) ts = filter p ts"
  by (induction ts) (simp_all add: List.map_filter_def)

lemma map_filter_Some: "List.map_filter (\<lambda>t. Some (g t)) ts = map g ts"
  by (induction ts) (simp_all add: List.map_filter_def)

definition result_array :: "u32 \<Rightarrow> polycall_token list \<Rightarrow> token_array" where
  "result_array capacity ts =
     \<lparr>ta_tokens = ts, ta_capacity = capacity, ta_error_count = 0, ta_line = 1, ta_column = 1\<rparr>"

lemma filter_result:
  assumes "array_wf a"
  shows "polycall_token_filter True realloc_ok (Some a) (Some p) m =
    Some (Some (result_array (ta_capacity a) (filter p (ta_tokens a))), m)"
proof -
  have "length (filter p (ta_tokens a)) \<le> unat (ta_capacity a)"
    using assms order_trans [OF length_filter_le] unfolding array_wf_def by blast
  then show ?thesis
    using assms by (simp add: polycall_token_filter_def polycall_token_create_array_def
        append_from_fits map_filter_if array_wf_def result_array_def)
qed

lemma chain_result:
  assumes "array_wf a" "ops \<noteq> []"
  shows "polycall_token_chain True realloc_ok (Some a) (Some ops) m =
    Some (Some (result_array (ta_capacity a) (map (apply_operations ops) (ta_tokens a))), m)"
  using assms by (simp add: polycall_token_chain_def polycall_token_create_array_def
      append_from_fits map_filter_Some array_wf_def result_array_def)


section \<open>Destroying an array\<close>

text \<open>The blocks the values of some tokens own, and whether every pointer may be freed.\<close>

fun pointer_blocks :: "pointer \<Rightarrow> nat list" where
  "pointer_blocks Null = []"
| "pointer_blocks (Ptr b offset) = [b]"

fun freeable :: "pointer \<Rightarrow> bool" where
  "freeable Null \<longleftrightarrow> True"
| "freeable (Ptr b offset) \<longleftrightarrow> offset = 0"

definition token_blocks :: "polycall_token list \<Rightarrow> nat list" where
  "token_blocks ts = concat (map (\<lambda>t. pointer_blocks (value_pointer (tk_value t))) ts)"

lemma free_release:
  "free p m = (if freeable p then heap.release_all (pointer_blocks p) (Some m) else None)"
  by (cases p) (simp_all add: heap.release_all_def)

lemma release_all_append:
  "heap.release_all (bs @ cs) mo = heap.release_all cs (heap.release_all bs mo)"
  by (simp add: heap.release_all_def)

lemma destroy_values_release:
  "destroy_values ts m =
     (if \<forall>t \<in> set ts. freeable (value_pointer (tk_value t))
      then heap.release_all (token_blocks ts) (Some m) else None)"
proof (induction ts arbitrary: m)
  case Nil
  then show ?case by (simp add: token_blocks_def heap.release_all_def)
next
  case (Cons t ts)
  show ?case
    by (cases "free (value_pointer (tk_value t)) m")
       (use Cons free_release [of "value_pointer (tk_value t)" m] in
        \<open>auto simp: polycall_value_destroy_def token_blocks_def release_all_append
           heap.release_all_undefined split: if_splits\<close>)
qed

lemma destroy_array_iff:
  "polycall_token_destroy_array (Some a) m \<noteq> None \<longleftrightarrow>
     (\<forall>t \<in> set (ta_tokens a). freeable (value_pointer (tk_value t))) \<and>
     distinct (token_blocks (ta_tokens a)) \<and> (\<forall>b \<in> set (token_blocks (ta_tokens a)). block m b \<noteq> None)"
  using heap.release_all_Some [of "token_blocks (ta_tokens a)" m]
  by (simp add: polycall_token_destroy_array_def destroy_values_release del: not_None_eq)

lemma destroy_array_contents:
  "polycall_token_destroy_array (Some a) m = Some m' \<Longrightarrow>
   block m' k = (if k \<in> set (token_blocks (ta_tokens a)) then None else block m k)"
  using heap.release_all_contents [of "token_blocks (ta_tokens a)" m m' k]
  by (simp add: polycall_token_destroy_array_def destroy_values_release split: if_splits)

lemma token_blockI:
  "t \<in> set ts \<Longrightarrow> value_pointer (tk_value t) = Ptr b offset \<Longrightarrow> b \<in> set (token_blocks ts)"
  by (induction ts) (auto simp: token_blocks_def)

text \<open>Two arrays with a value in common cannot both be destroyed.\<close>

lemma destroy_shared:
  assumes "polycall_token_destroy_array (Some a) m = Some m'"
    and "t \<in> set (ta_tokens a)" "t' \<in> set (ta_tokens a')"
    and "value_pointer (tk_value t) = value_pointer (tk_value t')" "value_pointer (tk_value t) \<noteq> Null"
  shows "polycall_token_destroy_array (Some a') m' = None"
proof -
  obtain b offset where p: "value_pointer (tk_value t) = Ptr b offset"
    using assms(5) by (cases "value_pointer (tk_value t)") auto
  have "b \<in> set (token_blocks (ta_tokens a))" "b \<in> set (token_blocks (ta_tokens a'))"
    using token_blockI [OF assms(2) p] token_blockI [OF assms(3), of b offset] assms(4) p by simp_all
  then show ?thesis
    using destroy_array_contents [OF assms(1), of b] destroy_array_iff [of a' m'] by auto
qed

end
