(* ===== verification/Tokenizer_Properties.thy ===== *)
theory Tokenizer_Properties
  imports Tokenizer_Laws Token_Laws
begin

text \<open>
  The properties of tokens and tokenizer, each with the lemmas only it needs and a witness
  that applies it to a concrete input.
\<close>

section \<open>Running a tokenizer\<close>

definition buffer_ok :: "memory \<Rightarrow> tokenizer \<Rightarrow> bool" where
  "buffer_ok m tz \<longleftrightarrow> map_option length (block m (tz_buffer tz)) = Some (tz_size tz)"

definition ops_ok :: "tokenizer_ops \<Rightarrow> bool" where
  "ops_ok os \<longleftrightarrow> length (op_consumers os) = length (op_patterns os) \<and>
     (\<forall>p \<in> set (op_patterns os). pattern_ok p) \<and> (\<forall>c \<in> set (op_consumers os). harmless_consumer c)"

text \<open>The lexemes of the first \<open>len\<close> bytes of an input, up to a NUL among them.\<close>

definition input_lexemes :: "tokenizer_ops \<Rightarrow> string \<Rightarrow> nat \<Rightarrow> lexeme list" where
  "input_lexemes os input len = fst (lexemes (op_patterns os) 1 1 0 (cstr (take len input)))"

lemma tokenizer_run:
  assumes "buffer_ok m tz" "ops_ok os"
    and "polycall_tokenizer_set_input (Some tz) (Some input) len m = Some (True, Some tz1, m1)"
  shows "\<exists>tz2. polycall_tokenizer_process strtod (Some tz1) (Some os) m1 = Some (Returned (False, Some tz2)) \<and>
    tz_state tz2 = TOKENIZER_STATE_ERROR \<and> tz_error_message tz2 = Some ERROR_INVALID_INPUT \<and>
    tz_error_count tz2 = tz_error_count tz + 1 \<and> tz_buffer tz2 = tz_buffer tz \<and>
    ta_tokens (tz_tokens tz2) =
      recorded (map (lexeme_token strtod (tz_buffer tz) (cstr (take len input))) (input_lexemes os input len)) tz"
proof -
  let ?text = "cstr (take len input)"
  obtain old where old: "block m (tz_buffer tz) = Some old" "len < length old" "len \<le> length input"
    and tz1: "tz1 = reset_state tz"
    and m1: "m1 = m[tz_buffer tz := Some (take len input @ [NUL] @ drop (len + 1) old)]"
    using set_input_True [OF assms(3)] by auto
  define buf where "buf = take len input @ [NUL] @ drop (len + 1) old"
  have b: "block m1 (tz_buffer tz) = Some buf" using old(1) by (simp add: m1 block_update buf_def)
  have len: "length buf = tz_size tz" using assms(1) old by (simp add: buf_def buffer_ok_def)
  obtain junk where "buf = cstr buf @ NUL # junk"
    using cstr_split [of buf] by (auto simp: buf_def)
  moreover have "cstr buf = ?text"
    by (simp add: buf_def cstr_terminated)
  ultimately have buf: "buf = ?text @ NUL # junk" by simp
  let ?tz = "tz1\<lparr>tz_state := TOKENIZER_STATE_SCANNING\<rparr>"
  have "tz_size ?tz = length buf" "tz_position ?tz = 0" "tz_line ?tz = 1" "tz_column ?tz = 1"
    and fields: "tz_buffer ?tz = tz_buffer tz" "tz_error_count ?tz = tz_error_count tz"
      "recorded ts ?tz = recorded ts tz" for ts
    using len by (simp_all add: tz1 reset_state_def recorded_def)
  then obtain tz' where "process_loop strtod (zip (op_patterns os) (op_consumers os)) buf ?tz =
      Some (Returned (False, set_error_state ERROR_INVALID_INPUT tz'))"
    "ta_tokens (tz_tokens tz') = recorded (map (lexeme_token strtod (tz_buffer tz) ?text) (input_lexemes os input len)) tz"
    "tz_buffer tz' = tz_buffer tz" "tz_error_count tz' = tz_error_count tz"
    using process_lexemes [of "op_patterns os" "op_consumers os" buf ?text junk 0 ?text ?tz 1 1 strtod] assms(2) buf
    by (auto simp: ops_ok_def input_lexemes_def)
  then show ?thesis
    using b fields(1) by (simp add: polycall_tokenizer_process_def tz1 reset_state_def set_error_state_def)
qed


text \<open>The four matchers with the types their tokens have.\<close>

definition standard_ops :: tokenizer_ops where
  "standard_ops = \<lparr>op_patterns =
       [\<lparr>pt_match = polycall_tokenizer_match_identifier, pt_produces = TOKEN_IDENTIFIER\<rparr>,
        \<lparr>pt_match = polycall_tokenizer_match_number, pt_produces = TOKEN_NUMBER\<rparr>,
        \<lparr>pt_match = polycall_tokenizer_match_string, pt_produces = TOKEN_STRING\<rparr>,
        \<lparr>pt_match = polycall_tokenizer_match_operator, pt_produces = TOKEN_OPERATOR\<rparr>],
     op_consumers = replicate 4 \<lparr>cn_consume = (\<lambda>t. t), cn_accepts = TOKEN_INVALID\<rparr>\<rparr>"

lemma standard_ops_ok: "ops_ok standard_ops"
proof -
  have "2 \<le> n" if "polycall_tokenizer_match_string s = Some n" for s n
    using strings.matched [OF that] by (auto simp: string_text_def) (metis One_nat_def Suc_1 Suc_le_eq
        length_Cons length_append_singleton length_take less_Suc_eq_0_disj min.absorb2 not_less_eq_eq)
  then show ?thesis
    using idents.progress numbers.progress strings.progress operators.progress
    by (auto simp: ops_ok_def standard_ops_def pattern_ok_def harmless_consumer_def)
qed

definition small_tokenizer :: tokenizer where
  "small_tokenizer = \<lparr>tz_buffer = 0, tz_size = 8, tz_position = 0, tz_line = 1, tz_column = 1,
     tz_state = TOKENIZER_STATE_READY, tz_error_message = None, tz_error_count = 0,
     tz_tokens = \<lparr>ta_tokens = [], ta_capacity = 2, ta_error_count = 0, ta_line = 1, ta_column = 1\<rparr>,
     tz_config = \<lparr>tc_buffer = 8, tc_token = 4, tc_identifier = 4, tc_string = 4, tc_flags = 0\<rparr>\<rparr>"

lemma small_created:
  "polycall_tokenizer_create True True True (\<lambda>_. CHR ''?'')
     (Some \<lparr>tc_buffer = 8, tc_token = 4, tc_identifier = 4, tc_string = 4, tc_flags = 0\<rparr>) [] =
   Some (Some small_tokenizer, [Some ''????????''])"
  by code_simp

lemma small_ok: "buffer_ok [Some ''????????''] small_tokenizer"
  by code_simp


definition small_memory :: memory where
  "small_memory = [Some (''a=1+'' @ NUL # ''???'')]"

lemma small_input:
  "polycall_tokenizer_set_input (Some small_tokenizer) (Some ''a=1+'') 4 [Some ''????????''] =
     Some (True, Some small_tokenizer, small_memory)"
  by code_simp

lemma small_array:
  "ta_tokens (tz_tokens small_tokenizer) = []" "unat (ta_capacity (tz_tokens small_tokenizer)) = 2"
  "xs @ [] = xs" "[] @ ys = ys" "length [] = 0" "n - 0 = (n :: nat)"
  by (simp_all add: small_tokenizer_def)

lemma small_types:
  "map lx_type (take 2 (input_lexemes standard_ops ''a=1+'' 4)) = [TOKEN_IDENTIFIER, TOKEN_OPERATOR]"
  by code_simp

lemma lexeme_token_type: "tk_type (lexeme_token s b t lx) = lx_type lx"
  by (simp add: lexeme_token_def)


section \<open>Properties\<close>

text \<open>
  C19: the matchers match by maximal munch. Identifier, string and operator matchers match
  exactly when a prefix of the input is in their language, and then take the longest such
  prefix, whatever follows; a match of the number matcher is also the longest prefix that
  is a number, but digits before a point without digits behind it are refused.
\<close>

theorem matchers_take_longest:
  "(polycall_tokenizer_match_identifier s = Some n \<longleftrightarrow> longest_prefix identifier_text s n) \<and>
   (polycall_tokenizer_match_string s = Some n \<longleftrightarrow> longest_prefix string_text s n) \<and>
   (polycall_tokenizer_match_operator s = Some n \<longleftrightarrow> longest_prefix operator_text s n) \<and>
   (polycall_tokenizer_match_number s = Some n \<longrightarrow> longest_prefix number_text s n) \<and>
   (digit_run ds \<and> (r = [] \<or> \<not> is_digit (hd r)) \<longrightarrow>
      polycall_tokenizer_match_number (ds @ CHR ''.'' # r) = None)"
  using numbers.matched numbers.munch number_point_refused
  by (simp add: idents.match_iff strings.match_iff operators.match_iff longest_prefix_def)

theorem matchers_take_longest_witness:
  "longest_prefix number_text ''-12.5e+7;'' 8 \<and> longest_prefix operator_text ''<=='' 2 \<and>
   polycall_tokenizer_match_number ''12.x'' = None"
proof -
  have "polycall_tokenizer_match_number ''-12.5e+7;'' = Some 8"
    "polycall_tokenizer_match_operator ''<=='' = Some 2" "digit_run ''12''" "\<not> is_digit CHR ''x''"
    by code_simp+
  then show ?thesis
    using matchers_take_longest [of "''-12.5e+7;''" 8 "''12''" "''x''"]
      matchers_take_longest [of "''<==''" 2 "''12''" "''x''"] by simp
qed

text \<open>
  C18: scanning any input the buffer accepted, with patterns that make progress and
  consumers that give back what the pattern matched (\<open>ops_ok\<close>), always ends, and always with failure: the loop runs over the whole buffer and rejects the NUL
  behind the input as invalid. What was recorded until then are the lexemes of the input,
  each with its type, place and text, as far as the array has room; the others are dropped
  without an error, and no end-of-input token is ever among them.
\<close>

theorem scanning_records_lexemes_and_fails:
  assumes "buffer_ok m tz" "ops_ok os"
    and "polycall_tokenizer_set_input (Some tz) (Some input) len m = Some (True, Some tz1, m1)"
  shows "\<exists>tz2. polycall_tokenizer_process strtod (Some tz1) (Some os) m1 = Some (Returned (False, Some tz2)) \<and>
    tz_state tz2 = TOKENIZER_STATE_ERROR \<and>
    polycall_tokenizer_get_error (Some tz2) = Some ERROR_INVALID_INPUT \<and>
    ta_tokens (tz_tokens tz2) =
      ta_tokens (tz_tokens tz) @
      take (unat (ta_capacity (tz_tokens tz)) - length (ta_tokens (tz_tokens tz)))
        (map (lexeme_token strtod (tz_buffer tz) (cstr (take len input))) (input_lexemes os input len)) \<and>
    (\<forall>lx \<in> set (input_lexemes os input len).
       read_bytes m1 (Ptr (tz_buffer tz) (lx_offset lx)) (length (lx_text lx)) = Some (lx_text lx))"
proof -
  let ?text = "cstr (take len input)"
  obtain old where old: "block m (tz_buffer tz) = Some old" "len \<le> length input"
    and m1: "m1 = m[tz_buffer tz := Some (take len input @ [NUL] @ drop (len + 1) old)]"
    using set_input_True [OF assms(3)] by auto
  have b: "block m1 (tz_buffer tz) = Some (take len input @ [NUL] @ drop (len + 1) old)"
    using old(1) by (simp add: m1 block_update)
  have "read_bytes m1 (Ptr (tz_buffer tz) (lx_offset lx)) (length (lx_text lx)) = Some (lx_text lx)"
    if lx: "lx \<in> set (input_lexemes os input len)" for lx
  proof -
    have at: "lx_offset lx + length (lx_text lx) \<le> length ?text"
      "lx_text lx = take (length (lx_text lx)) (drop (lx_offset lx) ?text)"
      using lexemes_at_offset [of "op_patterns os" lx 1 1 0 ?text] lx assms(2)
      by (auto simp: input_lexemes_def ops_ok_def)
    obtain r where "take len input @ [NUL] @ drop (len + 1) old = ?text @ r"
      by (metis append.assoc cstr_def takeWhile_dropWhile_id)
    with b at show ?thesis by simp
  qed
  then show ?thesis
    using tokenizer_run [OF assms, of strtod] by (auto simp: polycall_tokenizer_get_error_def recorded_def)
qed

theorem scanning_records_lexemes_and_fails_witness:
  "\<exists>tz2. polycall_tokenizer_process (\<lambda>_. 0) (Some small_tokenizer) (Some standard_ops) small_memory =
      Some (Returned (False, Some tz2)) \<and> tz_state tz2 = TOKENIZER_STATE_ERROR \<and>
    map tk_type (ta_tokens (tz_tokens tz2)) = [TOKEN_IDENTIFIER, TOKEN_OPERATOR]"
  by (rule ex_forward [OF scanning_records_lexemes_and_fails [OF small_ok standard_ops_ok small_input]],
      elim conjE, intro conjI, assumption, assumption,
      simp only: small_array take_map map_map o_def lexeme_token_type small_types)

text \<open>
  C20: a tokenizer that recorded an identifier or a string cannot be destroyed: its tokens
  point into the buffer, which \<open>polycall_tokenizer_destroy\<close> has freed when it frees the
  values of the tokens. Any other tokenizer can.
\<close>

theorem tokenizer_destroy_frees_buffer_twice:
  assumes "buffer_ok m tz" "ops_ok os" "ta_tokens (tz_tokens tz) = []"
    and "polycall_tokenizer_set_input (Some tz) (Some input) len m = Some (True, Some tz1, m1)"
    and "polycall_tokenizer_process strtod (Some tz1) (Some os) m1 = Some (Returned (False, Some tz2))"
  shows "polycall_tokenizer_destroy (Some tz2) m1 = None \<longleftrightarrow>
    (\<exists>lx \<in> set (take (unat (ta_capacity (tz_tokens tz))) (input_lexemes os input len)).
       lx_type lx = TOKEN_IDENTIFIER \<or> lx_type lx = TOKEN_STRING)"
proof -
  let ?tok = "lexeme_token strtod (tz_buffer tz) (cstr (take len input))"
  let ?ls = "take (unat (ta_capacity (tz_tokens tz))) (input_lexemes os input len)"
  have run: "tz_buffer tz2 = tz_buffer tz" "ta_tokens (tz_tokens tz2) = map ?tok ?ls"
    using tokenizer_run [OF assms(1,2,4), of strtod] assms(3,5) by (auto simp: recorded_def take_map)
  obtain old where "block m (tz_buffer tz) = Some old" "m1 = m[tz_buffer tz := Some (take len input @ [NUL] @ drop (len + 1) old)]"
    using set_input_True [OF assms(4)] by auto
  then have "block m1 (tz_buffer tz) \<noteq> None" by (simp add: block_update)
  from heap.release_live [OF this] obtain m2 where m2: "free_block (tz_buffer tz) m1 = Some m2" ..
  have dead: "block m2 (tz_buffer tz) = None" using heap.release_contents [OF m2] by simp
  have val: "value_pointer (tk_value (?tok lx)) =
      (if lx_type lx = TOKEN_IDENTIFIER then Ptr (tz_buffer tz) (lx_offset lx)
       else if lx_type lx = TOKEN_STRING then Ptr (tz_buffer tz) (lx_offset lx + 1) else Null)" for lx
    by (simp add: lexeme_token_def number_value_def split: token_type.split)
  have d: "polycall_tokenizer_destroy (Some tz2) m1 = polycall_token_destroy_array (Some (tz_tokens tz2)) m2"
    using m2 run(1) by (simp add: polycall_tokenizer_destroy_def)
  show ?thesis
  proof (cases "\<exists>lx \<in> set ?ls. lx_type lx = TOKEN_IDENTIFIER \<or> lx_type lx = TOKEN_STRING")
    case True
    then obtain lx offset where "lx \<in> set ?ls" "value_pointer (tk_value (?tok lx)) = Ptr (tz_buffer tz) offset"
      by (auto simp: val)
    then have "tz_buffer tz \<in> set (token_blocks (ta_tokens (tz_tokens tz2)))"
      by (intro token_blockI [of "?tok lx"]) (auto simp: run(2))
    then show ?thesis
      using True d dead destroy_array_iff [of "tz_tokens tz2" m2] by auto
  next
    case False
    then have "\<forall>t \<in> set (ta_tokens (tz_tokens tz2)). value_pointer (tk_value t) = Null"
      by (auto simp: run(2) val)
    then have "token_blocks (ta_tokens (tz_tokens tz2)) = []"
      and "\<forall>t \<in> set (ta_tokens (tz_tokens tz2)). freeable (value_pointer (tk_value t))"
      by (auto simp: token_blocks_def)
    then show ?thesis
      using False d destroy_array_iff [of "tz_tokens tz2" m2] by simp
  qed
qed

theorem tokenizer_destroy_frees_buffer_twice_witness:
  "\<exists>tz2. polycall_tokenizer_process (\<lambda>_. 0) (Some small_tokenizer) (Some standard_ops) small_memory =
      Some (Returned (False, Some tz2)) \<and> polycall_tokenizer_destroy (Some tz2) small_memory = None"
proof -
  obtain tz2 where p: "polycall_tokenizer_process (\<lambda>_. 0) (Some small_tokenizer) (Some standard_ops)
      small_memory = Some (Returned (False, Some tz2))"
    using tokenizer_run [OF small_ok standard_ops_ok small_input, of "\<lambda>_. 0"] by blast
  have "TOKEN_IDENTIFIER \<in> lx_type ` set (take 2 (input_lexemes standard_ops ''a=1+'' 4))"
    unfolding set_map [symmetric] small_types by simp
  then have "\<exists>lx \<in> set (take 2 (input_lexemes standard_ops ''a=1+'' 4)).
      lx_type lx = TOKEN_IDENTIFIER \<or> lx_type lx = TOKEN_STRING"
    by (elim imageE) (intro bexI disjI1, rule sym)
  then have "polycall_tokenizer_destroy (Some tz2) small_memory = None"
    using tokenizer_destroy_frees_buffer_twice [OF small_ok standard_ops_ok small_array(1) small_input p]
    unfolding small_array by (simp only:)
  with p show ?thesis by blast
qed


text \<open>
  \<open>polycall_token_filter\<close> and \<open>polycall_token_chain\<close> compute filter and map of the tokens
  into a new array of the same capacity, whatever \<open>realloc\<close> would do; but the copies keep
  the pointers of their values, so once one of source and filtered array is destroyed, the
  other can no longer be if a kept token has a string.
\<close>

theorem filtered_array_shares_strings:
  assumes "array_wf a" "ops \<noteq> []"
    and "t \<in> set (ta_tokens a)" "p t" "value_pointer (tk_value t) \<noteq> Null"
  shows "\<exists>r c. polycall_token_filter True realloc_ok (Some a) (Some p) m = Some (Some r, m) \<and>
    ta_tokens r = filter p (ta_tokens a) \<and> ta_capacity r = ta_capacity a \<and>
    polycall_token_chain True realloc_ok (Some a) (Some ops) m = Some (Some c, m) \<and>
    ta_tokens c = map (apply_operations ops) (ta_tokens a) \<and> ta_capacity c = ta_capacity a \<and>
    (\<forall>m'. polycall_token_destroy_array (Some r) m = Some m' \<longrightarrow>
       polycall_token_destroy_array (Some a) m' = None) \<and>
    (\<forall>m'. polycall_token_destroy_array (Some a) m = Some m' \<longrightarrow>
       polycall_token_destroy_array (Some r) m' = None)"
proof -
  let ?r = "result_array (ta_capacity a) (filter p (ta_tokens a))"
  have "t \<in> set (ta_tokens ?r)" using assms(3,4) by (simp add: result_array_def)
  then have "\<forall>m'. polycall_token_destroy_array (Some ?r) m = Some m' \<longrightarrow>
      polycall_token_destroy_array (Some a) m' = None"
    and "\<forall>m'. polycall_token_destroy_array (Some a) m = Some m' \<longrightarrow>
      polycall_token_destroy_array (Some ?r) m' = None"
    using destroy_shared [OF _ _ _ refl assms(5)] assms(3) by blast+
  then show ?thesis
    using filter_result [OF assms(1)] chain_result [OF assms(1,2)]
    by (intro exI [of _ ?r] exI [of _ "result_array (ta_capacity a) (map (apply_operations ops) (ta_tokens a))"])
       (simp add: result_array_def)
qed

theorem filtered_array_shares_strings_witness:
  "\<exists>a r m m'. polycall_token_filter True (\<lambda>_. True) (Some a) (Some (\<lambda>t. tk_line t = 3)) m = Some (Some r, m) \<and>
     polycall_token_destroy_array (Some r) m = Some m' \<and> polycall_token_destroy_array (Some a) m' = None"
proof -
  define t where "t = invalid_token\<lparr>tk_value := StringValue (Ptr 0 0) 2, tk_line := 3\<rparr>"
  define a where "a = result_array 4 [t]"
  have *: "array_wf a" "[Some id] \<noteq> []" "t \<in> set (ta_tokens a)" "tk_line t = 3" "value_pointer (tk_value t) \<noteq> Null"
    by (simp_all add: a_def t_def array_wf_def result_array_def)
  obtain r where r: "polycall_token_filter True (\<lambda>_. True) (Some a) (Some (\<lambda>t. tk_line t = 3)) [Some (''ab'' @ [NUL])] =
      Some (Some r, [Some (''ab'' @ [NUL])])" "ta_tokens r = filter (\<lambda>t. tk_line t = 3) (ta_tokens a)"
    and shared: "\<forall>m'. polycall_token_destroy_array (Some r) [Some (''ab'' @ [NUL])] = Some m' \<longrightarrow>
       polycall_token_destroy_array (Some a) m' = None"
    using filtered_array_shares_strings [where p = "\<lambda>t. tk_line t = 3", OF *, of "\<lambda>_. True" "[Some (''ab'' @ [NUL])]"] by blast
  have "polycall_token_destroy_array (Some r) [Some (''ab'' @ [NUL])] = Some [None]"
    by (simp add: r(2) a_def t_def result_array_def polycall_token_destroy_array_def
        polycall_value_destroy_def free_block_def block_def)
  with r(1) shared show ?thesis by blast
qed

text \<open>
  The life of a string value. Created from a text, it holds the text with its NUL in a
  block of its own; it equals another one created from a text exactly when the texts are
  equal; and destroying it gives back the heap as it was.
\<close>

theorem string_value_roundtrip:
  assumes "length (cstr s) + 1 < 2 ^ 32" "length (cstr t) + 1 < 2 ^ 32"
    and "polycall_value_create True VALUE_STRING (Some (TextData s)) m = Some (v, m1)"
    and "polycall_value_create True VALUE_STRING (Some (TextData t)) m1 = Some (w, m2)"
  shows "read_bytes m2 (value_pointer v) (length (cstr s) + 1) = Some (cstr s @ [NUL]) \<and>
    polycall_value_equals m2 (Some v) (Some w) = Some (cstr s = cstr t) \<and>
    (\<exists>m'. polycall_value_destroy (Some v) m1 = Some (Some NoneValue, m') \<and> (\<forall>k. block m' k = block m k))"
proof -
  have n: "unat (of_nat (length (cstr x)) + 1 :: u32) = length (cstr x) + 1"
    "unat (of_nat (length (cstr x)) :: u32) = length (cstr x)" if "length (cstr x) + 1 < 2 ^ 32" for x
    using that by (simp_all add: unat_word_ariths unsigned_of_nat take_bit_nat_eq_self)
  have v: "v = StringValue (Ptr (length m) 0) (of_nat (length (cstr s)))" "m1 = m @ [Some (cstr s @ [NUL])]"
    using assms(3) n [OF assms(1)] by (auto simp: copy_text_def malloc_def Let_def)
  have w: "w = StringValue (Ptr (length m1) 0) (of_nat (length (cstr t)))" "m2 = m1 @ [Some (cstr t @ [NUL])]"
    using assms(4) n [OF assms(2)] by (auto simp: copy_text_def malloc_def Let_def)
  have "read_bytes m2 (value_pointer v) (length (cstr s) + 1) = Some (cstr s @ [NUL])"
    by (simp add: v w block_def nth_append)
  moreover have "polycall_value_equals m2 (Some v) (Some w) = Some (cstr s = cstr t)"
  proof (cases "length (cstr s) = length (cstr t)")
    case True
    then have "read_bytes m2 (Ptr (length m) 0) (length (cstr t)) = Some (cstr s)"
      "read_bytes m2 (Ptr (length m1) 0) (length (cstr t)) = Some (cstr t)"
      by (simp_all add: v w block_def nth_append)
    then show ?thesis
      using True n(2) [OF assms(2)] by (simp add: v(1) w(1) same_text_def del: read_bytes.simps)
  next
    case False
    then have "(of_nat (length (cstr s)) :: u32) \<noteq> of_nat (length (cstr t))"
      using n(2) [OF assms(1)] n(2) [OF assms(2)] by metis
    with False show ?thesis by (auto simp: v(1) w(1) same_text_def)
  qed
  moreover have "\<exists>m'. free_block (length m) m1 = Some m' \<and> (\<forall>k. block m' k = block m k)"
    by (rule heap.alloc_release [of "cstr s @ [NUL]"]) (simp add: malloc_def v)
  ultimately show ?thesis by (auto simp: polycall_value_destroy_def v)
qed

theorem string_value_roundtrip_witness:
  "\<exists>v w m1 m2. polycall_value_create True VALUE_STRING (Some (TextData ''ab'')) [] = Some (v, m1) \<and>
     polycall_value_create True VALUE_STRING (Some (TextData ''ab'')) m1 = Some (w, m2) \<and>
     polycall_value_equals m2 (Some v) (Some w) = Some True"
proof -
  obtain v m1 w m2 where c: "polycall_value_create True VALUE_STRING (Some (TextData ''ab'')) [] = Some (v, m1)"
    "polycall_value_create True VALUE_STRING (Some (TextData ''ab'')) m1 = Some (w, m2)"
    by (metis polycall_value_create.simps(8) surj_pair)
  have "length (cstr ''ab'') + 1 < 2 ^ 32" by (simp add: cstr_def)
  then have "polycall_value_equals m2 (Some v) (Some w) = Some True"
    using string_value_roundtrip [OF _ _ c] by simp
  with c show ?thesis by blast
qed

end
