(* ===== verification/Ast.thy ===== *)
theory Ast
  imports Tokenizer
begin

text \<open>
  The syntax trees of \<open>src/polycall_parser.c\<close> and \<open>include/polycall_parser.h\<close>: nodes in a
  heap of blocks (a block is what one \<open>calloc\<close> gave: a single node, or the pool of the
  parser), and every public operation on nodes and trees. A node address is a block and an
  index into it. The child array of a node is its memory, \<open>child_count\<close> entries of it in
  use; no two nodes share one, so it is part of the node. Reading what is not there is
  \<open>Undefined\<close>. The recursive operations take the depth of the C stack as fuel.
\<close>

section \<open>Data\<close>

datatype ast_type =
    AST_NONE | AST_PROGRAM | AST_FUNCTION | AST_VARIABLE | AST_EXPRESSION | AST_STATEMENT
  | AST_BLOCK | AST_CONTROL_FLOW | AST_ERROR

type_synonym node_address = "nat \<times> nat"

definition AST_ATTR_NONE :: u32 where "AST_ATTR_NONE = 0"

record ast_node =
  nd_type :: ast_type
  nd_attrs :: u32
  nd_value :: polycall_value
  nd_line :: u32
  nd_column :: u32
  nd_child_count :: u32
  nd_children :: "node_address option list"
  nd_parent :: "node_address option"

type_synonym node_heap = "ast_node list option list"

text \<open>What \<open>calloc\<close> leaves in a node.\<close>

definition zero_node :: ast_node where
  "zero_node = \<lparr>nd_type = AST_NONE, nd_attrs = AST_ATTR_NONE, nd_value = NoneValue, nd_line = 0,
     nd_column = 0, nd_child_count = 0, nd_children = [], nd_parent = None\<rparr>"

record ast =
  ast_root :: "node_address option"
  ast_nodes :: "node_address option list"
  ast_node_count :: u32
  ast_capacity :: u32
  ast_error_count :: u32

type_synonym ast_transform = "node_address option \<Rightarrow> node_heap \<Rightarrow> node_address option \<times> node_heap"
type_synonym ast_predicate = "node_heap \<Rightarrow> node_address option \<Rightarrow> bool"

definition node_at :: "node_heap \<Rightarrow> node_address \<Rightarrow> ast_node option" where
  "node_at h a =
     (case block h (fst a) of None \<Rightarrow> None
      | Some ns \<Rightarrow> if snd a < length ns then Some (ns ! snd a) else None)"

definition set_node :: "node_address \<Rightarrow> ast_node \<Rightarrow> node_heap \<Rightarrow> node_heap" where
  "set_node a n h =
     (case block h (fst a) of None \<Rightarrow> h | Some ns \<Rightarrow> h[fst a := Some (ns[snd a := n])])"

text \<open>\<open>children[i]\<close>, and the children in use.\<close>

definition child :: "ast_node \<Rightarrow> nat \<Rightarrow> node_address option option" where
  "child n i = (if i < length (nd_children n) then Some (nd_children n ! i) else None)"

definition child_slots :: "ast_node \<Rightarrow> node_address option list option" where
  "child_slots n =
     (if unat (nd_child_count n) \<le> length (nd_children n)
      then Some (take (unat (nd_child_count n)) (nd_children n)) else None)"


section \<open>Nodes\<close>

definition polycall_ast_create_node ::
  "bool \<Rightarrow> ast_type \<Rightarrow> polycall_value option \<Rightarrow> node_heap \<Rightarrow> node_address option \<times> node_heap" where
  "polycall_ast_create_node calloc_ok type value h =
     (if \<not> calloc_ok then (None, h)
      else let n = zero_node\<lparr>nd_type := type, nd_value := (case value of None \<Rightarrow> NoneValue | Some v \<Rightarrow> v)\<rparr>;
               (b, h') = malloc [n] h
           in (Some (b, 0), h'))"

text \<open>\<open>free(node)\<close>: only the start of a block may be freed.\<close>

definition free_node :: "node_address \<Rightarrow> node_heap \<Rightarrow> node_heap option" where
  "free_node a h = (if snd a = 0 then free_block (fst a) h else None)"

text \<open>Children first; the loop walks the child array of the node.\<close>

fun polycall_ast_destroy_node :: "nat \<Rightarrow> node_address option \<Rightarrow> node_heap \<Rightarrow> node_heap run" where
  "polycall_ast_destroy_node fuel None h = returns h"
| "polycall_ast_destroy_node 0 (Some a) h = None"
| "polycall_ast_destroy_node (Suc fuel) (Some a) h =
     need (node_at h a) (\<lambda>n. need (child_slots n) (\<lambda>cs.
       run_then (fold_run (polycall_ast_destroy_node fuel) cs h)
         (\<lambda>h'. need (free_node a h') returns)))"

text \<open>
  The array grows by one; \<open>realloc_ok\<close> is the outcome of \<open>realloc\<close>. The new size is computed
  in \<open>uint32_t\<close>.
\<close>

definition polycall_ast_add_child ::
  "bool \<Rightarrow> node_address option \<Rightarrow> node_address option \<Rightarrow> node_heap \<Rightarrow> (bool \<times> node_heap) run" where
  "polycall_ast_add_child realloc_ok parent child_node h =
     (case (parent, child_node) of
        (Some p, Some c) \<Rightarrow> need (node_at h p) (\<lambda>n.
          let new_size = unat (nd_child_count n + 1)
          in if \<not> realloc_ok then returns (False, h)
             else if new_size = 0 \<or> length (nd_children n) < unat (nd_child_count n) then Some Undefined
             else let arr = take (unat (nd_child_count n)) (nd_children n) @ [Some c];
                      h' = set_node p (n\<lparr>nd_children := arr, nd_child_count := nd_child_count n + 1\<rparr>) h
                  in need (node_at h' c) (\<lambda>k. returns (True, set_node c (k\<lparr>nd_parent := Some p\<rparr>) h')))
      | _ \<Rightarrow> returns (False, h))"

definition update_node ::
  "(ast_node \<Rightarrow> ast_node) \<Rightarrow> node_address option \<Rightarrow> node_heap \<Rightarrow> node_heap run" where
  "update_node f node h =
     (case node of None \<Rightarrow> returns h
      | Some a \<Rightarrow> need (node_at h a) (\<lambda>n. returns (set_node a (f n) h)))"

definition polycall_ast_set_attributes :: "node_address option \<Rightarrow> u32 \<Rightarrow> node_heap \<Rightarrow> node_heap run" where
  "polycall_ast_set_attributes node attrs = update_node (\<lambda>n. n\<lparr>nd_attrs := attrs\<rparr>) node"

definition polycall_ast_set_location ::
  "node_address option \<Rightarrow> u32 \<Rightarrow> u32 \<Rightarrow> node_heap \<Rightarrow> node_heap run" where
  "polycall_ast_set_location node line column =
     update_node (\<lambda>n. n\<lparr>nd_line := line, nd_column := column\<rparr>) node"

definition polycall_ast_get_attributes :: "node_address option \<Rightarrow> node_heap \<Rightarrow> u32 run" where
  "polycall_ast_get_attributes node h =
     (case node of None \<Rightarrow> returns AST_ATTR_NONE
      | Some a \<Rightarrow> need (node_at h a) (\<lambda>n. returns (nd_attrs n)))"

text \<open>\<open>None\<close> in the result: nothing was stored. \<open>line\<close> and \<open>column\<close> tell which pointers are there.\<close>

definition polycall_ast_get_location ::
  "node_address option \<Rightarrow> bool \<Rightarrow> bool \<Rightarrow> node_heap \<Rightarrow> (u32 \<times> u32) option run" where
  "polycall_ast_get_location node line column h =
     (case node of None \<Rightarrow> returns None
      | Some a \<Rightarrow>
          if \<not> line \<or> \<not> column then returns None
          else need (node_at h a) (\<lambda>n. returns (Some (nd_line n, nd_column n))))"


section \<open>Visiting\<close>

text \<open>A visitor reads nodes and changes its \<open>user_data\<close>; node before children.\<close>

type_synonym 's visitor = "node_address \<Rightarrow> 's \<Rightarrow> 's run"

fun visit_node :: "nat \<Rightarrow> node_heap \<Rightarrow> 's visitor \<Rightarrow> node_address option \<Rightarrow> 's \<Rightarrow> 's run" where
  "visit_node fuel h visitor None s = returns s"
| "visit_node 0 h visitor (Some a) s = None"
| "visit_node (Suc fuel) h visitor (Some a) s =
     run_then (visitor a s) (\<lambda>s'.
       need (node_at h a) (\<lambda>n. need (child_slots n) (\<lambda>cs.
         fold_run (visit_node fuel h visitor) cs s')))"

definition polycall_ast_visit ::
  "nat \<Rightarrow> node_heap \<Rightarrow> node_address option \<Rightarrow> 's visitor option \<Rightarrow> 's \<Rightarrow> 's run" where
  "polycall_ast_visit fuel h node visitor s =
     (case visitor of None \<Rightarrow> returns s | Some v \<Rightarrow> visit_node fuel h v node s)"

definition count_node :: "u32 visitor" where
  "count_node a count = returns (count + 1)"

text \<open>\<open>opt->nodes[opt->node_count++] = node\<close>, undefined beyond the array.\<close>

definition collect_optimized_node :: "ast visitor" where
  "collect_optimized_node a t =
     (if unat (ast_node_count t) < length (ast_nodes t)
      then returns (t\<lparr>ast_nodes := (ast_nodes t)[unat (ast_node_count t) := Some a],
                      ast_node_count := ast_node_count t + 1\<rparr>)
      else Some Undefined)"


section \<open>Validation\<close>

definition DEFAULT_MAX_DEPTH :: nat where "DEFAULT_MAX_DEPTH = 256"

fun validate_node_structure ::
  "nat \<Rightarrow> node_heap \<Rightarrow> node_address option \<Rightarrow> nat \<Rightarrow> nat \<Rightarrow> bool run" where
  "validate_node_structure 0 h node depth max_depth = None"
| "validate_node_structure (Suc fuel) h node depth max_depth =
     (case node of None \<Rightarrow> returns False
      | Some a \<Rightarrow>
          if depth > max_depth then returns False
          else need (node_at h a) (\<lambda>n. need (child_slots n) (\<lambda>cs.
            fold_run (\<lambda>c ok.
                if \<not> ok then returns False
                else case c of None \<Rightarrow> returns False
                  | Some b \<Rightarrow> need (node_at h b) (\<lambda>k.
                      if nd_parent k \<noteq> Some a then returns False
                      else validate_node_structure fuel h c (depth + 1) max_depth))
              cs True)))"

definition polycall_ast_validate :: "nat \<Rightarrow> node_heap \<Rightarrow> ast option \<Rightarrow> bool run" where
  "polycall_ast_validate fuel h t =
     (case t of None \<Rightarrow> returns False
      | Some t \<Rightarrow>
          if ast_root t = None then returns False
          else run_then (polycall_ast_visit fuel h (ast_root t) (Some count_node) 0) (\<lambda>counted_nodes.
            if counted_nodes \<noteq> ast_node_count t then returns False
            else validate_node_structure fuel h (ast_root t) 0 DEFAULT_MAX_DEPTH))"


section \<open>Trees as arrays of nodes\<close>

text \<open>The entries of the flat array in use.\<close>

definition node_entries :: "ast \<Rightarrow> node_address option list option" where
  "node_entries t =
     (if unat (ast_node_count t) \<le> length (ast_nodes t)
      then Some (take (unat (ast_node_count t)) (ast_nodes t)) else None)"

definition polycall_ast_map ::
  "node_address option \<Rightarrow> ast_transform option \<Rightarrow> node_heap \<Rightarrow> node_address option \<times> node_heap" where
  "polycall_ast_map node transform h =
     (case (node, transform) of (Some a, Some f) \<Rightarrow> f (Some a) h | _ \<Rightarrow> (None, h))"

definition array_ast :: "node_address option \<Rightarrow> u32 \<Rightarrow> node_address option list \<Rightarrow> ast" where
  "array_ast root capacity ns =
     \<lparr>ast_root = root, ast_nodes = ns @ replicate (unat capacity - length ns) None,
      ast_node_count = of_nat (length ns), ast_capacity = capacity, ast_error_count = 0\<rparr>"

text \<open>\<open>calloc_ok\<close> is for the tree, \<open>nodes_ok\<close> for its array; without an array it stays empty.\<close>

definition polycall_ast_filter ::
  "bool \<Rightarrow> bool \<Rightarrow> node_heap \<Rightarrow> ast option \<Rightarrow> ast_predicate option \<Rightarrow> ast option run" where
  "polycall_ast_filter calloc_ok nodes_ok h t predicate =
     (case (t, predicate) of
        (Some t, Some p) \<Rightarrow>
          if \<not> calloc_ok then returns None
          else if \<not> nodes_ok then returns (Some \<lparr>ast_root = None, ast_nodes = [], ast_node_count = 0,
            ast_capacity = ast_node_count t, ast_error_count = 0\<rparr>)
          else need (node_entries t) (\<lambda>ns.
            returns (Some (array_ast None (ast_node_count t) (filter (p h) ns))))
      | _ \<Rightarrow> returns None)"

text \<open>The transforms of a chain in turn, up to the first that gives NULL; NULL entries are skipped.\<close>

fun run_transforms ::
  "ast_transform option list \<Rightarrow> node_address option \<Rightarrow> node_heap \<Rightarrow> node_address option \<times> node_heap" where
  "run_transforms [] node h = (node, h)"
| "run_transforms (None # fs) node h = run_transforms fs node h"
| "run_transforms (Some f # fs) node h =
     (case f node h of (None, h') \<Rightarrow> (None, h') | (Some b, h') \<Rightarrow> run_transforms fs (Some b) h')"

fun transform_nodes ::
  "ast_transform option list \<Rightarrow> node_address option list \<Rightarrow> node_heap \<Rightarrow> node_address option list \<times> node_heap" where
  "transform_nodes fs [] h = ([], h)"
| "transform_nodes fs (a # as) h =
     (let (b, h1) = run_transforms fs a h; (bs, h2) = transform_nodes fs as h1
      in (if b = None then bs else b # bs, h2))"

definition polycall_ast_create_transforms ::
  "bool \<Rightarrow> ast_transform option list option \<Rightarrow> nat \<Rightarrow> ast_transform option list option" where
  "polycall_ast_create_transforms calloc_ok transforms count =
     (case transforms of None \<Rightarrow> None
      | Some fs \<Rightarrow> if count = 0 \<or> \<not> calloc_ok then None else Some (take count fs))"

text \<open>The object is freed: the caller's pointer dangles.\<close>

definition polycall_ast_destroy_transforms ::
  "ast_transform option list option \<Rightarrow> ast_transform option list option" where
  "polycall_ast_destroy_transforms transforms = None"

definition polycall_ast_apply_transforms ::
  "bool \<Rightarrow> ast option \<Rightarrow> ast_transform option list option \<Rightarrow> node_heap \<Rightarrow> (ast option \<times> node_heap) run" where
  "polycall_ast_apply_transforms calloc_ok t transforms h =
     (case (t, transforms) of
        (Some t, Some fs) \<Rightarrow>
          if \<not> calloc_ok then returns (None, h)
          else need (node_entries t) (\<lambda>ns.
            let (bs, h') = transform_nodes fs ns h
            in returns (Some (array_ast (if bs = [] then None else hd bs) (ast_node_count t) bs), h'))
      | _ \<Rightarrow> returns (None, h))"

text \<open>The first entry of a type; NULL entries are dereferenced.\<close>

fun find_entry :: "node_heap \<Rightarrow> ast_type \<Rightarrow> node_address option list \<Rightarrow> node_address option run" where
  "find_entry h type [] = returns None"
| "find_entry h type (a # as) =
     need (Option.bind a (node_at h)) (\<lambda>n. if nd_type n = type then returns a else find_entry h type as)"

fun find_entries :: "node_heap \<Rightarrow> ast_type \<Rightarrow> node_address option list \<Rightarrow> node_address option list run" where
  "find_entries h type [] = returns []"
| "find_entries h type (a # as) =
     need (Option.bind a (node_at h)) (\<lambda>n. run_then (find_entries h type as)
       (\<lambda>bs. returns (if nd_type n = type then a # bs else bs)))"

definition polycall_ast_find_node :: "node_heap \<Rightarrow> ast option \<Rightarrow> ast_type \<Rightarrow> node_address option run" where
  "polycall_ast_find_node h t type =
     (case t of None \<Rightarrow> returns None | Some t \<Rightarrow> need (node_entries t) (find_entry h type))"

text \<open>The array found, NULL if there is none or it cannot be allocated, and \<open>*count\<close>.\<close>

definition polycall_ast_find_nodes ::
  "bool \<Rightarrow> node_heap \<Rightarrow> ast option \<Rightarrow> ast_type \<Rightarrow> (node_address option list option \<times> nat) run" where
  "polycall_ast_find_nodes calloc_ok h t type =
     (case t of None \<Rightarrow> returns (None, 0)
      | Some t \<Rightarrow> need (node_entries t) (\<lambda>ns. run_then (find_entries h type ns) (\<lambda>found.
          if found = [] \<or> \<not> calloc_ok then returns (None, 0) else returns (Some found, length found))))"


section \<open>Optimization\<close>

text \<open>Level 1 replaces a block of one child by the child; the other levels do nothing yet.\<close>

fun optimize_node :: "nat \<Rightarrow> nat \<Rightarrow> node_address option \<Rightarrow> node_heap \<Rightarrow> (node_address option \<times> node_heap) run" where
  "optimize_node fuel level None h = returns (None, h)"
| "optimize_node 0 level (Some a) h = None"
| "optimize_node (Suc fuel) level (Some a) h =
     need (node_at h a) (\<lambda>n.
       if level = 1 \<and> nd_type n = AST_BLOCK \<and> nd_child_count n = 1
       then need (child n 0) (\<lambda>c. need (free_node a h) (\<lambda>h'. optimize_node fuel level c h'))
       else run_then (fold_run (\<lambda>i h. need (node_at h a) (\<lambda>n. need (child n i) (\<lambda>c.
               run_then (optimize_node fuel level c h) (\<lambda>(c', h').
                 need (node_at h' a) (\<lambda>n'.
                   returns (set_node a (n'\<lparr>nd_children := (nd_children n')[i := c']\<rparr>) h'))))))
             [0..<unat (nd_child_count n)] h)
           (\<lambda>h'. returns (Some a, h')))"

text \<open>\<open>calloc_ok\<close> is for the tree, \<open>nodes_ok\<close> for its array, \<open>node_ok\<close> for the new root.\<close>

definition polycall_ast_optimize ::
  "nat \<Rightarrow> bool \<Rightarrow> bool \<Rightarrow> bool \<Rightarrow> ast option \<Rightarrow> nat \<Rightarrow> node_heap \<Rightarrow> (ast option \<times> node_heap) run" where
  "polycall_ast_optimize fuel calloc_ok nodes_ok node_ok t level h =
     (case Option.bind t ast_root of None \<Rightarrow> returns (None, h)
      | Some r \<Rightarrow>
          if \<not> calloc_ok \<or> \<not> nodes_ok then returns (None, h)
          else need (node_at h r) (\<lambda>n.
            let (copy, h1) = polycall_ast_create_node node_ok (nd_type n) (Some (nd_value n)) h
            in run_then (optimize_node fuel level copy h1) (\<lambda>(root, h2).
                 if root = None then returns (None, h2)
                 else let opt = \<lparr>ast_root = root, ast_nodes = replicate (unat (ast_capacity (the t))) None,
                                 ast_node_count = 0, ast_capacity = ast_capacity (the t), ast_error_count = 0\<rparr>
                      in run_then (polycall_ast_visit fuel h2 root (Some collect_optimized_node) opt)
                           (\<lambda>opt'. returns (Some opt', h2)))))"

end
