(* ===== verification/Ast_Laws.thy ===== *)
theory Ast_Laws
  imports Ast
begin

text \<open>
  Trees of nodes in the heap, as an algebraic datatype of addresses, and what the recursive
  operations do on them: visiting is a fold over the nodes, validation decides depth and
  parent links, destruction releases exactly the nodes, and adding a child to a root gives
  the larger tree.
\<close>

section \<open>Trees in the heap\<close>

datatype node_tree = Tree node_address "node_tree list"

fun tree_root :: "node_tree \<Rightarrow> node_address" where
  "tree_root (Tree a ts) = a"

text \<open>The nodes in the order a visit meets them.\<close>

fun tree_nodes :: "node_tree \<Rightarrow> node_address list" where
  "tree_nodes (Tree a ts) = a # concat (map tree_nodes ts)"

fun tree_height :: "node_tree \<Rightarrow> nat" where
  "tree_height (Tree a ts) = Suc (fold max (map tree_height ts) 0)"

text \<open>A tree is in the heap: its nodes are live and their child arrays list the subtrees.\<close>

fun tree_in :: "node_heap \<Rightarrow> node_tree \<Rightarrow> bool" where
  "tree_in h (Tree a ts) \<longleftrightarrow>
     Option.bind (node_at h a) child_slots = Some (map (\<lambda>t. Some (tree_root t)) ts) \<and>
     list_all (tree_in h) ts"

fun parents_ok :: "node_heap \<Rightarrow> node_tree \<Rightarrow> bool" where
  "parents_ok h (Tree a ts) \<longleftrightarrow>
     list_all (\<lambda>t. Option.bind (node_at h (tree_root t)) nd_parent = Some a \<and> parents_ok h t) ts"

lemma fold_max_le: "fold max xs s \<le> (k :: nat) \<longleftrightarrow> s \<le> k \<and> (\<forall>x \<in> set xs. x \<le> k)"
  by (induction xs arbitrary: s) auto

lemma height_subtree: "t \<in> set ts \<Longrightarrow> tree_height (Tree a ts) \<le> Suc k \<Longrightarrow> tree_height t \<le> k"
  by (simp add: fold_max_le)

lemma tree_in_node:
  "tree_in h (Tree a ts) \<Longrightarrow>
   \<exists>n. node_at h a = Some n \<and> child_slots n = Some (map (\<lambda>t. Some (tree_root t)) ts)"
  by (auto simp: bind_eq_Some_conv)


section \<open>Visiting\<close>

lemma visit_tree:
  "tree_in h t \<Longrightarrow> tree_height t \<le> fuel \<Longrightarrow>
   visit_node fuel h visitor (Some (tree_root t)) s = fold_run visitor (tree_nodes t) s"
proof (induction t arbitrary: fuel s rule: tree_nodes.induct)
  case (1 a ts)
  obtain k where k: "fuel = Suc k" using 1(3) by (cases fuel) auto
  from tree_in_node [OF 1(2)] obtain n where n: "node_at h a = Some n"
    "child_slots n = Some (map (\<lambda>t. Some (tree_root t)) ts)" by blast
  have "visit_node k h visitor (Some (tree_root t)) s = fold_run visitor (tree_nodes t) s" if "t \<in> set ts" for t s
    using that 1(2,3) k height_subtree [of t ts a k] by (intro 1(1)) (auto simp: list_all_iff)
  then have "fold_run (visit_node k h visitor) (map (\<lambda>t. Some (tree_root t)) ts) s =
      fold_run visitor (concat (map tree_nodes ts)) s" for s
    by (induction ts arbitrary: s)
       (simp_all add: fold_run_append run_then_def split: option.split outcome.split)
  with n show ?case by (simp add: k run_then_def split: option.split outcome.split)
qed

lemma count_nodes: "fold_run count_node xs s = returns (s + of_nat (length xs))"
  by (induction xs arbitrary: s) (simp_all add: count_node_def add.commute add.left_commute)


section \<open>Validation\<close>

lemma fold_run_all:
  "(\<And>x. x \<in> set xs \<Longrightarrow> f (g x) True = returns (P x)) \<Longrightarrow> (\<And>y. f y False = returns False) \<Longrightarrow>
   fold_run f (map g xs) b = returns (b \<and> list_all P xs)"
proof (induction xs arbitrary: b)
  case (Cons x xs)
  then show ?case by (cases b) simp_all
qed simp

lemma validate_tree:
  "tree_in h t \<Longrightarrow> tree_height t \<le> fuel \<Longrightarrow>
   validate_node_structure fuel h (Some (tree_root t)) depth max_depth =
     returns (depth + tree_height t \<le> Suc max_depth \<and> parents_ok h t)"
proof (induction t arbitrary: fuel depth rule: tree_nodes.induct)
  case (1 a ts)
  obtain k where k: "fuel = Suc k" using 1(3) by (cases fuel) auto
  from tree_in_node [OF 1(2)] obtain n where n: "node_at h a = Some n"
    "child_slots n = Some (map (\<lambda>t. Some (tree_root t)) ts)" by blast
  let ?f = "\<lambda>c ok. if \<not> ok then returns False
                else case c of None \<Rightarrow> returns False
                  | Some b \<Rightarrow> need (node_at h b) (\<lambda>k'.
                      if nd_parent k' \<noteq> Some a then returns False
                      else validate_node_structure k h c (depth + 1) max_depth)"
  have child: "?f (Some (tree_root t)) True = returns (Option.bind (node_at h (tree_root t)) nd_parent = Some a \<and>
      depth + 1 + tree_height t \<le> Suc max_depth \<and> parents_ok h t)" if t: "t \<in> set ts" for t
  proof -
    have ti: "tree_in h t" "tree_height t \<le> k"
      using t 1(2,3) k height_subtree [of t ts a k] by (auto simp: list_all_iff)
    obtain b us where "t = Tree b us" by (cases t)
    with tree_in_node ti(1) obtain m where "node_at h (tree_root t) = Some m" by fastforce
    then show ?thesis using 1(1) [OF t ti, of "depth + 1"] by simp
  qed
  have "fold_run ?f (map (\<lambda>t. Some (tree_root t)) ts) True =
      returns (list_all (\<lambda>t. Option.bind (node_at h (tree_root t)) nd_parent = Some a \<and>
        depth + 1 + tree_height t \<le> Suc max_depth \<and> parents_ok h t) ts)"
    by (subst fold_run_all [where P = "\<lambda>t. Option.bind (node_at h (tree_root t)) nd_parent = Some a \<and>
        depth + 1 + tree_height t \<le> Suc max_depth \<and> parents_ok h t"]) (use child in auto)
  moreover have "list_all (\<lambda>t. depth + 1 + tree_height t \<le> Suc max_depth) ts \<and> depth \<le> max_depth \<longleftrightarrow>
      depth + tree_height (Tree a ts) \<le> Suc max_depth"
  proof -
    have "depth + tree_height (Tree a ts) \<le> Suc max_depth \<longleftrightarrow>
        fold max (map tree_height ts) 0 \<le> max_depth - depth \<and> depth \<le> max_depth"
      by auto
    also have "\<dots> \<longleftrightarrow> list_all (\<lambda>t. depth + 1 + tree_height t \<le> Suc max_depth) ts \<and> depth \<le> max_depth"
      unfolding fold_max_le by (cases "depth \<le> max_depth") (auto simp: list_all_iff le_diff_conv2 add.commute)
    finally show ?thesis by simp
  qed
  ultimately show ?case
    using n by (auto simp: k list_all_iff)
qed


section \<open>Destruction\<close>

text \<open>Nodes that were allocated one by one: a block of their own each.\<close>

definition own_blocks :: "node_address list \<Rightarrow> bool" where
  "own_blocks as \<longleftrightarrow> distinct as \<and> (\<forall>a \<in> set as. snd a = 0)"

definition released :: "node_address list \<Rightarrow> node_heap \<Rightarrow> node_heap \<Rightarrow> bool" where
  "released as h h' \<longleftrightarrow> (\<forall>k. block h' k = (if (k, 0) \<in> set as then None else block h k))"

lemma own_blocks_append:
  "own_blocks (as @ bs) \<longleftrightarrow> own_blocks as \<and> own_blocks bs \<and> set as \<inter> set bs = {}"
  by (auto simp: own_blocks_def)

lemma released_append: "released as h h1 \<Longrightarrow> released bs h1 h2 \<Longrightarrow> released (as @ bs) h h2"
  by (auto simp: released_def)

lemma released_node_at:
  "released as h h' \<Longrightarrow> snd a = 0 \<Longrightarrow> a \<notin> set as \<Longrightarrow> node_at h' a = node_at h a"
  by (cases a) (simp add: released_def node_at_def)

lemma released_tree_in:
  "released as h h' \<Longrightarrow> own_blocks (tree_nodes t) \<Longrightarrow> set as \<inter> set (tree_nodes t) = {} \<Longrightarrow>
   tree_in h t \<Longrightarrow> tree_in h' t"
proof (induction t rule: tree_nodes.induct)
  case (1 a ts)
  have "node_at h' a = node_at h a"
    using 1(2-4) by (intro released_node_at) (auto simp: own_blocks_def)
  moreover have "tree_in h' t" if t: "t \<in> set ts" for t
  proof (rule 1(1) [OF t 1(2)])
    have "distinct (concat (map tree_nodes ts))" using 1(3) by (simp add: own_blocks_def)
    then have "distinct (tree_nodes t)" using t by (auto simp: distinct_concat_iff)
    then show "own_blocks (tree_nodes t)" using 1(3) t by (auto simp: own_blocks_def)
  qed (use 1(4,5) t in \<open>auto simp: list_all_iff\<close>)
  ultimately show ?case using 1(5) by (auto simp: list_all_iff)
qed

lemma destroy_tree:
  "tree_in h t \<Longrightarrow> tree_height t \<le> fuel \<Longrightarrow> own_blocks (tree_nodes t) \<Longrightarrow>
   \<exists>h'. polycall_ast_destroy_node fuel (Some (tree_root t)) h = returns h' \<and> released (tree_nodes t) h h'"
proof (induction t arbitrary: fuel h rule: tree_nodes.induct)
  case (1 a ts)
  obtain k where k: "fuel = Suc k" using 1(3) by (cases fuel) auto
  from tree_in_node [OF 1(2)] obtain n where n: "node_at h a = Some n"
    "child_slots n = Some (map (\<lambda>t. Some (tree_root t)) ts)" by blast
  have "\<exists>h'. fold_run (polycall_ast_destroy_node k) (map (\<lambda>t. Some (tree_root t)) us) h0 = returns h' \<and>
      released (concat (map tree_nodes us)) h0 h'"
    if "set us \<subseteq> set ts" "own_blocks (concat (map tree_nodes us))" "list_all (tree_in h0) us" for us h0
    using that
  proof (induction us arbitrary: h0)
    case Nil
    then show ?case by (simp add: released_def)
  next
    case (Cons u us)
    have own: "own_blocks (tree_nodes u)" "own_blocks (concat (map tree_nodes us))"
      "set (tree_nodes u) \<inter> set (concat (map tree_nodes us)) = {}"
      using Cons.prems(2) by (auto simp: own_blocks_append)
    have u: "u \<in> set ts" using Cons.prems(1) by simp
    obtain h1 where h1: "polycall_ast_destroy_node k (Some (tree_root u)) h0 = returns h1"
      "released (tree_nodes u) h0 h1"
      using 1(1) [OF u, of h0 k] height_subtree [OF u 1(3) [unfolded k]] own(1) Cons.prems(3) by auto
    have "tree_in h1 v" if v: "v \<in> set us" for v
    proof (rule released_tree_in [OF h1(2)])
      have "distinct (concat (map tree_nodes us))" using own(2) by (simp add: own_blocks_def)
      then show "own_blocks (tree_nodes v)"
        using own(2) v by (auto simp: own_blocks_def distinct_concat_iff)
    qed (use own(3) v Cons.prems(3) in \<open>auto simp: list_all_iff\<close>)
    then obtain h2 where "fold_run (polycall_ast_destroy_node k) (map (\<lambda>t. Some (tree_root t)) us) h1 = returns h2"
      "released (concat (map tree_nodes us)) h1 h2"
      using Cons.IH [of h1] Cons.prems(1) own(2) by (auto simp: list_all_iff)
    with h1 released_append [OF h1(2)] show ?case by auto
  qed
  moreover have "own_blocks (concat (map tree_nodes ts))" "a \<notin> set (concat (map tree_nodes ts))" "snd a = 0"
    using 1(4) by (auto simp: own_blocks_def)
  ultimately obtain h' where h': "fold_run (polycall_ast_destroy_node k) (map (\<lambda>t. Some (tree_root t)) ts) h = returns h'"
    "released (concat (map tree_nodes ts)) h h'"
    using 1(2) by fastforce
  have live: "block h' (fst a) \<noteq> None"
    using released_node_at [OF h'(2) \<open>snd a = 0\<close>] \<open>a \<notin> _\<close> n(1) by (auto simp: node_at_def split: option.splits)
  then obtain h2 where h2: "free_block (fst a) h' = Some h2" using heap.release_live [OF live] by blast
  then have "released (concat (map tree_nodes ts) @ [a]) h h2"
    using h'(2) heap.release_contents [OF h2] \<open>snd a = 0\<close> by (cases a) (auto simp: released_def)
  then have "released (tree_nodes (Tree a ts)) h h2" by (simp add: released_def)
  then show ?case
    using n h' h2 \<open>snd a = 0\<close> by (auto simp: k free_node_def)
qed


section \<open>Construction\<close>

lemma node_at_set_node [simp]:
  "node_at h a \<noteq> None \<Longrightarrow> node_at (set_node a n h) b = (if b = a then Some n else node_at h b)"
  by (cases a; cases b)
     (auto simp: node_at_def set_node_def block_update nth_list_update split: option.splits if_splits)

lemma tree_in_cong:
  "\<forall>a \<in> set (tree_nodes t). Option.bind (node_at h' a) child_slots = Option.bind (node_at h a) child_slots \<Longrightarrow>
   tree_in h' t = tree_in h t"
  by (induction t rule: tree_nodes.induct) (auto simp: list_all_iff)

lemma parents_ok_cong:
  "\<forall>a \<in> set (tl (tree_nodes t)). Option.bind (node_at h' a) nd_parent = Option.bind (node_at h a) nd_parent \<Longrightarrow>
   parents_ok h' t = parents_ok h t"
proof (induction t rule: tree_nodes.induct)
  case (1 a ts)
  have "Option.bind (node_at h' (tree_root t)) nd_parent = Option.bind (node_at h (tree_root t)) nd_parent \<and>
      parents_ok h' t = parents_ok h t" if t: "t \<in> set ts" for t
  proof -
    have sub: "set (tree_nodes t) \<subseteq> set (tl (tree_nodes (Tree a ts)))" using t by auto
    moreover have "set (tl (tree_nodes t)) \<subseteq> set (tree_nodes t)" "tree_root t \<in> set (tree_nodes t)"
      by (cases t; auto)+
    ultimately show ?thesis using 1(1) [OF t] 1(2) by (meson subsetD)
  qed
  then show ?case by (auto simp: list_all_iff)
qed

lemma add_child_tree:
  assumes "tree_in h (Tree p ts)" "tree_in h t" "distinct (tree_nodes (Tree p ts) @ tree_nodes t)"
    and "length ts + 1 < 2 ^ 32" "parents_ok h (Tree p ts)" "parents_ok h t"
  shows "\<exists>h'. polycall_ast_add_child True (Some p) (Some (tree_root t)) h = returns (True, h') \<and>
    tree_in h' (Tree p (ts @ [t])) \<and> parents_ok h' (Tree p (ts @ [t]))"
proof -
  from tree_in_node [OF assms(1)] obtain n where n: "node_at h p = Some n"
    "child_slots n = Some (map (\<lambda>t. Some (tree_root t)) ts)" by blast
  then have count: "unat (nd_child_count n) \<le> length (nd_children n)"
    "take (unat (nd_child_count n)) (nd_children n) = map (\<lambda>t. Some (tree_root t)) ts"
    by (auto simp: child_slots_def split: if_splits)
  then have len: "unat (nd_child_count n) = length ts" by (metis length_map length_take min.absorb2)
  then have inc: "unat (nd_child_count n + 1) = length ts + 1"
    using assms(4) by (simp add: unat_word_ariths)
  let ?c = "tree_root t"
  let ?n = "n\<lparr>nd_children := map (\<lambda>t. Some (tree_root t)) ts @ [Some ?c], nd_child_count := nd_child_count n + 1\<rparr>"
  let ?h1 = "set_node p ?n h"
  obtain us where t: "t = Tree ?c us" by (cases t) auto
  then obtain m where m: "node_at h ?c = Some m" using assms(2) tree_in_node by metis
  have t_in: "?c \<in> set (tree_nodes t)" by (subst t) simp
  have disjoint: "set (tree_nodes (Tree p ts)) \<inter> set (tree_nodes t) = {}"
    using assms(3) by (simp only: distinct_append)
  then have cp: "?c \<noteq> p" using t_in by auto
  let ?h2 = "set_node ?c (m\<lparr>nd_parent := Some p\<rparr>) ?h1"
  have run: "polycall_ast_add_child True (Some p) (Some ?c) h = returns (True, ?h2)"
    using n(1) m cp count inc len by (simp add: polycall_ast_add_child_def Let_def)
  have at: "node_at ?h2 a = (if a = ?c then Some (m\<lparr>nd_parent := Some p\<rparr>) else if a = p then Some ?n else node_at h a)" for a
    using n(1) m cp by simp
  have slots: "Option.bind (node_at ?h2 a) child_slots = Option.bind (node_at h a) child_slots" if "a \<noteq> p" for a
    using that m by (simp add: at child_slots_def)
  have kept: "tree_in ?h2 u = tree_in h u" if "p \<notin> set (tree_nodes u)" for u
    using that slots by (intro tree_in_cong ballI) metis
  have parents: "parents_ok ?h2 u = parents_ok h u" if "?c \<notin> set (tl (tree_nodes u))" for u
    using that n(1) by (intro parents_ok_cong ballI) (auto simp: at)
  have "Option.bind (node_at ?h2 p) child_slots = Some (map (\<lambda>t. Some (tree_root t)) (ts @ [t]))"
    using cp inc by (simp add: at child_slots_def)
  moreover have "list_all (tree_in ?h2) (ts @ [t])"
    using assms(1-3) kept by (auto simp: list_all_iff)
  moreover have "list_all (\<lambda>u. Option.bind (node_at ?h2 (tree_root u)) nd_parent = Some p \<and> parents_ok ?h2 u) ts"
  proof -
    have "Option.bind (node_at ?h2 (tree_root u)) nd_parent = Some p \<and> parents_ok ?h2 u" if u: "u \<in> set ts" for u
    proof -
      have "set (tree_nodes u) \<subseteq> set (tree_nodes (Tree p ts))" using u by auto
      then have c: "?c \<notin> set (tree_nodes u)" using disjoint t_in by blast
      have "tree_root u \<in> set (tree_nodes u)" "set (tl (tree_nodes u)) \<subseteq> set (tree_nodes u)" by (cases u; auto)+
      moreover have "Option.bind (node_at h (tree_root u)) nd_parent = Some p" "parents_ok h u"
        using assms(5) u by (auto simp: list_all_iff)
      ultimately show ?thesis using c parents [of u] n(1) by (auto simp: at)
    qed
    then show ?thesis by (simp add: list_all_iff)
  qed
  moreover have "parents_ok ?h2 t" "Option.bind (node_at ?h2 ?c) nd_parent = Some p"
  proof -
    have "?c \<notin> set (tl (tree_nodes t))"
    proof -
      have "distinct (tree_nodes t)" using assms(3) by (simp only: distinct_append)
      then show ?thesis by (subst (asm) t, subst t) simp
    qed
    then show "parents_ok ?h2 t" using parents [of t] assms(6) by simp
  qed (simp add: at)
  ultimately show ?thesis using run by auto
qed

end
