(* ===== verification/Ast_Properties.thy ===== *)
theory Ast_Properties
  imports Ast_Laws
begin

text \<open>
  The properties of syntax trees, with a small tree that the operations themselves build as
  the input of the witnesses.
\<close>

section \<open>Three nodes\<close>

text \<open>A program with a function with an expression, built with the operations themselves.\<close>

definition built :: "node_heap run" where
  "built =
     (let (a, h1) = polycall_ast_create_node True AST_PROGRAM None [];
          (b, h2) = polycall_ast_create_node True AST_FUNCTION (Some (IntegerValue 7)) h1;
          (c, h3) = polycall_ast_create_node True AST_EXPRESSION None h2
      in run_then (polycall_ast_add_child True b c h3) (\<lambda>(_, h4).
           run_then (polycall_ast_add_child True a b h4) (\<lambda>(_, h5). returns h5)))"

definition built_heap :: node_heap where
  "built_heap =
     [Some [zero_node\<lparr>nd_type := AST_PROGRAM, nd_child_count := 1, nd_children := [Some (1, 0)]\<rparr>],
      Some [zero_node\<lparr>nd_type := AST_FUNCTION, nd_value := IntegerValue 7, nd_child_count := 1,
              nd_children := [Some (2, 0)], nd_parent := Some (0, 0)\<rparr>],
      Some [zero_node\<lparr>nd_type := AST_EXPRESSION, nd_parent := Some (1, 0)\<rparr>]]"

definition built_tree :: node_tree where
  "built_tree = Tree (0, 0) [Tree (1, 0) [Tree (2, 0) []]]"

definition built_ast :: ast where
  "built_ast = \<lparr>ast_root = Some (0, 0), ast_nodes = [Some (0, 0), Some (1, 0), Some (2, 0)],
     ast_node_count = 3, ast_capacity = 3, ast_error_count = 0\<rparr>"

lemma built_returns: "built = returns built_heap"
  by code_simp

lemma built_facts: "tree_height built_tree = 3" "own_blocks (tree_nodes built_tree)" "parents_ok built_heap built_tree"
  "tree_nodes built_tree = [(0, 0), (1, 0), (2, 0)]"
  by code_simp+

lemma built_in: "tree_in built_heap built_tree"
  by (simp add: built_heap_def built_tree_def node_at_def block_def child_slots_def zero_node_def)


section \<open>Properties\<close>

text \<open>
  C21: validation decides what it is meant to decide. On a tree in the heap it returns, with
  a stack as deep as the tree, whether the node count is right, the tree has at most 257
  levels, and every node points back to its parent.
\<close>

theorem validation_decides:
  assumes "tree_in h t" "tree_height t \<le> fuel" "ast_root T = Some (tree_root t)"
  shows "polycall_ast_validate fuel h (Some T) = Some (Returned
    (ast_node_count T = of_nat (length (tree_nodes t)) \<and> tree_height t \<le> 257 \<and> parents_ok h t))"
proof -
  have "polycall_ast_visit fuel h (ast_root T) (Some count_node) 0 = returns (of_nat (length (tree_nodes t)))"
    using visit_tree [OF assms(1,2), of count_node 0] assms(3) by (simp add: polycall_ast_visit_def count_nodes)
  then show ?thesis
    using validate_tree [OF assms(1,2), of 0 DEFAULT_MAX_DEPTH] assms(3)
    by (auto simp: polycall_ast_validate_def DEFAULT_MAX_DEPTH_def)
qed

theorem validation_decides_witness:
  "polycall_ast_validate 3 built_heap (Some built_ast) = Some (Returned True) \<and>
   polycall_ast_validate 3 built_heap (Some (built_ast\<lparr>ast_node_count := 2\<rparr>)) = Some (Returned False)"
proof -
  have "ast_root built_ast = Some (tree_root built_tree)" "ast_node_count built_ast = 3"
    "tree_height built_tree \<le> 3" "length (tree_nodes built_tree) = 3"
    using built_facts by (simp_all add: built_ast_def built_tree_def)
  then show ?thesis
    using validation_decides [OF built_in, of 3 built_ast]
      validation_decides [OF built_in, of 3 "built_ast\<lparr>ast_node_count := 2\<rparr>"] built_facts by simp
qed

text \<open>
  C22: adding a child to the root of a tree builds the larger tree. If both trees are in the
  heap, share no node and have their parent links right, the call succeeds, and afterwards
  the root has the old children and the new one last, with all links right again.
\<close>

theorem add_child_builds_tree:
  assumes "tree_in h (Tree p ts)" "parents_ok h (Tree p ts)" "tree_in h t" "parents_ok h t"
    and "distinct (tree_nodes (Tree p ts) @ tree_nodes t)" "length ts + 1 < 2 ^ 32"
  shows "\<exists>h'. polycall_ast_add_child True (Some p) (Some (tree_root t)) h = Some (Returned (True, h')) \<and>
    tree_in h' (Tree p (ts @ [t])) \<and> parents_ok h' (Tree p (ts @ [t])) \<and>
    tree_nodes (Tree p (ts @ [t])) = tree_nodes (Tree p ts) @ tree_nodes t"
  using add_child_tree [OF assms(1,3,5,6,2,4)] by simp

theorem add_child_builds_tree_witness:
  "\<exists>h h'. polycall_ast_create_node True AST_VARIABLE None built_heap = (Some (3, 0), h) \<and>
     polycall_ast_add_child True (Some (0, 0)) (Some (3, 0)) h = Some (Returned (True, h')) \<and>
     tree_in h' (Tree (0, 0) [Tree (1, 0) [Tree (2, 0) []], Tree (3, 0) []])"
proof -
  define h where "h = built_heap @ [Some [zero_node\<lparr>nd_type := AST_VARIABLE\<rparr>]]"
  have c: "polycall_ast_create_node True AST_VARIABLE None built_heap = (Some (3, 0), h)"
    by (simp add: polycall_ast_create_node_def malloc_def h_def built_heap_def zero_node_def)
  have "tree_in h (Tree (0, 0) [Tree (1, 0) [Tree (2, 0) []]])" "parents_ok h (Tree (0, 0) [Tree (1, 0) [Tree (2, 0) []]])"
    "tree_in h (Tree (3, 0) [])" "parents_ok h (Tree (3, 0) [])"
    by (simp_all add: h_def built_heap_def node_at_def block_def child_slots_def zero_node_def)
  from add_child_builds_tree [OF this] obtain h' where
    "polycall_ast_add_child True (Some (0, 0)) (Some (3, 0)) h = Some (Returned (True, h'))"
    "tree_in h' (Tree (0, 0) [Tree (1, 0) [Tree (2, 0) []], Tree (3, 0) []])"
    by (simp del: tree_in.simps) blast
  then show ?thesis using c by blast
qed

text \<open>
  C23: destroying a tree whose nodes were created one by one releases each of them once and
  leaves every other block as it was.
\<close>

theorem destruction_releases_tree:
  assumes "tree_in h t" "tree_height t \<le> fuel" "own_blocks (tree_nodes t)"
  shows "\<exists>h'. polycall_ast_destroy_node fuel (Some (tree_root t)) h = Some (Returned h') \<and>
    (\<forall>k. block h' k = (if (k, 0) \<in> set (tree_nodes t) then None else block h k))"
  using destroy_tree [OF assms] by (simp add: released_def)

theorem destruction_releases_tree_witness:
  "\<exists>h'. polycall_ast_destroy_node 3 (Some (0, 0)) built_heap = Some (Returned h') \<and>
     block h' 0 = None \<and> block h' 1 = None \<and> block h' 2 = None"
proof -
  have root: "tree_root built_tree = (0, 0)" by (simp add: built_tree_def)
  obtain h' where "polycall_ast_destroy_node 3 (Some (0, 0)) built_heap = Some (Returned h')"
    "\<forall>k. block h' k = (if (k, 0) \<in> set (tree_nodes built_tree) then None else block built_heap k)"
    using destruction_releases_tree [OF built_in _ built_facts(2), of 3] unfolding root built_facts(1) by blast
  then show ?thesis using built_facts(4) by (intro exI [of _ h']) simp
qed

text \<open>
  The optimized tree is the root alone. At every level \<open>polycall_ast_optimize\<close> copies
  type and value of the root into one new node and drops everything below it; attributes
  and location are not copied; and a tree without room for a node makes it write behind
  the new array.
\<close>

theorem optimization_keeps_only_root:
  assumes "ast_root T = Some r" "node_at h r = Some n"
  shows "if ast_capacity T = 0
    then polycall_ast_optimize (Suc fuel) True True True (Some T) level h = Some Undefined
    else \<exists>T'. polycall_ast_optimize (Suc fuel) True True True (Some T) level h =
        Some (Returned (Some T', h @ [Some [zero_node\<lparr>nd_type := nd_type n, nd_value := nd_value n\<rparr>]])) \<and>
      ast_root T' = Some (length h, 0) \<and> ast_node_count T' = 1 \<and> hd (ast_nodes T') = Some (length h, 0)"
proof -
  let ?n = "zero_node\<lparr>nd_type := nd_type n, nd_value := nd_value n\<rparr>"
  let ?h = "h @ [Some [?n]]"
  have at: "node_at ?h (length h, 0) = Some ?n" by (simp add: node_at_def block_def)
  have same: "optimize_node (Suc fuel) level (Some (length h, 0)) ?h = returns (Some (length h, 0), ?h)"
    using at by (simp add: zero_node_def)
  have slots: "child_slots ?n = Some []" by (simp add: child_slots_def zero_node_def)
  have cap: "0 < unat (ast_capacity T) \<longleftrightarrow> ast_capacity T \<noteq> 0" by (simp add: unat_gt_0)
  show ?thesis
    using assms same at slots cap
    by (auto simp: polycall_ast_optimize_def polycall_ast_create_node_def malloc_def Let_def
        polycall_ast_visit_def collect_optimized_node_def gr0_conv_Suc simp del: optimize_node.simps)
qed

theorem optimization_keeps_only_root_witness:
  "\<exists>T' h'. polycall_ast_optimize 1 True True True (Some built_ast) 1 built_heap = Some (Returned (Some T', h')) \<and>
     ast_node_count T' = 1"
proof -
  have "ast_root built_ast = Some (0, 0)" "ast_capacity built_ast \<noteq> 0"
    "\<exists>n. node_at built_heap (0, 0) = Some n"
    by (simp_all add: built_ast_def built_heap_def node_at_def block_def)
  then show ?thesis
    using optimization_keeps_only_root [of built_ast "(0, 0)" built_heap _ 0 1] by auto
qed

end
