(* ===== verification/Parser.thy ===== *)
theory Parser
  imports Ast
begin

text \<open>
  The parser of \<open>src/polycall_parser.c\<close>: the node pool, the recursive descent over a token
  array, and parsing of strings and files through the tokenizer. The parser state is the
  current token, the index of the next one and the pool; nodes live in the heap of \<open>Ast\<close>.
  Three loops of the parser need not end: they take fuel, and \<open>None\<close> is that the fuel did not
  suffice. The small allocations whose results the code uses at once succeed.
\<close>

section \<open>Data\<close>

definition INITIAL_CHILDREN :: nat where [simp]: "INITIAL_CHILDREN = 16"
definition PARSER_ERROR_LENGTH :: nat where [simp]: "PARSER_ERROR_LENGTH = 256"

record node_pool =
  pl_nodes :: "nat option"
  pl_capacity :: nat
  pl_used :: nat

record parser_state =
  ps_current :: "polycall_token option"
  ps_index :: nat
  ps_pool :: node_pool

record parser_config =
  pc_max_depth :: nat
  pc_max_nodes :: nat
  pc_optimization_level :: u32
  pc_strict_mode :: bool

definition PARSER_DEFAULT_CONFIG :: parser_config where
  "PARSER_DEFAULT_CONFIG =
     \<lparr>pc_max_depth = 256, pc_max_nodes = 65536, pc_optimization_level = 0, pc_strict_mode = True\<rparr>"

record polycall_parser =
  pr_tokenizer :: tokenizer
  pr_ast :: "ast option"
  pr_config :: parser_config
  pr_message :: string
  pr_line :: u32
  pr_column :: u32

type_synonym parse_state = "parser_state \<times> node_heap"


section \<open>The pool\<close>

text \<open>\<open>calloc\<close> of all nodes, NULL if it fails.\<close>

definition create_node_pool :: "bool \<Rightarrow> nat \<Rightarrow> node_heap \<Rightarrow> node_pool \<times> node_heap" where
  "create_node_pool calloc_ok capacity h =
     (if calloc_ok
      then let (b, h') = malloc (replicate capacity zero_node) h
           in (\<lparr>pl_nodes = Some b, pl_capacity = capacity, pl_used = 0\<rparr>, h')
      else (\<lparr>pl_nodes = None, pl_capacity = capacity, pl_used = 0\<rparr>, h))"

definition destroy_node_pool :: "node_pool \<Rightarrow> node_heap \<Rightarrow> node_heap run" where
  "destroy_node_pool pool h =
     (case pl_nodes pool of None \<Rightarrow> returns h | Some b \<Rightarrow> need (free_block b h) returns)"

definition pool_node :: "node_pool \<Rightarrow> nat \<Rightarrow> node_address option" where
  "pool_node pool i = map_option (\<lambda>b. (b, i)) (pl_nodes pool)"

definition allocate_node :: "parser_state \<Rightarrow> node_address option \<times> parser_state" where
  "allocate_node ps =
     (let pool = ps_pool ps
      in if pl_used pool \<ge> pl_capacity pool then (None, ps)
         else (pool_node pool (pl_used pool), ps\<lparr>ps_pool := pool\<lparr>pl_used := pl_used pool + 1\<rparr>\<rparr>))"


section \<open>Tokens\<close>

definition advance_token :: "token_array \<Rightarrow> parser_state \<Rightarrow> bool \<times> parser_state" where
  "advance_token tokens ps =
     (if ps_index ps \<ge> length (ta_tokens tokens) then (False, ps)
      else (True, ps\<lparr>ps_current := Some (ta_tokens tokens ! ps_index ps), ps_index := ps_index ps + 1\<rparr>))"

definition at_type :: "token_type \<Rightarrow> parser_state \<Rightarrow> bool" where
  "at_type type ps \<longleftrightarrow> map_option tk_type (ps_current ps) = Some type"

definition expect_token :: "token_array \<Rightarrow> token_type \<Rightarrow> parser_state \<Rightarrow> bool \<times> parser_state" where
  "expect_token tokens type ps = (if \<not> at_type type ps then (False, ps) else advance_token tokens ps)"

definition skip_token :: "token_array \<Rightarrow> token_type \<Rightarrow> parser_state \<Rightarrow> parser_state" where
  "skip_token tokens type ps = snd (expect_token tokens type ps)"


section \<open>Recursive descent\<close>

text \<open>\<open>parent->children[parent->child_count++] = child; child->parent = parent\<close>.\<close>

definition attach_child :: "node_address \<Rightarrow> node_address \<Rightarrow> node_heap \<Rightarrow> node_heap run" where
  "attach_child p c h =
     need (node_at h p) (\<lambda>n.
       if unat (nd_child_count n) \<ge> length (nd_children n) then Some Undefined
       else let h' = set_node p (n\<lparr>nd_children := (nd_children n)[unat (nd_child_count n) := Some c],
                                   nd_child_count := nd_child_count n + 1\<rparr>) h
            in need (node_at h' c) (\<lambda>k. returns (set_node c (k\<lparr>nd_parent := Some p\<rparr>) h')))"

text \<open>A fresh node of the pool is given its type, value and an empty child array.\<close>

definition fill_node ::
  "ast_type \<Rightarrow> polycall_value \<Rightarrow> nat \<Rightarrow> node_address \<Rightarrow> node_heap \<Rightarrow> node_heap run" where
  "fill_node type value slots a h =
     need (node_at h a) (\<lambda>n. returns (set_node a
       (n\<lparr>nd_type := type, nd_value := value, nd_children := replicate slots None\<rparr>) h))"

definition parse_expression :: "token_array \<Rightarrow> parse_state \<Rightarrow> (node_address option \<times> parse_state) run" where
  "parse_expression tokens s =
     (let (ps, h) = s
      in if at_type TOKEN_NUMBER ps \<or> at_type TOKEN_STRING ps \<or> at_type TOKEN_IDENTIFIER ps
         then (case allocate_node ps of
                 (None, ps') \<Rightarrow> returns (None, ps', h)
               | (Some a, ps') \<Rightarrow> need (ps_current ps) (\<lambda>t.
                   run_then (fill_node AST_EXPRESSION (tk_value t) 0 a h)
                     (\<lambda>h'. returns (Some a, snd (advance_token tokens ps'), h'))))
         else returns (None, ps, h))"

definition parse_statement :: "token_array \<Rightarrow> parse_state \<Rightarrow> (node_address option \<times> parse_state) run" where
  "parse_statement tokens s =
     (let (ps, h) = s
      in if ps_current ps = None then returns (None, ps, h)
         else case allocate_node ps of
                (None, ps') \<Rightarrow> returns (None, ps', h)
              | (Some a, ps') \<Rightarrow>
                  run_then (fill_node AST_STATEMENT NoneValue 0 a h) (\<lambda>h1.
                    run_then (parse_expression tokens (ps', h1)) (\<lambda>(expr, ps2, h2).
                      case expr of None \<Rightarrow> returns (Some a, ps2, h2)
                      | Some e \<Rightarrow>
                          run_then (fill_node AST_STATEMENT NoneValue 1 a h2) (\<lambda>h3.
                            run_then (attach_child a e h3) (\<lambda>h4. returns (Some a, ps2, h4))))))"

text \<open>Statements up to a separator.\<close>

fun block_loop :: "nat \<Rightarrow> token_array \<Rightarrow> node_address \<Rightarrow> parse_state \<Rightarrow> parse_state run" where
  "block_loop 0 tokens a s = None"
| "block_loop (Suc fuel) tokens a s =
     (if ps_current (fst s) = None \<or> at_type TOKEN_SEPARATOR (fst s) then returns s
      else run_then (parse_statement tokens s) (\<lambda>(stmt, ps, h).
        case stmt of None \<Rightarrow> block_loop fuel tokens a (ps, h)
        | Some b \<Rightarrow> run_then (attach_child a b h) (\<lambda>h'. block_loop fuel tokens a (ps, h'))))"

definition parse_block ::
  "nat \<Rightarrow> token_array \<Rightarrow> parse_state \<Rightarrow> (node_address option \<times> parse_state) run" where
  "parse_block fuel tokens s =
     (let (ps, h) = s; (ok, ps1) = expect_token tokens TOKEN_SEPARATOR ps
      in if \<not> ok then returns (None, ps1, h)
         else case allocate_node ps1 of
                (None, ps2) \<Rightarrow> returns (None, ps2, h)
              | (Some a, ps2) \<Rightarrow>
                  run_then (fill_node AST_BLOCK NoneValue INITIAL_CHILDREN a h) (\<lambda>h1.
                    run_then (block_loop fuel tokens a (ps2, h1)) (\<lambda>(ps3, h2).
                      returns (Some a, skip_token tokens TOKEN_SEPARATOR ps3, h2))))"

text \<open>Tokens up to a separator; at the end of the array nothing moves any more.\<close>

fun parameter_loop :: "nat \<Rightarrow> token_array \<Rightarrow> parser_state \<Rightarrow> parser_state run" where
  "parameter_loop 0 tokens ps = None"
| "parameter_loop (Suc fuel) tokens ps =
     (if ps_current ps = None \<or> at_type TOKEN_SEPARATOR ps then returns ps
      else parameter_loop fuel tokens (snd (advance_token tokens ps)))"

definition parse_function ::
  "nat \<Rightarrow> token_array \<Rightarrow> parse_state \<Rightarrow> (node_address option \<times> parse_state) run" where
  "parse_function fuel tokens s =
     (let (ps, h) = s; (ok, ps1) = expect_token tokens TOKEN_IDENTIFIER ps
      in if \<not> ok then returns (None, ps1, h)
         else case allocate_node ps1 of
                (None, ps2) \<Rightarrow> returns (None, ps2, h)
              | (Some a, ps2) \<Rightarrow> need (ps_current ps2) (\<lambda>t.
                  run_then (fill_node AST_FUNCTION (tk_value t) 0 a h) (\<lambda>h1.
                    run_then (parameter_loop fuel tokens (skip_token tokens TOKEN_SEPARATOR ps2)) (\<lambda>ps3.
                      run_then (parse_block fuel tokens (skip_token tokens TOKEN_SEPARATOR ps3, h1))
                        (\<lambda>(body, ps4, h2). case body of None \<Rightarrow> returns (Some a, ps4, h2)
                           | Some b \<Rightarrow>
                               run_then (fill_node AST_FUNCTION (tk_value t) 1 a h2) (\<lambda>h3.
                                 run_then (attach_child a b h3) (\<lambda>h4. returns (Some a, ps4, h4))))))))"

text \<open>Functions up to the end of the input.\<close>

fun program_loop :: "nat \<Rightarrow> token_array \<Rightarrow> node_address \<Rightarrow> parse_state \<Rightarrow> parse_state run" where
  "program_loop 0 tokens root s = None"
| "program_loop (Suc fuel) tokens root s =
     (if ps_current (fst s) = None \<or> at_type TOKEN_EOF (fst s) then returns s
      else run_then (parse_function fuel tokens s) (\<lambda>(f, ps, h).
        case f of None \<Rightarrow> program_loop fuel tokens root (ps, h)
        | Some a \<Rightarrow> run_then (attach_child root a h) (\<lambda>h'. program_loop fuel tokens root (ps, h'))))"

definition parse_program :: "nat \<Rightarrow> token_array \<Rightarrow> parse_state \<Rightarrow> (node_address option \<times> parse_state) run" where
  "parse_program fuel tokens s =
     (let (ps, h) = s
      in case allocate_node ps of
           (None, ps1) \<Rightarrow> returns (None, ps1, h)
         | (Some root, ps1) \<Rightarrow>
             run_then (fill_node AST_PROGRAM NoneValue INITIAL_CHILDREN root h) (\<lambda>h1.
               run_then (program_loop fuel tokens root (ps1, h1)) (\<lambda>s'. returns (Some root, s'))))"

text \<open>
  The whole of \<open>parse_tokens\<close>: \<open>ast_ok\<close>, \<open>pool_ok\<close> and \<open>nodes_ok\<close> are the outcomes of its
  allocations. The flat array gets the addresses of the pool, then the pool is freed.
\<close>

definition parse_tokens ::
  "nat \<Rightarrow> bool \<Rightarrow> bool \<Rightarrow> bool \<Rightarrow> parser_config \<Rightarrow> token_array option \<Rightarrow> node_heap
     \<Rightarrow> (ast option \<times> node_heap) run" where
  "parse_tokens fuel ast_ok pool_ok nodes_ok config tokens h =
     (case tokens of None \<Rightarrow> returns (None, h)
      | Some ts \<Rightarrow>
          if \<not> ast_ok then returns (None, h)
          else let (pool, h1) = create_node_pool pool_ok (pc_max_nodes config) h;
                   start = \<lparr>ps_current = (if ta_tokens ts = [] then None else Some (hd (ta_tokens ts))),
                            ps_index = 0, ps_pool = pool\<rparr>
               in run_then (parse_program fuel ts (start, h1)) (\<lambda>(root, ps, h2).
                    let used = pl_used (ps_pool ps);
                        nodes = (if nodes_ok then map (pool_node (ps_pool ps)) [0..<used] else [])
                    in run_then (destroy_node_pool (ps_pool ps) h2) (\<lambda>h3.
                         returns (Some \<lparr>ast_root = root, ast_nodes = nodes,
                            ast_node_count = of_nat (length nodes), ast_capacity = of_nat used,
                            ast_error_count = 0\<rparr>, h3))))"


section \<open>Parsing text\<close>

definition last_token :: "polycall_parser \<Rightarrow> polycall_token option" where
  "last_token p = (let ts = ta_tokens (tz_tokens (pr_tokenizer p)) in if ts = [] then None else Some (last ts))"

text \<open>\<open>vsnprintf\<close> into \<open>MAX_ERROR_LENGTH - 1\<close> bytes, and the place of the last token.\<close>

definition set_parser_error :: "string \<Rightarrow> polycall_parser \<Rightarrow> polycall_parser" where
  "set_parser_error message p =
     (let p' = p\<lparr>pr_message := snprintf_s (PARSER_ERROR_LENGTH - 1) message\<rparr>
      in case last_token p of None \<Rightarrow> p'
         | Some t \<Rightarrow> p'\<lparr>pr_line := tk_line t, pr_column := tk_column t\<rparr>)"

text \<open>The outcomes of the allocations of the parser and of its tokenizer.\<close>

definition polycall_parser_create ::
  "bool \<Rightarrow> bool \<Rightarrow> bool \<Rightarrow> bool \<Rightarrow> (nat \<Rightarrow> char) \<Rightarrow> parser_config option \<Rightarrow> memory
     \<Rightarrow> (polycall_parser option \<times> memory) option" where
  "polycall_parser_create parser_ok calloc_ok malloc_ok array_ok fresh config m =
     (if \<not> parser_ok then Some (None, m)
      else case polycall_tokenizer_create calloc_ok malloc_ok array_ok fresh None m of
             None \<Rightarrow> None
           | Some (None, m') \<Rightarrow> Some (None, m')
           | Some (Some tz, m') \<Rightarrow> Some (Some \<lparr>pr_tokenizer = tz, pr_ast = None,
               pr_config = (case config of None \<Rightarrow> PARSER_DEFAULT_CONFIG | Some c \<Rightarrow> c),
               pr_message = '''', pr_line = 0, pr_column = 0\<rparr>, m'))"

definition polycall_parser_destroy ::
  "nat \<Rightarrow> polycall_parser option \<Rightarrow> memory \<Rightarrow> node_heap \<Rightarrow> (memory \<times> node_heap) run" where
  "polycall_parser_destroy fuel parser m h =
     (case parser of None \<Rightarrow> returns (m, h)
      | Some p \<Rightarrow> need (polycall_tokenizer_destroy (Some (pr_tokenizer p)) m) (\<lambda>m'.
          case pr_ast p of None \<Rightarrow> returns (m', h)
          | Some t \<Rightarrow> run_then (polycall_ast_destroy_node fuel (ast_root t) h) (\<lambda>h'. returns (m', h'))))"

text \<open>The operations are an empty set: \<open>TokenizerOperations ops = {0}\<close>.\<close>

definition no_ops :: tokenizer_ops where
  "no_ops = \<lparr>op_patterns = [], op_consumers = []\<rparr>"

type_synonym parse_result = "ast option \<times> polycall_parser option \<times> memory \<times> node_heap"

definition polycall_parser_parse_string ::
  "nat \<Rightarrow> (string \<Rightarrow> u64) \<Rightarrow> bool \<Rightarrow> bool \<Rightarrow> bool \<Rightarrow> polycall_parser option \<Rightarrow> string option \<Rightarrow> nat
     \<Rightarrow> memory \<Rightarrow> node_heap \<Rightarrow> parse_result run" where
  "polycall_parser_parse_string fuel strtod ast_ok pool_ok nodes_ok parser input len m h =
     (case (parser, input) of
        (Some p, Some text) \<Rightarrow>
          if len = 0 then returns (None, parser, m, h)
          else need (polycall_tokenizer_set_input (Some (pr_tokenizer p)) input len m) (\<lambda>(ok, tzo, m1).
            let p1 = p\<lparr>pr_tokenizer := the tzo\<rparr>
            in if \<not> ok
               then returns (None, Some (set_parser_error ''Failed to set parser input'' p1), m1, h)
               else run_then (polycall_tokenizer_process strtod tzo (Some no_ops) m1) (\<lambda>(ok2, tzo2).
                 let p2 = p\<lparr>pr_tokenizer := the tzo2\<rparr>
                 in if \<not> ok2 then returns (None, Some (set_parser_error ''Tokenization failed'' p2), m1, h)
                    else run_then (parse_tokens fuel ast_ok pool_ok nodes_ok (pr_config p)
                           (polycall_tokenizer_get_tokens tzo2) h)
                         (\<lambda>(t, h'). returns (t, Some p2, m1, h'))))
      | _ \<Rightarrow> returns (None, parser, m, h))"

text \<open>
  \<open>contents\<close> is what the file holds, \<open>None\<close> if it cannot be opened; \<open>malloc_ok\<close> and \<open>read_ok\<close>
  tell whether the buffer was there and all of the file was read.
\<close>

definition polycall_parser_parse_file ::
  "nat \<Rightarrow> (string \<Rightarrow> u64) \<Rightarrow> bool \<Rightarrow> bool \<Rightarrow> bool \<Rightarrow> bool \<Rightarrow> bool \<Rightarrow> (string \<Rightarrow> string option)
     \<Rightarrow> polycall_parser option \<Rightarrow> string option \<Rightarrow> memory \<Rightarrow> node_heap \<Rightarrow> parse_result run" where
  "polycall_parser_parse_file fuel strtod malloc_ok read_ok ast_ok pool_ok nodes_ok contents parser filename m h =
     (case (parser, filename) of
        (Some p, Some name) \<Rightarrow> (case contents name of
            None \<Rightarrow> returns (None, Some (set_parser_error (''Failed to open file: '' @ name) p), m, h)
          | Some text \<Rightarrow>
              if \<not> malloc_ok
              then returns (None, Some (set_parser_error ''Failed to allocate memory for file content'' p), m, h)
              else if \<not> read_ok
              then returns (None, Some (set_parser_error ''Failed to read file content'' p), m, h)
              else polycall_parser_parse_string fuel strtod ast_ok pool_ok nodes_ok parser
                     (Some (text @ [NUL])) (length text) m h)
      | _ \<Rightarrow> returns (None, parser, m, h))"

definition polycall_parser_get_error :: "polycall_parser option \<Rightarrow> string" where
  "polycall_parser_get_error parser = (case parser of None \<Rightarrow> ''Invalid parser'' | Some p \<Rightarrow> pr_message p)"

end
