(* ===== verification/Parser_Properties.thy ===== *)
theory Parser_Properties
  imports Parser Tokenizer_Properties
begin

text \<open>
  The properties of the parser, each with the lemmas only it needs and a witness that
  applies it to a concrete input.
\<close>

section \<open>What parsing does not touch\<close>

text \<open>The parser never replaces the block of its pool.\<close>

definition pool_block :: "parser_state \<Rightarrow> nat option" where
  "pool_block ps = pl_nodes (ps_pool ps)"

lemma pool_block_tokens [simp]:
  "pool_block (snd (advance_token tokens ps)) = pool_block ps"
  "pool_block (snd (expect_token tokens type ps)) = pool_block ps"
  "pool_block (skip_token tokens type ps) = pool_block ps"
  by (simp_all add: pool_block_def skip_token_def expect_token_def advance_token_def)

lemma pool_block_expect: "expect_token tokens type ps = (ok, ps') \<Longrightarrow> pool_block ps' = pool_block ps"
  using pool_block_tokens(2) [of tokens type ps] by simp

lemma pool_block_allocate: "allocate_node ps = (a, ps') \<Longrightarrow> pool_block ps' = pool_block ps"
  by (auto simp: allocate_node_def pool_block_def Let_def split: if_splits)

lemma pool_block_expression:
  "parse_expression tokens (ps, h) = Some (Returned (a, ps', h')) \<Longrightarrow> pool_block ps' = pool_block ps"
  by (auto simp: parse_expression_def run_then_Returned need_Returned dest: pool_block_allocate
      split: if_splits option.splits prod.splits)

lemma pool_block_statement:
  "parse_statement tokens (ps, h) = Some (Returned (a, ps', h')) \<Longrightarrow> pool_block ps' = pool_block ps"
  by (auto simp: parse_statement_def run_then_Returned dest!: pool_block_allocate pool_block_expression
      split: if_splits option.splits prod.splits)

lemma pool_block_block_loop:
  "block_loop fuel tokens a s = Some (Returned s') \<Longrightarrow> pool_block (fst s') = pool_block (fst s)"
proof (induction fuel arbitrary: s)
  case (Suc fuel)
  then show ?case
    by (cases s) (fastforce simp: run_then_Returned dest: pool_block_statement
        split: if_splits option.splits prod.splits)
qed simp

lemma pool_block_block:
  "parse_block fuel tokens (ps, h) = Some (Returned (a, ps', h')) \<Longrightarrow> pool_block ps' = pool_block ps"
  by (auto simp: parse_block_def run_then_Returned
      dest!: pool_block_allocate pool_block_expect pool_block_block_loop
      split: if_splits option.splits prod.splits)

lemma pool_block_parameters:
  "parameter_loop fuel tokens ps = Some (Returned ps') \<Longrightarrow> pool_block ps' = pool_block ps"
  by (induction fuel arbitrary: ps) (auto split: if_splits)

lemma pool_block_function:
  "parse_function fuel tokens (ps, h) = Some (Returned (a, ps', h')) \<Longrightarrow> pool_block ps' = pool_block ps"
  by (auto simp: parse_function_def run_then_Returned need_Returned
      dest!: pool_block_allocate pool_block_expect pool_block_block pool_block_parameters
      split: if_splits option.splits prod.splits)

lemma pool_block_program_loop:
  "program_loop fuel tokens root s = Some (Returned s') \<Longrightarrow> pool_block (fst s') = pool_block (fst s)"
proof (induction fuel arbitrary: s)
  case (Suc fuel)
  then show ?case
    by (cases s) (fastforce simp: run_then_Returned dest: pool_block_function
        split: if_splits option.splits prod.splits)
qed simp

lemma parse_program_root:
  assumes "parse_program fuel tokens (ps, h) = Some (Returned (root, ps', h'))"
  shows "pool_block ps' = pool_block ps \<and> (\<forall>a. root = Some a \<longrightarrow> pool_block ps = Some (fst a))"
  using assms
  by (auto simp: parse_program_def run_then_Returned allocate_node_def pool_node_def Let_def
      dest!: pool_block_program_loop split: if_splits option.splits prod.splits)
     (auto simp: pool_block_def)

section \<open>Loops that stand still\<close>

lemma at_type_current: "at_type ty ps \<longleftrightarrow> (\<exists>t. ps_current ps = Some t \<and> tk_type t = ty)"
  by (auto simp: at_type_def)

text \<open>A function that does not begin with an identifier is not entered, and nothing moves.\<close>

lemma program_loop_stands:
  assumes "ps_current ps = Some t" "tk_type t \<noteq> TOKEN_EOF" "tk_type t \<noteq> TOKEN_IDENTIFIER"
  shows "program_loop fuel tokens root (ps, h) = None"
proof (induction fuel)
  case (Suc fuel)
  then show ?case
    using assms by (simp add: at_type_current parse_function_def expect_token_def)
qed simp

text \<open>Without a separator ahead, the parameters of a function never end.\<close>

definition no_separator :: "token_array \<Rightarrow> parser_state \<Rightarrow> bool" where
  "no_separator tokens ps \<longleftrightarrow> (\<exists>t. ps_current ps = Some t \<and> tk_type t \<noteq> TOKEN_SEPARATOR) \<and>
     (\<forall>t \<in> set (ta_tokens tokens). tk_type t \<noteq> TOKEN_SEPARATOR)"

lemma no_separator_advance: "no_separator tokens ps \<Longrightarrow> no_separator tokens (snd (advance_token tokens ps))"
  by (auto simp: no_separator_def advance_token_def)

lemma no_separator_skip: "no_separator tokens ps \<Longrightarrow> skip_token tokens TOKEN_SEPARATOR ps = ps"
  by (auto simp: no_separator_def skip_token_def expect_token_def at_type_current)

lemma parameter_loop_stands: "no_separator tokens ps \<Longrightarrow> parameter_loop fuel tokens ps = None"
proof (induction fuel arbitrary: ps)
  case (Suc fuel)
  then show ?case
    using no_separator_advance [OF Suc.prems] by (auto simp: no_separator_def at_type_current)
qed simp

lemma parse_function_stands:
  assumes "no_separator tokens ps" "at_type TOKEN_IDENTIFIER ps" "ta_tokens tokens \<noteq> []" "ps_index ps = 0"
    and "pl_used (ps_pool ps) < pl_capacity (ps_pool ps)" "pl_nodes (ps_pool ps) = Some b"
    and "node_at h (b, pl_used (ps_pool ps)) \<noteq> None"
  shows "parse_function fuel tokens (ps, h) = None"
proof -
  obtain ps1 where e: "expect_token tokens TOKEN_IDENTIFIER ps = (True, ps1)" and p1: "ps_pool ps1 = ps_pool ps"
    and n1: "no_separator tokens ps1"
    using assms(1-4) no_separator_advance [OF assms(1)]
    by (cases "advance_token tokens ps") (auto simp: expect_token_def advance_token_def)
  define ps2 where "ps2 = ps1\<lparr>ps_pool := (ps_pool ps)\<lparr>pl_used := pl_used (ps_pool ps) + 1\<rparr>\<rparr>"
  have a: "allocate_node ps1 = (Some (b, pl_used (ps_pool ps)), ps2)"
    using assms(5,6) by (simp add: allocate_node_def p1 pool_node_def ps2_def Let_def)
  have n2: "no_separator tokens ps2" using n1 by (simp add: no_separator_def ps2_def)
  then obtain t where "ps_current ps2 = Some t" by (auto simp: no_separator_def)
  then show ?thesis
    using e a n2 parameter_loop_stands [OF n2] assms(7)
    by (auto simp: parse_function_def no_separator_skip fill_node_def)
qed

definition start_state :: "nat \<Rightarrow> nat \<Rightarrow> polycall_token option \<Rightarrow> parser_state" where
  "start_state b capacity t = \<lparr>ps_current = t, ps_index = 0,
     ps_pool = \<lparr>pl_nodes = Some b, pl_capacity = capacity, pl_used = 1\<rparr>\<rparr>"

text \<open>\<open>parse_tokens\<close> with its pool, up to the loop over the functions.\<close>

lemma parse_tokens_pool:
  assumes "0 < pc_max_nodes config"
  shows "\<exists>h1. parse_tokens fuel True True nodes_ok config (Some ts) h =
      run_then (program_loop fuel ts (length h, 0)
          (start_state (length h) (pc_max_nodes config)
             (if ta_tokens ts = [] then None else Some (hd (ta_tokens ts))), h1))
        (\<lambda>(ps, h2).
          let nodes = (if nodes_ok then map (pool_node (ps_pool ps)) [0..<pl_used (ps_pool ps)] else [])
          in run_then (destroy_node_pool (ps_pool ps) h2) (\<lambda>h3.
               returns (Some \<lparr>ast_root = Some (length h, 0), ast_nodes = nodes,
                  ast_node_count = of_nat (length nodes), ast_capacity = of_nat (pl_used (ps_pool ps)),
                  ast_error_count = 0\<rparr>, h3))) \<and>
    (\<forall>i < pc_max_nodes config. node_at h1 (length h, i) \<noteq> None) \<and> block h1 (length h) \<noteq> None"
proof -
  let ?n = "pc_max_nodes config"
  let ?b = "length h"
  let ?h = "h @ [Some (replicate ?n zero_node)]"
  define root where "root = zero_node\<lparr>nd_type := AST_PROGRAM, nd_children := replicate 16 None\<rparr>"
  define h1 where "h1 = set_node (?b, 0) root ?h"
  have h: "node_at ?h (?b, i) = Some zero_node" if "i < ?n" for i
    using that by (simp add: node_at_def block_def nth_append)
  have blk: "block ?h ?b = Some (replicate ?n zero_node)" by (simp add: block_def)
  have h1: "block h1 ?b = Some ((replicate ?n zero_node)[0 := root])"
    by (simp add: h1_def set_node_def blk) (simp add: block_def)
  have fill: "fill_node AST_PROGRAM NoneValue INITIAL_CHILDREN (?b, 0) ?h = returns h1"
    using h [OF assms] by (simp add: fill_node_def h1_def root_def zero_node_def)
  have "parse_tokens fuel True True nodes_ok config (Some ts) h = run_then (program_loop fuel ts (?b, 0)
          (start_state ?b ?n (if ta_tokens ts = [] then None else Some (hd (ta_tokens ts))), h1))
        (\<lambda>(ps, h2).
          let nodes = (if nodes_ok then map (pool_node (ps_pool ps)) [0..<pl_used (ps_pool ps)] else [])
          in run_then (destroy_node_pool (ps_pool ps) h2) (\<lambda>h3.
               returns (Some \<lparr>ast_root = Some (?b, 0), ast_nodes = nodes,
                  ast_node_count = of_nat (length nodes), ast_capacity = of_nat (pl_used (ps_pool ps)),
                  ast_error_count = 0\<rparr>, h3)))"
    using assms fill
    by (simp add: parse_tokens_def create_node_pool_def malloc_def parse_program_def allocate_node_def
        pool_node_def start_state_def Let_def run_then_def split: option.splits outcome.splits prod.splits)
  moreover have "\<forall>i < ?n. node_at h1 (?b, i) \<noteq> None" using h1 by (simp add: node_at_def)
  ultimately show ?thesis using h1 by blast
qed

section \<open>Properties\<close>

lemma no_ops_ok: "ops_ok no_ops"
  by (simp add: ops_ok_def no_ops_def)

lemma lexemes_no_patterns: "fst (lexemes [] line column offset s) = []"
  by (induction "[] :: token_pattern list" line column offset s rule: lexemes.induct) auto

lemma parser_error_text:
  "pr_message (set_parser_error msg p) = snprintf_s 255 msg"
  "pr_tokenizer (set_parser_error msg p) = pr_tokenizer p"
  by (simp_all add: set_parser_error_def Let_def split: option.split)

lemma parser_messages:
  "snprintf_s 255 ''Failed to set parser input'' = ''Failed to set parser input''"
  "snprintf_s 255 ''Tokenization failed'' = ''Tokenization failed''"
  by (simp_all add: snprintf_s_def cstr_def)

text \<open>
  C24: parsing a string never gives a syntax tree. Whatever the input, \<open>parse_string\<close>
  returns NULL: at once and without an error text for the length 0, otherwise with an error.
  An input larger than the buffer cannot be set, and any other fails in the tokenizer, which
  is given no patterns; an input of exactly the size of the buffer makes the code write
  behind the buffer. No tokens are ever made, and the nodes
  are not touched.
\<close>

theorem parse_string_never_parses:
  assumes "buffer_ok m (pr_tokenizer p)" "len \<le> length input"
  shows "let room = tz_size (pr_tokenizer p);
      result = polycall_parser_parse_string fuel strtod ast_ok pool_ok nodes_ok (Some p) (Some input) len m h
    in (len = 0 \<longrightarrow> result = Some (Returned (None, Some p, m, h))) \<and>
       (0 < len \<and> len = room \<longrightarrow> result = Some Undefined) \<and>
       (0 < len \<and> len \<noteq> room \<longrightarrow>
         (\<exists>p' m'. result = Some (Returned (None, Some p', m', h)) \<and>
          polycall_parser_get_error (Some p') =
            (if room < len then ''Failed to set parser input'' else ''Tokenization failed'') \<and>
          ta_tokens (tz_tokens (pr_tokenizer p')) = ta_tokens (tz_tokens (pr_tokenizer p))))"
proof -
  let ?tz = "pr_tokenizer p"
  let ?run = "polycall_parser_parse_string fuel strtod ast_ok pool_ok nodes_ok (Some p) (Some input) len m h"
  obtain old where old: "block m (tz_buffer ?tz) = Some old" "length old = tz_size ?tz"
    using assms(1) by (auto simp: buffer_ok_def)
  have zero: "?run = Some (Returned (None, Some p, m, h))" if "len = 0"
    using that by (simp add: polycall_parser_parse_string_def)
  have full: "?run = Some Undefined" if "0 < len" "len = tz_size ?tz"
    using that old by (simp add: polycall_parser_parse_string_def polycall_tokenizer_set_input_def)
  have large: "?run = Some (Returned (None, Some (set_parser_error ''Failed to set parser input''
      (p\<lparr>pr_tokenizer := set_error_state ERROR_BUFFER_OVERFLOW ?tz\<rparr>)), m, h))" if "tz_size ?tz < len"
    using that by (simp add: polycall_parser_parse_string_def polycall_tokenizer_set_input_def)
  have fits: "\<exists>p' m'. ?run = Some (Returned (None, Some p', m', h)) \<and>
       polycall_parser_get_error (Some p') = ''Tokenization failed'' \<and>
       ta_tokens (tz_tokens (pr_tokenizer p')) = ta_tokens (tz_tokens ?tz)" if len: "0 < len" "len < tz_size ?tz"
  proof -
    obtain tz1 m1 where s: "polycall_tokenizer_set_input (Some ?tz) (Some input) len m = Some (True, Some tz1, m1)"
      using len old assms(2) by (simp add: polycall_tokenizer_set_input_def)
    obtain tz2 where r: "polycall_tokenizer_process strtod (Some tz1) (Some no_ops) m1 = Some (Returned (False, Some tz2))"
      and t: "ta_tokens (tz_tokens tz2) = ta_tokens (tz_tokens ?tz)"
      using tokenizer_run [OF assms(1) no_ops_ok s, of strtod]
      by (auto simp: input_lexemes_def no_ops_def lexemes_no_patterns)
    have "?run = Some (Returned (None, Some (set_parser_error ''Tokenization failed'' (p\<lparr>pr_tokenizer := tz2\<rparr>)), m1, h))"
      using s r len by (simp add: polycall_parser_parse_string_def)
    then show ?thesis using t by (simp add: polycall_parser_get_error_def parser_error_text parser_messages)
  qed
  show ?thesis
    using zero full large fits
    by (cases "tz_size ?tz < len")
       (auto simp: Let_def polycall_parser_get_error_def parser_error_text parser_messages set_error_state_def)
qed

definition small_parser :: polycall_parser where
  "small_parser = \<lparr>pr_tokenizer = small_tokenizer, pr_ast = None, pr_config = PARSER_DEFAULT_CONFIG,
     pr_message = [], pr_line = 0, pr_column = 0\<rparr>"

theorem parse_string_never_parses_witness:
  "\<exists>p' m'. polycall_parser_parse_string 0 (\<lambda>_. 0) True True True (Some small_parser) (Some ''f(x)'') 4
      [Some ''????????''] [] = Some (Returned (None, Some p', m', [])) \<and>
    polycall_parser_get_error (Some p') = ''Tokenization failed''"
proof -
  have "buffer_ok [Some ''????????''] (pr_tokenizer small_parser)" "tz_size (pr_tokenizer small_parser) = 8"
    using small_ok by (simp_all add: small_parser_def small_tokenizer_def)
  with parse_string_never_parses [of "[Some ''????????'']" small_parser 4 "''f(x)''" 0 "\<lambda>_. 0" True True True "[]"]
  show ?thesis by auto
qed

text \<open>
  C25: a syntax tree the parser returns cannot be used. Its nodes lie in the pool, which
  \<open>parse_tokens\<close> frees before it returns: the root and every entry of the flat array
  dangle, and validating or destroying the tree is undefined.
\<close>

theorem returned_ast_dangles:
  assumes "parse_tokens fuel ast_ok pool_ok nodes_ok config tokens h = Some (Returned (Some t, h'))"
    and "ast_root t = Some r"
  shows "node_at h' r = None \<and> (\<forall>a. Some a \<in> set (ast_nodes t) \<longrightarrow> node_at h' a = None) \<and>
    polycall_ast_validate (Suc stack) h' (Some t) = Some Undefined \<and>
    polycall_ast_destroy_node (Suc stack) (ast_root t) h' = Some Undefined"
proof -
  from assms(1) obtain ts ps0 h1 ps h2 where
    p: "parse_program fuel ts (ps0, h1) = Some (Returned (ast_root t, ps, h2))"
    "destroy_node_pool (ps_pool ps) h2 = Some (Returned h')"
    "ast_nodes t = (if nodes_ok then map (pool_node (ps_pool ps)) [0..<pl_used (ps_pool ps)] else [])"
    by (auto simp: parse_tokens_def run_then_Returned Let_def split: option.splits if_splits prod.splits)
  have b: "pl_nodes (ps_pool ps) = Some (fst r)"
    using parse_program_root [OF p(1)] assms(2) by (simp add: pool_block_def)
  then have dead: "block h' (fst r) = None"
    using p(2) heap.release_contents [of "fst r" h2 h' "fst r"] by (simp add: destroy_node_pool_def need_Returned)
  have "node_at h' a = None" if "fst a = fst r" for a
    using dead that by (simp add: node_at_def)
  moreover have "fst a = fst r" if "Some a \<in> set (ast_nodes t)" for a
    using that p(3) b by (auto simp: pool_node_def split: if_splits)
  ultimately show ?thesis
    using assms(2) by (auto simp: polycall_ast_validate_def polycall_ast_visit_def count_node_def)
qed

definition token_of_type :: "token_type \<Rightarrow> polycall_token" where
  "token_of_type ty = invalid_token\<lparr>tk_type := ty\<rparr>"

definition token_list :: "token_type list \<Rightarrow> token_array" where
  "token_list tys = \<lparr>ta_tokens = map token_of_type tys, ta_capacity = of_nat (length tys),
     ta_error_count = 0, ta_line = 1, ta_column = 1\<rparr>"

definition few_nodes :: parser_config where
  "few_nodes = \<lparr>pc_max_depth = 256, pc_max_nodes = 4, pc_optimization_level = 0, pc_strict_mode = True\<rparr>"

theorem returned_ast_dangles_witness:
  "\<exists>t h'. parse_tokens 5 True True True few_nodes
       (Some (token_list [TOKEN_IDENTIFIER, TOKEN_SEPARATOR, TOKEN_EOF])) [] = Some (Returned (Some t, h')) \<and>
     length (ast_nodes t) = 2 \<and> polycall_ast_validate 9 h' (Some t) = Some Undefined"
proof -
  have "(case parse_tokens 5 True True True few_nodes
       (Some (token_list [TOKEN_IDENTIFIER, TOKEN_SEPARATOR, TOKEN_EOF])) [] of
         Some (Returned (Some t, h')) \<Rightarrow> ast_root t = Some (0, 0) \<and> length (ast_nodes t) = 2 | _ \<Rightarrow> False)"
    by code_simp
  then obtain t h' where t: "parse_tokens 5 True True True few_nodes
       (Some (token_list [TOKEN_IDENTIFIER, TOKEN_SEPARATOR, TOKEN_EOF])) [] = Some (Returned (Some t, h'))"
    "ast_root t = Some (0, 0)" "length (ast_nodes t) = 2"
    by (auto split: option.splits outcome.splits prod.splits)
  with returned_ast_dangles [OF t(1,2), of 8] show ?thesis by simp
qed

text \<open>What the first token makes of \<open>parse_tokens\<close>.\<close>

definition first_token :: "token_array \<Rightarrow> polycall_token option" where
  "first_token ts = (if ta_tokens ts = [] then None else Some (hd (ta_tokens ts)))"

lemma parse_tokens_ended:
  assumes "0 < pc_max_nodes config" "ta_tokens ts = [] \<or> tk_type (hd (ta_tokens ts)) = TOKEN_EOF"
  shows "\<exists>t h'. parse_tokens (Suc fuel) True True nodes_ok config (Some ts) h = Some (Returned (Some t, h'))"
proof -
  let ?b = "length h"
  let ?ps = "start_state ?b (pc_max_nodes config) (first_token ts)"
  have cur: "ps_current ?ps = first_token ts" by (simp add: start_state_def)
  obtain h1 where "block h1 ?b \<noteq> None" and p: "parse_tokens (Suc fuel) True True nodes_ok config (Some ts) h =
      run_then (program_loop (Suc fuel) ts (?b, 0) (?ps, h1))
        (\<lambda>(ps, h2).
          let nodes = (if nodes_ok then map (pool_node (ps_pool ps)) [0..<pl_used (ps_pool ps)] else [])
          in run_then (destroy_node_pool (ps_pool ps) h2) (\<lambda>h3.
               returns (Some \<lparr>ast_root = Some (?b, 0), ast_nodes = nodes,
                  ast_node_count = of_nat (length nodes), ast_capacity = of_nat (pl_used (ps_pool ps)),
                  ast_error_count = 0\<rparr>, h3)))"
    using parse_tokens_pool [OF assms(1), of "Suc fuel" nodes_ok ts h] unfolding first_token_def by blast
  moreover have "program_loop (Suc fuel) ts (?b, 0) (?ps, h1) = returns (?ps, h1)"
    using assms(2) cur by (auto simp: at_type_current first_token_def)
  moreover have "destroy_node_pool (ps_pool ?ps) h1 = returns (h1[?b := None])"
    using \<open>block h1 ?b \<noteq> None\<close> by (simp add: destroy_node_pool_def start_state_def free_block_def)
  ultimately show ?thesis by (simp add: Let_def)
qed

lemma parse_tokens_unexpected:
  assumes "0 < pc_max_nodes config" "ta_tokens ts \<noteq> []"
    and "tk_type (hd (ta_tokens ts)) \<notin> {TOKEN_EOF, TOKEN_IDENTIFIER}"
  shows "parse_tokens fuel True True nodes_ok config (Some ts) h = None"
proof -
  have "program_loop fuel ts (length h, 0) (start_state (length h) (pc_max_nodes config) (first_token ts), h1) = None" for h1
    by (rule program_loop_stands) (use assms in \<open>auto simp: start_state_def first_token_def\<close>)
  then show ?thesis
    using parse_tokens_pool [OF assms(1), of fuel nodes_ok ts h] unfolding first_token_def by auto
qed

lemma parse_tokens_open_function:
  assumes "0 < pc_max_nodes config" "ta_tokens ts \<noteq> []" "tk_type (hd (ta_tokens ts)) = TOKEN_IDENTIFIER"
    and "1 < pc_max_nodes config" "\<forall>t \<in> set (ta_tokens ts). tk_type t \<noteq> TOKEN_SEPARATOR"
  shows "parse_tokens fuel True True nodes_ok config (Some ts) h = None"
proof -
  let ?b = "length h"
  let ?ps = "start_state ?b (pc_max_nodes config) (first_token ts)"
  have cur: "ps_current ?ps = Some (hd (ta_tokens ts))" using assms(2) by (simp add: start_state_def first_token_def)
  have sep: "no_separator ts ?ps" and id: "at_type TOKEN_IDENTIFIER ?ps"
    using assms(2,3,5) cur by (auto simp: no_separator_def at_type_current)
  have "program_loop fuel ts (?b, 0) (?ps, h1) = None" if live: "\<forall>i < pc_max_nodes config. node_at h1 (?b, i) \<noteq> None" for h1
  proof (cases fuel)
    case (Suc n)
    from sep id have "parse_function n ts (?ps, h1) = None"
      using assms(2,4) live by (intro parse_function_stands [where b = ?b]) (auto simp: start_state_def)
    then show ?thesis using id Suc by (auto simp: at_type_current)
  qed simp
  then show ?thesis
    using parse_tokens_pool [OF assms(1), of fuel nodes_ok ts h] unfolding first_token_def by auto
qed

text \<open>
  C26: when \<open>parse_tokens\<close> ends. On no tokens, or on the end-of-input token at once, it
  returns a tree. It never returns on tokens that begin with anything but an identifier,
  because no loop skips such a token, nor on an identifier when no separator follows,
  because the end of the tokens does not end the parameters of a function.
\<close>

theorem parse_tokens_termination:
  assumes "0 < pc_max_nodes config"
  shows "(ta_tokens ts = [] \<or> tk_type (hd (ta_tokens ts)) = TOKEN_EOF \<longrightarrow>
      (\<exists>t h'. parse_tokens (Suc fuel) True True nodes_ok config (Some ts) h = Some (Returned (Some t, h')))) \<and>
    (ta_tokens ts \<noteq> [] \<and> tk_type (hd (ta_tokens ts)) \<notin> {TOKEN_EOF, TOKEN_IDENTIFIER} \<longrightarrow>
      parse_tokens fuel True True nodes_ok config (Some ts) h = None) \<and>
    (ta_tokens ts \<noteq> [] \<and> tk_type (hd (ta_tokens ts)) = TOKEN_IDENTIFIER \<and> 1 < pc_max_nodes config \<and>
       (\<forall>t \<in> set (ta_tokens ts). tk_type t \<noteq> TOKEN_SEPARATOR) \<longrightarrow>
      parse_tokens fuel True True nodes_ok config (Some ts) h = None)"
  using parse_tokens_ended [OF assms] parse_tokens_unexpected [OF assms] parse_tokens_open_function [OF assms] by blast

theorem parse_tokens_termination_witness:
  "parse_tokens 99 True True True few_nodes (Some (token_list [TOKEN_IDENTIFIER, TOKEN_EOF])) [] = None"
proof -
  have "0 < pc_max_nodes few_nodes" "1 < pc_max_nodes few_nodes" by (simp_all add: few_nodes_def)
  then show ?thesis
    using parse_tokens_termination [of few_nodes "token_list [TOKEN_IDENTIFIER, TOKEN_EOF]" 99 True "[]"]
    by (simp add: token_list_def token_of_type_def)
qed

end
