(* ===== verification/Network_Program.thy ===== *)
theory Network_Program
  imports Network Memory
begin

text \<open>
  The rest of \<open>src/network.c\<close>: ports, opening and closing of endpoints, the client table and
  one turn of the event loop, \<open>net_run\<close>. The socket calls of the operating system are the
  fields of \<open>'w os_sockets\<close>, functions of the state \<open>'w\<close> of the world; handlers act on the
  world too. A turn that takes a mutex its own thread holds never returns, \<open>None\<close>; taking a
  destroyed one, or giving \<open>select\<close> a descriptor beyond its sets, is undefined.
\<close>

section \<open>Mutexes\<close>

definition acquire :: "('s \<Rightarrow> mutex) \<Rightarrow> ((mutex \<Rightarrow> mutex) \<Rightarrow> 's \<Rightarrow> 's) \<Rightarrow> 's \<Rightarrow> 's run" where
  "acquire get upd s =
     (case get s of Unlocked \<Rightarrow> returns (upd (\<lambda>_. Locked) s)
      | Locked \<Rightarrow> None
      | Destroyed \<Rightarrow> Some Undefined)"

definition unlock :: "('s \<Rightarrow> mutex) \<Rightarrow> ((mutex \<Rightarrow> mutex) \<Rightarrow> 's \<Rightarrow> 's) \<Rightarrow> 's \<Rightarrow> 's run" where
  "unlock get upd s =
     (if get s = Locked then returns (upd (\<lambda>_. Unlocked) s) else Some Undefined)"

definition destroy_mutex :: "('s \<Rightarrow> mutex) \<Rightarrow> ((mutex \<Rightarrow> mutex) \<Rightarrow> 's \<Rightarrow> 's) \<Rightarrow> 's \<Rightarrow> 's run" where
  "destroy_mutex get upd s =
     (if get s = Unlocked then returns (upd (\<lambda>_. Destroyed) s) else Some Undefined)"

definition within ::
  "('s \<Rightarrow> mutex) \<Rightarrow> ((mutex \<Rightarrow> mutex) \<Rightarrow> 's \<Rightarrow> 's) \<Rightarrow> ('s \<Rightarrow> 's run) \<Rightarrow> 's \<Rightarrow> 's run" where
  "within get upd body s = run_then (acquire get upd s) (\<lambda>s. run_then (body s) (unlock get upd))"

text \<open>
  A state with a mutex in it. What runs under the mutex finds it locked, leaves it unlocked,
  and does not return where the mutex is held already.
\<close>

locale mutex_field =
  fixes get :: "'s \<Rightarrow> mutex"
    and upd :: "(mutex \<Rightarrow> mutex) \<Rightarrow> 's \<Rightarrow> 's"
    and has :: "'s \<Rightarrow> bool"
  assumes get_upd: "has s \<Longrightarrow> get (upd f s) = f (get s)"
    and has_upd: "has (upd f s) = has s"
begin

lemma within_held: "get s = Locked \<Longrightarrow> within get upd body s = None"
  by (simp add: within_def acquire_def)

lemma within_destroyed: "get s = Destroyed \<Longrightarrow> within get upd body s = Some Undefined"
  by (simp add: within_def acquire_def)

lemma within_free:
  assumes "get s = Unlocked" "body (upd (\<lambda>_. Locked) s) = Some (Returned s')" "get s' = Locked"
  shows "within get upd body s = Some (Returned (upd (\<lambda>_. Unlocked) s'))"
  using assms by (simp add: within_def acquire_def unlock_def)

lemma within_blocked:
  assumes "get s = Unlocked" "body (upd (\<lambda>_. Locked) s) = None"
  shows "within get upd body s = None"
  using assms by (simp add: within_def acquire_def)

lemma within_returned:
  assumes "within get upd body s = Some (Returned t)"
  obtains s' where "get s = Unlocked" "body (upd (\<lambda>_. Locked) s) = Some (Returned s')"
    "get s' = Locked" "t = upd (\<lambda>_. Unlocked) s'"
  using assms
  by (auto simp: within_def acquire_def unlock_def run_then_Returned
      split: mutex.splits if_splits)

lemma within_leaves_free:
  assumes "within get upd body s = Some (Returned t)" "has t"
  shows "get t = Unlocked"
  using assms(1)
proof (rule within_returned)
  fix s' assume "t = upd (\<lambda>_. Unlocked) s'"
  with assms(2) get_upd [of s' "\<lambda>_. Unlocked"] has_upd [of "\<lambda>_. Unlocked" s'] show ?thesis by simp
qed

end


section \<open>Addresses and the operating system\<close>

definition AF_INET :: u16 where "AF_INET = 2"
definition O_NONBLOCK :: int where "O_NONBLOCK = 2048"
definition NET_MAX_CLIENTS :: nat where "NET_MAX_CLIENTS = 10"
definition NET_BUFFER_SIZE :: nat where "NET_BUFFER_SIZE = 1024"
definition FD_SETSIZE :: int where "FD_SETSIZE = 1024"

text \<open>\<open>htons\<close> on a little-endian machine swaps the bytes.\<close>

definition htons :: "u16 \<Rightarrow> u16" where
  "htons p = push_bit 8 p OR drop_bit 8 p"

definition any_addr :: "u16 \<Rightarrow> sock_addr" where
  "any_addr port = \<lparr>sin_family = AF_INET, sin_port = htons port, sin_addr = 0\<rparr>"

datatype socket_kind = SOCK_STREAM | SOCK_DGRAM

datatype socket_option = SO_REUSEADDR | SO_LINGER

text \<open>
  The calls, with their results as the code reads them: a negative number is an error.
  \<open>os_accept\<close> also gives the peer's address, \<open>os_recv\<close> the bytes delivered, and \<open>os_select\<close>
  the descriptors left in the set it was given.
\<close>

record 'w os_sockets =
  os_socket :: "socket_kind \<Rightarrow> 'w \<Rightarrow> int \<times> 'w"
  os_setsockopt :: "int \<Rightarrow> socket_option \<Rightarrow> 'w \<Rightarrow> int \<times> 'w"
  os_bind :: "int \<Rightarrow> sock_addr \<Rightarrow> 'w \<Rightarrow> int \<times> 'w"
  os_listen :: "int \<Rightarrow> nat \<Rightarrow> 'w \<Rightarrow> int \<times> 'w"
  os_accept :: "int \<Rightarrow> 'w \<Rightarrow> (int \<times> sock_addr) \<times> 'w"
  os_getfl :: "int \<Rightarrow> 'w \<Rightarrow> int \<times> 'w"
  os_setfl :: "int \<Rightarrow> int \<Rightarrow> 'w \<Rightarrow> int \<times> 'w"
  os_select :: "int \<Rightarrow> int list \<Rightarrow> 'w \<Rightarrow> (int \<times> int list) \<times> 'w"
  os_recv :: "int \<Rightarrow> nat \<Rightarrow> u32 \<Rightarrow> 'w \<Rightarrow> (int \<times> u8 list) \<times> 'w"
  os_shutdown :: "int \<Rightarrow> 'w \<Rightarrow> 'w"
  os_close :: "int \<Rightarrow> 'w \<Rightarrow> 'w"
  os_usleep :: "nat \<Rightarrow> 'w \<Rightarrow> 'w"

definition set_nonblocking :: "'w os_sockets \<Rightarrow> int \<Rightarrow> 'w \<Rightarrow> int \<times> 'w" where
  "set_nonblocking os sockfd w =
     (let (flags, w) = os_getfl os sockfd w
      in if flags = -1 then (-1, w) else os_setfl os sockfd (flags OR O_NONBLOCK) w)"


section \<open>Ports\<close>

definition net_is_port_in_use :: "'w os_sockets \<Rightarrow> u16 \<Rightarrow> 'w \<Rightarrow> bool \<times> 'w" where
  "net_is_port_in_use os port w =
     (let (sock, w) = os_socket os SOCK_STREAM w
      in if sock < 0 then (True, w)
         else let (result, w) = os_bind os sock (any_addr port) w
              in (result < 0, os_close os sock w))"

definition net_release_port :: "'w os_sockets \<Rightarrow> u16 \<Rightarrow> 'w \<Rightarrow> bool \<times> 'w" where
  "net_release_port os port w =
     (let (sock, w) = os_socket os SOCK_STREAM w
      in if sock < 0 then (False, w)
         else let (opt, w) = os_setsockopt os sock SO_REUSEADDR w
              in if opt < 0 then (False, os_close os sock w)
                 else let (result, w) = os_bind os sock (any_addr port) w
                      in (result \<ge> 0, os_usleep os 100000 (os_close os sock w)))"

text \<open>The loop variable is a \<open>uint16_t\<close> and wraps; the loop need not end.\<close>

partial_function (option) find_available_port ::
    "'w os_sockets \<Rightarrow> u16 \<Rightarrow> u16 \<Rightarrow> 'w \<Rightarrow> (u16 \<times> 'w) option" where
  "find_available_port os port end_port w =
     (if port \<le> end_port
      then (case net_is_port_in_use os port w of
              (used, w') \<Rightarrow> if \<not> used then Some (port, w')
                            else find_available_port os (port + 1) end_port w')
      else Some (0, w))"

declare find_available_port.simps [code]


section \<open>Endpoints\<close>

definition socket_kind_of :: "network_protocol \<Rightarrow> socket_kind" where
  "socket_kind_of pr = (if pr = NET_TCP then SOCK_STREAM else SOCK_DGRAM)"

text \<open>Every failure after the socket was made closes it and destroys the mutex.\<close>

definition abandon :: "'w os_sockets \<Rightarrow> network_endpoint \<Rightarrow> 'w \<Rightarrow> bool \<times> network_endpoint option \<times> 'w" where
  "abandon os ep w = (False, Some (ep\<lparr>ep_lock := Destroyed\<rparr>), os_close os (ep_socket_fd ep) w)"

definition serve_endpoint ::
  "'w os_sockets \<Rightarrow> network_endpoint \<Rightarrow> 'w \<Rightarrow> bool \<times> network_endpoint option \<times> 'w" where
  "serve_endpoint os ep w =
     (if ep_role ep \<noteq> NET_SERVER then (True, Some (ep\<lparr>ep_lock := Unlocked\<rparr>), w)
      else let (bound, w) = os_bind os (ep_socket_fd ep) (ep_addr ep) w
           in if bound < 0 then abandon os ep w
              else if ep_protocol ep \<noteq> NET_TCP then (True, Some (ep\<lparr>ep_lock := Unlocked\<rparr>), w)
              else let (listening, w) = os_listen os (ep_socket_fd ep) NET_MAX_CLIENTS w
                   in if listening < 0 then abandon os ep w
                      else (True, Some (ep\<lparr>ep_lock := Unlocked\<rparr>), w))"

definition open_endpoint ::
  "'w os_sockets \<Rightarrow> network_endpoint \<Rightarrow> 'w \<Rightarrow> bool \<times> network_endpoint option \<times> 'w" where
  "open_endpoint os ep w =
     (let (fd, w) = os_socket os (socket_kind_of (ep_protocol ep)) w;
          ep = ep\<lparr>ep_lock := Locked, ep_socket_fd := fd\<rparr>
      in if fd < 0 then (False, Some (ep\<lparr>ep_lock := Destroyed\<rparr>), w)
         else let (opt, w) = os_setsockopt os fd SO_REUSEADDR w
              in if opt < 0 then abandon os ep w
                 else serve_endpoint os (ep\<lparr>ep_addr := any_addr (ep_port ep)\<rparr>) w)"

definition net_init ::
  "'w os_sockets \<Rightarrow> network_endpoint option \<Rightarrow> 'w \<Rightarrow> bool \<times> network_endpoint option \<times> 'w" where
  "net_init os endpoint w =
     (case endpoint of None \<Rightarrow> (False, None, w)
      | Some ep \<Rightarrow>
          let (used, w) = net_is_port_in_use os (ep_port ep) w;
              (available, w) = (if used then net_release_port os (ep_port ep) w else (True, w))
          in if \<not> available then (False, Some ep, w) else open_endpoint os ep w)"

definition net_close ::
  "'w os_sockets \<Rightarrow> network_endpoint option \<Rightarrow> 'w \<Rightarrow> (network_endpoint option \<times> 'w) run" where
  "net_close os endpoint w =
     (case endpoint of None \<Rightarrow> returns (None, w)
      | Some ep \<Rightarrow>
          run_then (acquire ep_lock ep_lock_update ep) (\<lambda>ep.
          let fd = ep_socket_fd ep;
              (ep, w) = (if fd > 0
                         then (ep\<lparr>ep_socket_fd := 0\<rparr>,
                               os_close os fd (os_shutdown os fd (snd (os_setsockopt os fd SO_LINGER w))))
                         else (ep, w))
          in run_then (unlock ep_lock ep_lock_update ep) (\<lambda>ep.
             run_then (destroy_mutex ep_lock ep_lock_update ep) (\<lambda>ep. returns (Some ep, w)))))"

text \<open>Delivering more bytes than the packet's memory has is undefined.\<close>

definition net_receive ::
  "'w os_sockets \<Rightarrow> network_endpoint option \<Rightarrow> network_packet option \<Rightarrow> 'w
   \<Rightarrow> (int \<times> network_endpoint option \<times> network_packet option \<times> 'w) run" where
  "net_receive os endpoint packet w =
     (case (endpoint, packet) of
        (Some ep, Some p) \<Rightarrow>
          run_then (acquire ep_lock ep_lock_update ep) (\<lambda>ep.
          let ((result, bytes), w) = os_recv os (ep_socket_fd ep) (pkt_size p) (pkt_flags p) w
          in if length bytes > length (pkt_data p) then Some Undefined
             else run_then (unlock ep_lock ep_lock_update ep) (\<lambda>ep.
                  returns (result, Some ep,
                    Some (p\<lparr>pkt_data := bytes @ drop (length bytes) (pkt_data p)\<rparr>), w)))
      | _ \<Rightarrow> returns (-1, endpoint, packet, w))"

interpretation endpoint_mutex: mutex_field ep_lock ep_lock_update "\<lambda>_. True"
  by unfold_locales simp_all

end
