(* ===== verification/Network_Run.thy ===== *)
theory Network_Run
  imports Network_Program
begin

text \<open>
  The network program of \<open>src/network.c\<close>: the table of ten clients, start and end of the
  program, and one turn of its loop, \<open>net_run\<close>. An operation works on a pair of the program
  and what else it changes (the world, a flag), so that the mutexes of the table and of its
  slots are fields of that pair.
\<close>

section \<open>State\<close>

record client_state =
  cl_lock :: mutex
  cl_active :: bool
  cl_socket :: int
  cl_addr :: sock_addr

type_synonym 'w endpoint_handler = "network_endpoint \<Rightarrow> 'w \<Rightarrow> 'w"

record 'w network_handlers =
  on_receive :: "(network_endpoint \<Rightarrow> network_packet \<Rightarrow> 'w \<Rightarrow> 'w) option"
  on_connect :: "'w endpoint_handler option"
  on_disconnect :: "'w endpoint_handler option"

record 'w network_program =
  np_endpoints :: "network_endpoint list option"
  np_count :: nat
  np_clients :: "client_state list"
  np_lock :: mutex
  np_running :: bool
  np_handlers :: "'w network_handlers"
  np_phantom :: address

definition zero_client :: client_state where
  "zero_client = \<lparr>cl_lock = Unlocked, cl_active = False, cl_socket = 0, cl_addr = zero_addr\<rparr>"

definition no_handlers :: "'w network_handlers" where
  "no_handlers = \<lparr>on_receive = None, on_connect = None, on_disconnect = None\<rparr>"

definition zero_program :: "'w network_program" where
  "zero_program = \<lparr>np_endpoints = None, np_count = 0,
     np_clients = replicate NET_MAX_CLIENTS zero_client, np_lock = Unlocked, np_running = False,
     np_handlers = no_handlers, np_phantom = 0\<rparr>"

definition slot :: "nat \<Rightarrow> 'w network_program \<times> 'x \<Rightarrow> client_state" where
  "slot i s = np_clients (fst s) ! i"

definition set_slot :: "nat \<Rightarrow> client_state \<Rightarrow> 'w network_program \<times> 'x \<Rightarrow> 'w network_program \<times> 'x" where
  "set_slot i c s = ((fst s)\<lparr>np_clients := (np_clients (fst s))[i := c]\<rparr>, snd s)"

definition table_lock :: "'w network_program \<times> 'x \<Rightarrow> mutex" where
  "table_lock s = np_lock (fst s)"

definition table_lock_update ::
  "(mutex \<Rightarrow> mutex) \<Rightarrow> 'w network_program \<times> 'x \<Rightarrow> 'w network_program \<times> 'x" where
  "table_lock_update f s = (np_lock_update f (fst s), snd s)"

definition slot_lock :: "nat \<Rightarrow> 'w network_program \<times> 'x \<Rightarrow> mutex" where
  "slot_lock i s = cl_lock (slot i s)"

definition slot_lock_update ::
  "nat \<Rightarrow> (mutex \<Rightarrow> mutex) \<Rightarrow> 'w network_program \<times> 'x \<Rightarrow> 'w network_program \<times> 'x" where
  "slot_lock_update i f s = set_slot i (cl_lock_update f (slot i s)) s"

abbreviation holding_table ::
  "('w network_program \<times> 'x \<Rightarrow> ('w network_program \<times> 'x) run) \<Rightarrow> 'w network_program \<times> 'x \<Rightarrow> ('w network_program \<times> 'x) run" where
  "holding_table \<equiv> within table_lock table_lock_update"

abbreviation holding_slot ::
  "nat \<Rightarrow> ('w network_program \<times> 'x \<Rightarrow> ('w network_program \<times> 'x) run) \<Rightarrow> 'w network_program \<times> 'x \<Rightarrow> ('w network_program \<times> 'x) run" where
  "holding_slot i \<equiv> within (slot_lock i) (slot_lock_update i)"


section \<open>The client table\<close>

definition net_init_client_state :: client_state where
  "net_init_client_state = \<lparr>cl_lock = Unlocked, cl_active = False, cl_socket = 0, cl_addr = zero_addr\<rparr>"

definition net_cleanup_client_state ::
  "'w os_sockets \<Rightarrow> client_state \<Rightarrow> 'w \<Rightarrow> (client_state \<times> 'w) run" where
  "net_cleanup_client_state os c w =
     run_then (acquire cl_lock cl_lock_update c) (\<lambda>c.
     let (c, w) = (if cl_socket c > 0
                   then (c\<lparr>cl_socket := 0\<rparr>, os_close os (cl_socket c) w) else (c, w));
         c = c\<lparr>cl_active := False\<rparr>
     in run_then (unlock cl_lock cl_lock_update c) (\<lambda>c.
        run_then (destroy_mutex cl_lock cl_lock_update c) (\<lambda>c. returns (c, w))))"

text \<open>Slots are tried in order until one is free; the flag says that one was found.\<close>

definition take_slot ::
  "int \<Rightarrow> sock_addr \<Rightarrow> nat \<Rightarrow> 'w network_program \<times> bool \<Rightarrow> ('w network_program \<times> bool) run" where
  "take_slot fd addr i s =
     (if snd s then returns s
      else holding_slot i (\<lambda>s.
        if \<not> cl_active (slot i s)
        then returns (fst (set_slot i ((slot i s)\<lparr>cl_socket := fd, cl_addr := addr, cl_active := True\<rparr>) s), True)
        else returns s) s)"

definition net_add_client ::
  "'w network_program option \<Rightarrow> int \<Rightarrow> sock_addr \<Rightarrow> ('w network_program option \<times> bool) run" where
  "net_add_client program fd addr =
     (case program of None \<Rightarrow> returns (None, False)
      | Some p \<Rightarrow> run_then (holding_table (fold_run (take_slot fd addr) [0..<NET_MAX_CLIENTS]) (p, False))
                   (\<lambda>(p, added). returns (Some p, added)))"

definition drop_slot ::
  "'w os_sockets \<Rightarrow> int \<Rightarrow> nat \<Rightarrow> 'w network_program \<times> 'w \<Rightarrow> ('w network_program \<times> 'w) run" where
  "drop_slot os fd i =
     holding_slot i (\<lambda>(p, w).
       let c = slot i (p, w)
       in if cl_active c \<and> cl_socket c = fd
          then returns (set_slot i (c\<lparr>cl_active := False, cl_socket := 0\<rparr>) (p, os_close os (cl_socket c) w))
          else returns (p, w))"

definition net_remove_client ::
  "'w os_sockets \<Rightarrow> 'w network_program option \<Rightarrow> int \<Rightarrow> 'w \<Rightarrow> ('w network_program option \<times> 'w) run" where
  "net_remove_client os program fd w =
     (case program of None \<Rightarrow> returns (None, w)
      | Some p \<Rightarrow> run_then (holding_table (fold_run (drop_slot os fd) [0..<NET_MAX_CLIENTS]) (p, w))
                   (\<lambda>(p, w). returns (Some p, w)))"


section \<open>Start and end\<close>

definition server_address :: string where
  "server_address = ''0.0.0.0'' @ replicate 9 NUL"

text \<open>\<open>memory\<close> says whether \<open>calloc\<close> finds memory for the endpoint.\<close>

definition net_init_program ::
  "'w os_sockets \<Rightarrow> bool \<Rightarrow> 'w network_program option \<Rightarrow> 'w \<Rightarrow> ('w network_program option \<times> 'w) run" where
  "net_init_program os memory program w =
     (case program of None \<Rightarrow> returns (None, w)
      | Some _ \<Rightarrow>
          let p = zero_program\<lparr>np_lock := Unlocked, np_running := True\<rparr>
          in if \<not> memory then returns (Some p, w)
             else (case find_available_port os 8080 8180 w of None \<Rightarrow> None
                   | Some (port, w) \<Rightarrow>
                       if port = 0 then returns (Some p, w)
                       else (case net_init os (Some (zero_endpoint\<lparr>ep_port := port,
                                 ep_protocol := NET_TCP, ep_role := NET_SERVER,
                                 ep_address := server_address\<rparr>)) w of
                               (True, Some ep, w) \<Rightarrow>
                                 returns (Some (p\<lparr>np_endpoints := Some [ep], np_count := 1,
                                   np_clients := replicate NET_MAX_CLIENTS net_init_client_state\<rparr>), w)
                             | (_, _, w) \<Rightarrow> returns (Some p, w))))"

fun close_endpoints :: "'w os_sockets \<Rightarrow> network_endpoint list \<Rightarrow> nat \<Rightarrow> 'w \<Rightarrow> 'w run" where
  "close_endpoints os [] n w = (if n = 0 then returns w else Some Undefined)"
| "close_endpoints os (ep # eps) n w =
     (if n = 0 then returns w
      else run_then (net_close os (Some ep) w) (\<lambda>(_, w). close_endpoints os eps (n - 1) w))"

definition clean_slot ::
  "'w os_sockets \<Rightarrow> nat \<Rightarrow> 'w network_program \<times> 'w \<Rightarrow> ('w network_program \<times> 'w) run" where
  "clean_slot os i s =
     run_then (net_cleanup_client_state os (slot i s) (snd s)) (\<lambda>(c, w).
       returns (set_slot i c (fst s, w)))"

definition net_cleanup_program ::
  "'w os_sockets \<Rightarrow> 'w network_program option \<Rightarrow> 'w \<Rightarrow> ('w network_program option \<times> 'w) run" where
  "net_cleanup_program os program w =
     (case program of None \<Rightarrow> returns (None, w)
      | Some p \<Rightarrow>
          run_then (holding_table (\<lambda>(p, w).
            let p = p\<lparr>np_running := False\<rparr>
            in run_then (case np_endpoints p of None \<Rightarrow> returns w
                         | Some eps \<Rightarrow> close_endpoints os eps (np_count p) w) (\<lambda>w.
               fold_run (clean_slot os) [0..<NET_MAX_CLIENTS]
                 (p\<lparr>np_endpoints := None, np_count := 0\<rparr>, w))) (p, w)) (\<lambda>s.
          run_then (destroy_mutex table_lock table_lock_update s) (\<lambda>(p, w). returns (Some p, w))))"


section \<open>One turn of the event loop\<close>

text \<open>\<open>FD_SET\<close> and \<open>FD_ISSET\<close> index a bit array by the descriptor.\<close>

definition fd_put :: "int \<Rightarrow> int list \<Rightarrow> int list option" where
  "fd_put fd fds = (if 0 \<le> fd \<and> fd < FD_SETSIZE then Some (List.insert fd fds) else None)"

definition fd_isset :: "int \<Rightarrow> int list \<Rightarrow> bool option" where
  "fd_isset fd fds = (if 0 \<le> fd \<and> fd < FD_SETSIZE then Some (fd \<in> set fds) else None)"

text \<open>The set of descriptors and the greatest of them.\<close>

definition watch_slot ::
  "nat \<Rightarrow> 'w network_program \<times> int list \<times> int \<Rightarrow> ('w network_program \<times> int list \<times> int) run" where
  "watch_slot i =
     holding_slot i (\<lambda>(p, fds, max_fd).
       let c = slot i (p, fds, max_fd)
       in if cl_active c \<and> cl_socket c > 0
          then need (fd_put (cl_socket c) fds) (\<lambda>fds. returns (p, fds, max max_fd (cl_socket c)))
          else returns (p, fds, max_fd))"

text \<open>The endpoint on the stack that stands for a client when a handler is called.\<close>

definition client_endpoint :: "'w network_program \<Rightarrow> int \<Rightarrow> sock_addr \<Rightarrow> network_endpoint" where
  "client_endpoint p fd addr =
     zero_endpoint\<lparr>ep_socket_fd := fd, ep_addr := addr, ep_phantom := np_phantom p\<rparr>"

definition call_handler :: "'w endpoint_handler option \<Rightarrow> network_endpoint \<Rightarrow> 'w \<Rightarrow> 'w" where
  "call_handler h ep w = (case h of None \<Rightarrow> w | Some f \<Rightarrow> f ep w)"

text \<open>A new connection; the flag says whether \<open>net_run\<close> goes on.\<close>

definition accept_client ::
  "'w os_sockets \<Rightarrow> int \<Rightarrow> 'w network_program \<times> 'w \<Rightarrow> (bool \<times> 'w network_program \<times> 'w) run" where
  "accept_client os listen_fd s =
     (let (p, w) = s; ((fd, addr), w) = os_accept os listen_fd w
      in if fd < 0 then returns (True, p, w)
         else let (blocking, w) = set_nonblocking os fd w
              in if blocking < 0 then returns (False, p, os_close os fd w)
                 else run_then (net_add_client (Some p) fd addr) (\<lambda>(q, added).
                      need q (\<lambda>p.
                        if added
                        then returns (True, p, call_handler (on_connect (np_handlers p)) (client_endpoint p fd addr) w)
                        else returns (True, p, os_close os fd w))))"

text \<open>The buffer leaves the last of its bytes free.\<close>

definition serve_slot ::
  "'w os_sockets \<Rightarrow> int list \<Rightarrow> nat \<Rightarrow> 'w network_program \<times> 'w \<Rightarrow> ('w network_program \<times> 'w) run" where
  "serve_slot os ready i =
     holding_slot i (\<lambda>(p, w).
       let c = slot i (p, w)
       in if \<not> cl_active c then returns (p, w)
          else need (fd_isset (cl_socket c) ready) (\<lambda>isset.
            if \<not> isset then returns (p, w)
            else let ((bytes_read, bytes), w) = os_recv os (cl_socket c) (NET_BUFFER_SIZE - 1) 0 w;
                     ep = client_endpoint p (cl_socket c) (cl_addr c)
                 in if bytes_read \<le> 0
                    then let w = call_handler (on_disconnect (np_handlers p)) ep w
                         in run_then (net_remove_client os (Some p) (cl_socket c) w)
                              (\<lambda>(q, w). need q (\<lambda>p. returns (p, w)))
                    else returns (p,
                      (case on_receive (np_handlers p) of None \<Rightarrow> w
                       | Some f \<Rightarrow> f ep \<lparr>pkt_data = take (nat bytes_read) bytes,
                                      pkt_size = nat bytes_read, pkt_flags = 0\<rparr> w))))"

definition serve_clients ::
  "'w os_sockets \<Rightarrow> int list \<Rightarrow> 'w network_program \<times> 'w \<Rightarrow> ('w network_program \<times> 'w) run" where
  "serve_clients os ready = holding_table (fold_run (serve_slot os ready) [0..<NET_MAX_CLIENTS])"

definition react ::
  "'w os_sockets \<Rightarrow> int \<Rightarrow> int list \<Rightarrow> 'w network_program \<times> 'w \<Rightarrow> ('w network_program \<times> 'w) run" where
  "react os listen_fd ready s =
     need (fd_isset listen_fd ready) (\<lambda>isset.
     run_then (if isset then accept_client os listen_fd s else returns (True, s))
       (\<lambda>(continue, s). if continue then serve_clients os ready s else returns s))"

definition turn ::
  "'w os_sockets \<Rightarrow> int \<Rightarrow> 'w network_program \<times> 'w \<Rightarrow> ('w network_program \<times> 'w) run" where
  "turn os listen_fd s =
     need (fd_put listen_fd []) (\<lambda>fds.
     run_then (holding_table (fold_run watch_slot [0..<NET_MAX_CLIENTS]) (fst s, fds, listen_fd)) (\<lambda>(p, fds, max_fd).
     let ((activity, ready), w) = os_select os (max_fd + 1) fds (snd s)
     in if activity < 0 then returns (p, w) else react os listen_fd ready (p, w)))"

definition net_run ::
  "'w os_sockets \<Rightarrow> 'w network_program option \<Rightarrow> 'w \<Rightarrow> ('w network_program option \<times> 'w) run" where
  "net_run os program w =
     (case program of None \<Rightarrow> returns (None, w)
      | Some p \<Rightarrow>
          if \<not> np_running p then returns (program, w)
          else (case np_endpoints p of None \<Rightarrow> returns (program, w)
                | Some eps \<Rightarrow>
                    if np_count p = 0 then returns (program, w)
                    else if eps = [] then Some Undefined
                    else if ep_socket_fd (hd eps) \<le> 0 then returns (program, w)
                    else run_then (turn os (ep_socket_fd (hd eps)) (p, w)) (\<lambda>(p, w). returns (Some p, w))))"

interpretation table_mutex: mutex_field table_lock table_lock_update "\<lambda>_. True"
  by unfold_locales (simp_all add: table_lock_def table_lock_update_def)

interpretation slot_mutex: mutex_field "slot_lock i" "slot_lock_update i"
    "\<lambda>s. i < length (np_clients (fst s))" for i
  by unfold_locales (simp_all add: slot_lock_def slot_lock_update_def slot_def set_slot_def)

end
