(* ===== verification/Network_Laws.thy ===== *)
theory Network_Laws
  imports Network_Run "HOL-Library.Multiset"
begin

text \<open>
  What the operations on a network program do to the table of clients, stated over the
  multiset of connections it holds; when a turn of the loop returns; and the descriptors the
  process has open.
\<close>

section \<open>Slots\<close>

text \<open>The connections in an array of slots, and a program none of whose mutexes is held.\<close>

definition connections :: "client_state list \<Rightarrow> (int \<times> sock_addr) list" where
  "connections cs = map (\<lambda>c. (cl_socket c, cl_addr c)) (filter cl_active cs)"

definition at_rest :: "'w network_program \<Rightarrow> bool" where
  "at_rest p \<longleftrightarrow> np_lock p = Unlocked \<and> length (np_clients p) = NET_MAX_CLIENTS \<and>
     (\<forall>c \<in> set (np_clients p). cl_lock c = Unlocked)"

abbreviation slots_free :: "'w network_program \<Rightarrow> bool" where
  "slots_free p \<equiv> \<forall>c \<in> set (np_clients p). cl_lock c = Unlocked"

lemma holding_slot_free:
  assumes "i < length (np_clients p)" "cl_lock (np_clients p ! i) = Unlocked" "cl_lock c = Unlocked"
    and "body (set_slot i ((np_clients p ! i)\<lparr>cl_lock := Locked\<rparr>) (p, x))
      = Some (Returned (set_slot i (c\<lparr>cl_lock := Locked\<rparr>) (p, y)))"
  shows "holding_slot i body (p, x) = Some (Returned (set_slot i c (p, y)))"
  using assms
  by (cases c) (simp add: within_def acquire_def unlock_def slot_lock_def slot_lock_update_def slot_def set_slot_def)

lemma slot_set_slot: "i < length (np_clients p) \<Longrightarrow> slot i (set_slot i c (p, x)) = c"
  by (simp add: slot_def set_slot_def)

lemma lock_commutes:
  "c\<lparr>cl_lock := l, cl_active := a\<rparr> = c\<lparr>cl_active := a, cl_lock := l\<rparr>"
  "c\<lparr>cl_lock := l, cl_socket := fd\<rparr> = c\<lparr>cl_socket := fd, cl_lock := l\<rparr>"
  "c\<lparr>cl_lock := l, cl_addr := addr\<rparr> = c\<lparr>cl_addr := addr, cl_lock := l\<rparr>"
  by simp_all

lemma take_slot_free:
  assumes i: "i < length (np_clients p)" and free: "cl_lock (np_clients p ! i) = Unlocked"
  shows "take_slot fd addr i (p, added) = returns
    (if added \<or> cl_active (np_clients p ! i) then (p, added)
     else set_slot i ((np_clients p ! i)\<lparr>cl_socket := fd, cl_addr := addr, cl_active := True\<rparr>) (p, True))"
proof -
  let ?c = "np_clients p ! i"
  let ?d = "if cl_active ?c then ?c else ?c\<lparr>cl_socket := fd, cl_addr := addr, cl_active := True\<rparr>"
  have "\<not> added \<Longrightarrow> take_slot fd addr i (p, added) =
      Some (Returned (set_slot i ?d (p, \<not> cl_active ?c)))"
    unfolding take_slot_def
    by (simp only: snd_conv if_False, rule holding_slot_free [OF i free])
       (simp_all add: free slot_set_slot i, simp add: set_slot_def lock_commutes)
  then show ?thesis
    by (auto simp: take_slot_def set_slot_def)
qed

lemma holding_slot_stops:
  assumes "cl_lock (np_clients p ! i) = Unlocked"
    and "body (set_slot i ((np_clients p ! i)\<lparr>cl_lock := Locked\<rparr>) (p, x)) = r"
    and "r = None \<or> r = Some Undefined"
  shows "holding_slot i body (p, x) = r"
  using assms
  by (auto simp: within_def acquire_def slot_lock_def slot_lock_update_def slot_def set_slot_def)

lemma drop_slot_free:
  assumes i: "i < length (np_clients p)" and free: "cl_lock (np_clients p ! i) = Unlocked"
  shows "drop_slot os fd i (p, w) = returns
    (if cl_active (np_clients p ! i) \<and> cl_socket (np_clients p ! i) = fd
     then set_slot i ((np_clients p ! i)\<lparr>cl_active := False, cl_socket := 0\<rparr>) (p, os_close os fd w)
     else (p, w))"
proof -
  let ?c = "np_clients p ! i"
  let ?hit = "cl_active ?c \<and> cl_socket ?c = fd"
  let ?d = "if ?hit then ?c\<lparr>cl_active := False, cl_socket := 0\<rparr> else ?c"
  have "drop_slot os fd i (p, w) =
      Some (Returned (set_slot i ?d (p, if ?hit then os_close os fd w else w)))"
    unfolding drop_slot_def
    by (rule holding_slot_free [OF i free])
       (simp_all add: free slot_def set_slot_def i Let_def lock_commutes)
  then show ?thesis
    by (auto simp: set_slot_def)
qed

lemma watch_slot_free:
  assumes i: "i < length (np_clients p)" and free: "cl_lock (np_clients p ! i) = Unlocked"
  shows "watch_slot i (p, fds, m) =
    (let c = np_clients p ! i
     in if cl_active c \<and> cl_socket c > 0
        then if cl_socket c < FD_SETSIZE
             then returns (p, List.insert (cl_socket c) fds, max m (cl_socket c))
             else Some Undefined
        else returns (p, fds, m))"
proof -
  let ?c = "np_clients p ! i"
  let ?hit = "cl_active ?c \<and> cl_socket ?c > 0"
  show ?thesis
  proof (cases "?hit \<and> \<not> cl_socket ?c < FD_SETSIZE")
    case True
    then have "watch_slot i (p, fds, m) = Some Undefined"
      unfolding watch_slot_def
      by (intro holding_slot_stops [OF free])
         (simp_all add: slot_def set_slot_def i Let_def fd_put_def)
    with True show ?thesis by (simp add: Let_def)
  next
    case False
    then have "watch_slot i (p, fds, m) = Some (Returned (set_slot i ?c
        (p, if ?hit then (List.insert (cl_socket ?c) fds, max m (cl_socket ?c)) else (fds, m))))"
      unfolding watch_slot_def
      by (intro holding_slot_free [OF i free free])
         (auto simp: slot_def set_slot_def i Let_def fd_put_def)
    with False show ?thesis by (auto simp: Let_def set_slot_def)
  qed
qed

text \<open>
  Serving one slot of a table that is held. Where the peer is gone, the thread waits for
  itself: removing the client takes the mutex of the table again.
\<close>

definition heard :: "'w network_program \<Rightarrow> client_state \<Rightarrow> int \<Rightarrow> u8 list \<Rightarrow> 'w \<Rightarrow> 'w" where
  "heard p c n bytes w =
     (case on_receive (np_handlers p) of None \<Rightarrow> w
      | Some f \<Rightarrow> f (client_endpoint p (cl_socket c) (cl_addr c))
          \<lparr>pkt_data = take (nat n) bytes, pkt_size = nat n, pkt_flags = 0\<rparr> w)"

lemma remove_held: "np_lock p = Locked \<Longrightarrow> net_remove_client os (Some p) fd w = None"
  by (simp add: net_remove_client_def table_mutex.within_held table_lock_def)

lemma serve_slot_held:
  assumes i: "i < length (np_clients p)" and free: "cl_lock (np_clients p ! i) = Unlocked"
    and held: "np_lock p = Locked"
  shows "serve_slot os ready i (p, w) =
    (let c = np_clients p ! i
     in if \<not> cl_active c then returns (p, w)
        else if cl_socket c < 0 \<or> \<not> cl_socket c < FD_SETSIZE then Some Undefined
        else if cl_socket c \<notin> set ready then returns (p, w)
        else let ((n, bytes), w') = os_recv os (cl_socket c) (NET_BUFFER_SIZE - 1) 0 w
             in if n \<le> 0 then None else returns (p, heard p c n bytes w'))"
proof -
  let ?c = "np_clients p ! i"
  obtain n bytes w' where recv: "os_recv os (cl_socket ?c) (NET_BUFFER_SIZE - 1) 0 w = ((n, bytes), w')"
    by (metis prod.collapse)
  note recv = recv recv [unfolded One_nat_def]
  let ?bad = "cl_active ?c \<and> (cl_socket ?c < 0 \<or> \<not> cl_socket ?c < FD_SETSIZE)"
  let ?hit = "cl_active ?c \<and> \<not> ?bad \<and> cl_socket ?c \<in> set ready"
  consider "?bad" | "?hit" "n \<le> 0" | "\<not> ?bad" "\<not> ?hit \<or> n > 0" by linarith
  then show ?thesis
  proof cases
    case 1
    then have "serve_slot os ready i (p, w) = Some Undefined"
      unfolding serve_slot_def
      by (intro holding_slot_stops [OF free])
         (auto simp: slot_def set_slot_def i Let_def fd_isset_def)
    with 1 show ?thesis by (auto simp: Let_def)
  next
    case 2
    then have "serve_slot os ready i (p, w) = None"
      unfolding serve_slot_def
      by (intro holding_slot_stops [OF free])
         (auto simp: slot_def set_slot_def i Let_def fd_isset_def recv remove_held held)
    with 2 show ?thesis by (auto simp: Let_def recv)
  next
    case 3
    then have "serve_slot os ready i (p, w) = Some (Returned (set_slot i ?c
        (p, if ?hit then heard p ?c n bytes w' else w)))"
      unfolding serve_slot_def
      by (intro holding_slot_free [OF i free free])
         (auto simp: slot_def set_slot_def i Let_def fd_isset_def recv heard_def client_endpoint_def
           split: option.splits)
    with 3 show ?thesis by (auto simp: Let_def recv set_slot_def)
  qed
qed


section \<open>The table\<close>

lemma mset_connections_update:
  assumes "i < length cs"
  shows "mset (connections (cs[i := d])) +
      (if cl_active (cs ! i) then {#(cl_socket (cs ! i), cl_addr (cs ! i))#} else {#}) =
    mset (connections cs) + (if cl_active d then {#(cl_socket d, cl_addr d)#} else {#})"
proof -
  from assms have "connections cs = connections (take i cs) @ connections [cs ! i] @ connections (drop (Suc i) cs)"
    by (subst id_take_nth_drop [OF assms]) (simp add: connections_def)
  moreover from assms have "connections (cs[i := d]) = connections (take i cs) @ connections [d] @ connections (drop (Suc i) cs)"
    by (simp add: upd_conv_take_nth_drop connections_def)
  ultimately show ?thesis by (simp add: connections_def)
qed

lemma length_connections: "length (connections cs) \<le> length cs"
  by (simp add: connections_def)

lemma connections_full: "length (connections cs) < length cs \<longleftrightarrow> (\<exists>i < length cs. \<not> cl_active (cs ! i))"
proof -
  have "length (filter cl_active cs) < length cs \<longleftrightarrow> (\<exists>c \<in> set cs. \<not> cl_active c)"
    using length_filter_less [of _ cs cl_active] by (metis filter_True nat_neq_iff)
  then show ?thesis by (metis connections_def in_set_conv_nth length_map)
qed

definition admit :: "nat \<Rightarrow> int \<Rightarrow> sock_addr \<Rightarrow> 'w network_program \<Rightarrow> 'w network_program" where
  "admit i fd addr p = p\<lparr>np_clients := (np_clients p)
     [i := (np_clients p ! i)\<lparr>cl_socket := fd, cl_addr := addr, cl_active := True\<rparr>]\<rparr>"

definition first_free :: "nat \<Rightarrow> 'w network_program \<Rightarrow> bool" where
  "first_free i p \<longleftrightarrow> i < length (np_clients p) \<and> \<not> cl_active (np_clients p ! i) \<and>
     (\<forall>j < i. cl_active (np_clients p ! j))"

lemma set_slot_admit:
  "set_slot i ((np_clients p ! i)\<lparr>cl_socket := fd, cl_addr := addr, cl_active := True\<rparr>) (p, x)
   = (admit i fd addr p, x)"
  by (simp add: set_slot_def admit_def)

lemma slots_free_admit: "slots_free p \<Longrightarrow> i < length (np_clients p) \<Longrightarrow> slots_free (admit i fd addr p)"
  by (auto simp: admit_def dest!: set_update_subset_insert [THEN subsetD])

lemma take_slots:
  assumes "slots_free p" "n \<le> length (np_clients p)"
  shows "(\<exists>i < n. first_free i p \<and>
        fold_run (take_slot fd addr) [0..<n] (p, False) = returns (admit i fd addr p, True)) \<or>
      (\<forall>i < n. cl_active (np_clients p ! i)) \<and>
        fold_run (take_slot fd addr) [0..<n] (p, False) = returns (p, False)"
  using assms
proof (induction n)
  case (Suc n)
  then have n: "n < length (np_clients p)" by simp
  from Suc consider
      (found) i where "i < n" "first_free i p"
        "fold_run (take_slot fd addr) [0..<n] (p, False) = returns (admit i fd addr p, True)"
    | (none) "\<forall>i < n. cl_active (np_clients p ! i)"
        "fold_run (take_slot fd addr) [0..<n] (p, False) = returns (p, False)"
    by auto
  then show ?case
  proof cases
    case found
    then have "fold_run (take_slot fd addr) [0..<Suc n] (p, False) = returns (admit i fd addr p, True)"
      by (simp add: fold_run_append take_slot_def)
    with found show ?thesis using less_SucI by blast
  next
    case none
    from n Suc.prems(1) have "take_slot fd addr n (p, False) = returns
        (if cl_active (np_clients p ! n) then (p, False) else (admit n fd addr p, True))"
      by (simp add: take_slot_free set_slot_admit)
    with none n show ?thesis
      by (cases "cl_active (np_clients p ! n)") (auto simp: fold_run_append first_free_def less_Suc_eq)
  qed
qed simp

text \<open>Running a loop over the slots while the table is held.\<close>

lemma holding_table_free:
  assumes "np_lock p = Unlocked"
    and "body (p\<lparr>np_lock := Locked\<rparr>, x) = Some (Returned (q\<lparr>np_lock := Locked\<rparr>, y))"
    and "np_lock q = Unlocked"
  shows "holding_table body (p, x) = Some (Returned (q, y))"
  using assms
  by (cases q) (simp add: within_def acquire_def unlock_def table_lock_def table_lock_update_def)

lemma holding_table_stops:
  assumes "np_lock p = Unlocked" "body (p\<lparr>np_lock := Locked\<rparr>, x) = r" "r = None \<or> r = Some Undefined"
  shows "holding_table body (p, x) = r"
  using assms by (auto simp: within_def acquire_def table_lock_def table_lock_update_def)

lemma first_free_lock [simp]: "first_free i (p\<lparr>np_lock := l\<rparr>) = first_free i p"
  by (simp add: first_free_def)

lemma admit_lock: "admit i fd addr (p\<lparr>np_lock := l\<rparr>) = (admit i fd addr p)\<lparr>np_lock := l\<rparr>"
  by (simp add: admit_def)

lemma net_add_client_cases:
  assumes "at_rest p"
  shows "(\<exists>i. first_free i p \<and> net_add_client (Some p) fd addr = returns (Some (admit i fd addr p), True)) \<or>
      (\<forall>c \<in> set (np_clients p). cl_active c) \<and> net_add_client (Some p) fd addr = returns (Some p, False)"
proof -
  from assms have rest: "np_lock p = Unlocked" "length (np_clients p) = NET_MAX_CLIENTS" "slots_free p"
    by (auto simp: at_rest_def)
  let ?q = "p\<lparr>np_lock := Locked\<rparr>"
  from rest consider
      (found) i where "first_free i p" "fold_run (take_slot fd addr) [0..<NET_MAX_CLIENTS] (?q, False)
        = returns ((admit i fd addr p)\<lparr>np_lock := Locked\<rparr>, True)"
    | (none) "\<forall>i < NET_MAX_CLIENTS. cl_active (np_clients p ! i)"
        "fold_run (take_slot fd addr) [0..<NET_MAX_CLIENTS] (?q, False) = returns (?q, False)"
    using take_slots [of ?q NET_MAX_CLIENTS fd addr] by (auto simp: admit_lock)
  then show ?thesis
  proof cases
    case found
    from holding_table_free [of p "fold_run (take_slot fd addr) [0..<NET_MAX_CLIENTS]" False
        "admit i fd addr p" True] found(2) rest(1)
    have "net_add_client (Some p) fd addr = returns (Some (admit i fd addr p), True)"
      by (simp add: net_add_client_def admit_def)
    with found(1) show ?thesis by blast
  next
    case none
    from holding_table_free [of p "fold_run (take_slot fd addr) [0..<NET_MAX_CLIENTS]" False p False]
      none(2) rest(1)
    have "net_add_client (Some p) fd addr = returns (Some p, False)"
      by (simp add: net_add_client_def)
    with none(1) rest(2) show ?thesis by (auto simp: in_set_conv_nth)
  qed
qed

lemma at_rest_admit: "at_rest p \<Longrightarrow> i < length (np_clients p) \<Longrightarrow> at_rest (admit i fd addr p)"
  using slots_free_admit [of p i fd addr] by (simp add: at_rest_def admit_def)

lemma connections_admit:
  "first_free i p \<Longrightarrow>
   mset (connections (np_clients (admit i fd addr p))) = mset (connections (np_clients p)) + {#(fd, addr)#}"
  using mset_connections_update
    [of i "np_clients p" "(np_clients p ! i)\<lparr>cl_socket := fd, cl_addr := addr, cl_active := True\<rparr>"]
  by (simp add: admit_def first_free_def)

text \<open>Removing closes the descriptor once for every slot that holds it.\<close>

definition cleared :: "int \<Rightarrow> client_state \<Rightarrow> client_state" where
  "cleared fd c = (if cl_active c \<and> cl_socket c = fd then c\<lparr>cl_active := False, cl_socket := 0\<rparr> else c)"

lemma cleared_lock [simp]: "cl_lock (cleared fd c) = cl_lock c"
  by (simp add: cleared_def)

lemma drop_slots:
  assumes "slots_free p" "n \<le> length (np_clients p)"
  shows "fold_run (drop_slot os fd) [0..<n] (p, w) = returns
    (p\<lparr>np_clients := map (cleared fd) (take n (np_clients p)) @ drop n (np_clients p)\<rparr>,
     (os_close os fd ^^ length (filter (\<lambda>c. cl_active c \<and> cl_socket c = fd) (take n (np_clients p)))) w)"
  using assms
proof (induction n)
  case (Suc n)
  let ?cs = "np_clients p"
  let ?ds = "map (cleared fd) (take n ?cs) @ drop n ?cs"
  from Suc.prems have n: "n < length ?cs" by simp
  then have nth: "?ds ! n = ?cs ! n" "n < length ?ds" by (simp_all add: nth_append)
  have upd: "?ds[n := cleared fd (?cs ! n)] = map (cleared fd) (take (Suc n) ?cs) @ drop (Suc n) ?cs"
    using n by (simp add: list_update_append take_Suc_conv_app_nth Cons_nth_drop_Suc [symmetric])
  from list_update_id [of ?ds n] nth have same: "?ds[n := ?cs ! n] = ?ds" by simp
  from Suc.prems(1) n have "cl_lock (?cs ! n) = Unlocked" by simp
  with nth have "drop_slot os fd n (p\<lparr>np_clients := ?ds\<rparr>, u) = returns
      (p\<lparr>np_clients := ?ds[n := cleared fd (?cs ! n)]\<rparr>,
       if cl_active (?cs ! n) \<and> cl_socket (?cs ! n) = fd then os_close os fd u else u)" for u
    by (auto simp: drop_slot_free set_slot_def cleared_def same simp del: list_update_id)
  with Suc n show ?case
    by (simp add: fold_run_append upd take_Suc_conv_app_nth)
qed simp

lemma net_remove_client_result:
  assumes "at_rest p"
  shows "net_remove_client os (Some p) fd w = returns
    (Some (p\<lparr>np_clients := map (cleared fd) (np_clients p)\<rparr>),
     (os_close os fd ^^ length (filter (\<lambda>x. fst x = fd) (connections (np_clients p)))) w)"
proof -
  from assms have rest: "np_lock p = Unlocked" "length (np_clients p) = NET_MAX_CLIENTS" "slots_free p"
    by (auto simp: at_rest_def)
  let ?q = "p\<lparr>np_clients := map (cleared fd) (np_clients p)\<rparr>"
  let ?w = "(os_close os fd ^^ length (filter (\<lambda>c. cl_active c \<and> cl_socket c = fd) (np_clients p))) w"
  from rest drop_slots [of "p\<lparr>np_lock := Locked\<rparr>" NET_MAX_CLIENTS os fd w]
  have "fold_run (drop_slot os fd) [0..<NET_MAX_CLIENTS] (p\<lparr>np_lock := Locked\<rparr>, w)
      = Some (Returned (?q\<lparr>np_lock := Locked\<rparr>, ?w))" by simp
  with rest(1) have "holding_table (fold_run (drop_slot os fd) [0..<NET_MAX_CLIENTS]) (p, w) = Some (Returned (?q, ?w))"
    by (intro holding_table_free) simp_all
  then show ?thesis
    by (simp add: net_remove_client_def connections_def filter_map comp_def conj_commute)
qed

lemma connections_cleared:
  "connections (map (cleared fd) cs) = filter (\<lambda>x. fst x \<noteq> fd) (connections cs)"
  by (induction cs) (auto simp: connections_def cleared_def)

lemma at_rest_cleared: "at_rest p \<Longrightarrow> at_rest (p\<lparr>np_clients := map (cleared fd) (np_clients p)\<rparr>)"
  by (simp add: at_rest_def)


section \<open>One turn\<close>

lemma fold_run_stuck:
  assumes "\<And>x s. x \<in> set xs \<Longrightarrow> P s \<Longrightarrow> f x s = None \<or> (\<exists>s'. f x s = Some (Returned s') \<and> P s')"
    and "P s" "y \<in> set xs" "\<And>s. P s \<Longrightarrow> f y s = None"
  shows "fold_run f xs s = None"
  using assms(1-3)
proof (induction xs arbitrary: s)
  case (Cons x xs)
  show ?case
  proof (cases "x = y")
    case True
    with assms(4) [OF Cons.prems(2)] show ?thesis by simp
  next
    case False
    from Cons.prems(1) [of x s] Cons.prems(2) consider "f x s = None"
      | s' where "f x s = Some (Returned s')" "P s'" by auto
    then show ?thesis
      using Cons False by cases auto
  qed
qed simp

lemma fold_run_returns:
  assumes "\<And>x s. x \<in> set xs \<Longrightarrow> P s \<Longrightarrow> \<exists>s'. f x s = Some (Returned s') \<and> P s'" "P s"
  shows "\<exists>s'. fold_run f xs s = Some (Returned s') \<and> P s'"
  using assms
proof (induction xs arbitrary: s)
  case (Cons x xs)
  from Cons.prems(1) [of x s] Cons.prems(2) obtain s' where "f x s = Some (Returned s')" "P s'" by auto
  with Cons.IH [of s'] Cons.prems(1) show ?case by simp
qed simp

text \<open>The descriptors \<open>select\<close> is asked about.\<close>

definition in_range :: "'w network_program \<Rightarrow> bool" where
  "in_range p \<longleftrightarrow> (\<forall>(fd, addr) \<in> set (connections (np_clients p)). 0 \<le> fd \<and> fd < FD_SETSIZE)"

lemma in_range_slot:
  "in_range p \<Longrightarrow> i < length (np_clients p) \<Longrightarrow> cl_active (np_clients p ! i) \<Longrightarrow>
   0 \<le> cl_socket (np_clients p ! i) \<and> cl_socket (np_clients p ! i) < FD_SETSIZE"
  by (auto simp: in_range_def connections_def)

lemma in_range_lock [simp]: "in_range (p\<lparr>np_lock := l\<rparr>) = in_range p"
  by (simp add: in_range_def)

lemma watch_slots:
  assumes "slots_free p" "in_range p" "n \<le> length (np_clients p)"
  shows "\<exists>gds m'. fold_run watch_slot [0..<n] (p, fds, m) = Some (Returned (p, gds, m')) \<and>
    set fds \<subseteq> set gds \<and>
    (\<forall>i < n. cl_active (np_clients p ! i) \<and> 0 < cl_socket (np_clients p ! i) \<longrightarrow> cl_socket (np_clients p ! i) \<in> set gds)"
  using assms
proof (induction n)
  case (Suc n)
  then obtain gds m' where IH: "fold_run watch_slot [0..<n] (p, fds, m) = Some (Returned (p, gds, m'))"
      "set fds \<subseteq> set gds"
      "\<forall>i < n. cl_active (np_clients p ! i) \<and> 0 < cl_socket (np_clients p ! i) \<longrightarrow> cl_socket (np_clients p ! i) \<in> set gds"
    by auto
  let ?c = "np_clients p ! n"
  let ?hit = "cl_active ?c \<and> 0 < cl_socket ?c"
  from Suc.prems have n: "n < length (np_clients p)" "cl_lock ?c = Unlocked" by simp_all
  with in_range_slot [OF Suc.prems(2), of n]
  have "fold_run watch_slot [0..<Suc n] (p, fds, m) = Some (Returned
      (p, if ?hit then (List.insert (cl_socket ?c) gds, max m' (cl_socket ?c)) else (gds, m')))"
    by (auto simp: fold_run_append IH(1) watch_slot_free Let_def)
  with IH(2,3) show ?case
    by (cases ?hit) (auto simp: less_Suc_eq)
qed simp

lemma watch_table:
  assumes "at_rest p" "in_range p"
  obtains gds m' where
    "holding_table (fold_run watch_slot [0..<NET_MAX_CLIENTS]) (p, fds, m) = Some (Returned (p, gds, m'))"
    "set fds \<subseteq> set gds"
    "\<forall>c \<in> set (np_clients p). cl_active c \<and> 0 < cl_socket c \<longrightarrow> cl_socket c \<in> set gds"
proof -
  from assms have rest: "np_lock p = Unlocked" "length (np_clients p) = NET_MAX_CLIENTS" "slots_free p"
    by (auto simp: at_rest_def)
  with assms(2) watch_slots [of "p\<lparr>np_lock := Locked\<rparr>" NET_MAX_CLIENTS fds m] obtain gds m' where w:
      "fold_run watch_slot [0..<NET_MAX_CLIENTS] (p\<lparr>np_lock := Locked\<rparr>, fds, m)
         = Some (Returned (p\<lparr>np_lock := Locked\<rparr>, gds, m'))"
      "set fds \<subseteq> set gds"
      "\<forall>i < NET_MAX_CLIENTS. cl_active (np_clients p ! i) \<and> 0 < cl_socket (np_clients p ! i) \<longrightarrow> cl_socket (np_clients p ! i) \<in> set gds"
    by auto
  from holding_table_free [of p "fold_run watch_slot [0..<NET_MAX_CLIENTS]" "(fds, m)" p "(gds, m')", OF rest(1) w(1) rest(1)] w(2,3) rest(2) that
  show ?thesis by (simp add: all_set_conv_all_nth)
qed

text \<open>Serving leaves the program as it is; it returns unless a client is gone.\<close>

lemma serve_slot_outcome:
  assumes "slots_free p" "np_lock p = Locked" "in_range p" "i < length (np_clients p)"
  shows "serve_slot os ready i (p, w) = None \<or> (\<exists>w'. serve_slot os ready i (p, w) = Some (Returned (p, w')))"
proof -
  obtain n bytes w' where recv:
      "os_recv os (cl_socket (np_clients p ! i)) (NET_BUFFER_SIZE - 1) 0 w = ((n, bytes), w')"
    by (metis prod.collapse)
  note recv = recv recv [unfolded One_nat_def]
  from assms in_range_slot [OF assms(3,4)] show ?thesis
    by (cases "cl_active (np_clients p ! i)") (simp_all add: serve_slot_held Let_def recv)
qed

lemma table_loop_program:
  assumes "at_rest p" "holding_table (fold_run f [0..<NET_MAX_CLIENTS]) (p, x) = Some (Returned (q, y))"
    and step: "\<And>i z s. i < length (np_clients p) \<Longrightarrow> cl_lock (np_clients p ! i) = Unlocked \<Longrightarrow>
      f i (p\<lparr>np_lock := Locked\<rparr>, z) = Some (Returned s) \<Longrightarrow> fst s = p\<lparr>np_lock := Locked\<rparr>"
  shows "q = p"
proof -
  from assms(1) have rest: "np_lock p = Unlocked" "length (np_clients p) = NET_MAX_CLIENTS" "slots_free p"
    by (auto simp: at_rest_def)
  let ?l = "p\<lparr>np_lock := Locked\<rparr>"
  from assms(2) obtain s where s: "fold_run f [0..<NET_MAX_CLIENTS] (?l, x) = Some (Returned s)"
      and q: "(q, y) = table_lock_update (\<lambda>_. Unlocked) s"
    by (auto elim!: table_mutex.within_returned simp: table_lock_update_def)
  have "fst s = ?l"
  proof (rule fold_run_invariant [OF s])
    fix i t u assume "i \<in> set [0..<NET_MAX_CLIENTS]" "fst t = ?l" "f i t = Some (Returned u)"
    with step [of i "snd t" u] rest show "fst u = ?l" by (cases t) simp
  qed simp
  with q rest(1) show ?thesis by (cases s) (simp add: table_lock_update_def)
qed

lemma serve_clients_program:
  assumes "at_rest p" "serve_clients os ready (p, w) = Some (Returned (q, w'))"
  shows "q = p"
proof (rule table_loop_program [OF assms(1) assms(2) [unfolded serve_clients_def]])
  fix i v u
  let ?l = "p\<lparr>np_lock := Locked\<rparr>" and ?c = "np_clients p ! i"
  assume i: "i < length (np_clients p)" "cl_lock ?c = Unlocked"
    and r: "serve_slot os ready i (?l, v) = Some (Returned u)"
  obtain n bytes v' where recv: "os_recv os (cl_socket ?c) (NET_BUFFER_SIZE - 1) 0 v = ((n, bytes), v')"
    by (metis prod.collapse)
  note recv = recv recv [unfolded One_nat_def]
  from r serve_slot_held [of i ?l os ready v] i show "fst u = ?l"
    by (auto simp: Let_def recv split: if_splits)
qed

lemma watch_program:
  assumes "at_rest p" "holding_table (fold_run watch_slot [0..<NET_MAX_CLIENTS]) (p, x) = Some (Returned (q, y))"
  shows "q = p"
proof (rule table_loop_program [OF assms])
  fix i v u
  assume "i < length (np_clients p)" "cl_lock (np_clients p ! i) = Unlocked"
    "watch_slot i (p\<lparr>np_lock := Locked\<rparr>, v) = Some (Returned u)"
  then show "fst u = p\<lparr>np_lock := Locked\<rparr>"
    by (cases v) (auto simp: watch_slot_free Let_def split: if_splits)
qed

lemma serve_clients_blocked:
  assumes "at_rest p" "in_range p" "(fd, addr) \<in> set (connections (np_clients p))"
    and "fd \<in> set ready" "\<And>w. fst (fst (os_recv os fd (NET_BUFFER_SIZE - 1) 0 w)) \<le> 0"
  shows "serve_clients os ready (p, w) = None"
proof -
  from assms(1) have rest: "np_lock p = Unlocked" "length (np_clients p) = NET_MAX_CLIENTS" "slots_free p"
    by (auto simp: at_rest_def)
  let ?l = "p\<lparr>np_lock := Locked\<rparr>"
  from assms(3) obtain i where i: "i < NET_MAX_CLIENTS" "cl_active (np_clients p ! i)" "cl_socket (np_clients p ! i) = fd"
    using rest(2) by (auto simp: connections_def in_set_conv_nth)
  have "fold_run (serve_slot os ready) [0..<NET_MAX_CLIENTS] (?l, w) = None"
  proof (rule fold_run_stuck [where P = "\<lambda>s. fst s = ?l" and y = i])
    fix j and s :: "'a network_program \<times> 'a" assume "j \<in> set [0..<NET_MAX_CLIENTS]" "fst s = ?l"
    then show "serve_slot os ready j s = None \<or> (\<exists>s'. serve_slot os ready j s = Some (Returned s') \<and> fst s' = ?l)"
      using serve_slot_outcome [of ?l j os ready "snd s"] rest assms(2) by (cases s) auto
  next
    fix s :: "'a network_program \<times> 'a" assume s: "fst s = ?l"
    then obtain u where u: "s = (?l, u)" by (cases s) auto
    obtain n bytes u' where recv: "os_recv os fd (NET_BUFFER_SIZE - 1) 0 u = ((n, bytes), u')"
      by (metis prod.collapse)
    note recv = recv recv [unfolded One_nat_def]
    with assms(5) [of u] have "n \<le> 0" by simp
    with in_range_slot [of p i] i rest assms(2,4) recv u show "serve_slot os ready i s = None"
      by (simp add: serve_slot_held Let_def)
  qed (use i in simp_all)
  then show ?thesis
    unfolding serve_clients_def by (intro holding_table_stops [OF rest(1)]) simp_all
qed

text \<open>What a new connection does: nothing, or one client more.\<close>

lemma accept_client_cases:
  assumes "at_rest p" "accept_client os l (p, w) = Some (Returned (continue, q, w'))"
  shows "q = p \<or> (\<exists>i addr. continue \<and> first_free i p \<and> 0 \<le> fst (fst (os_accept os l w)) \<and>
    q = admit i (fst (fst (os_accept os l w))) addr p)"
proof -
  obtain fd addr w1 where acc: "os_accept os l w = ((fd, addr), w1)" by (metis prod.collapse)
  obtain b w2 where nb: "set_nonblocking os fd w1 = (b, w2)" by (metis prod.collapse)
  from net_add_client_cases [OF assms(1), of fd addr] assms(2) show ?thesis
    by (auto simp: accept_client_def Let_def acc nb split: if_splits; blast)
qed

lemma accept_client_returns:
  assumes "at_rest p"
  shows "\<exists>continue q w'. accept_client os l (p, w) = Some (Returned (continue, q, w'))"
proof -
  obtain fd addr w1 where acc: "os_accept os l w = ((fd, addr), w1)" by (metis prod.collapse)
  obtain b w2 where nb: "set_nonblocking os fd w1 = (b, w2)" by (metis prod.collapse)
  from net_add_client_cases [OF assms(1), of fd addr] show ?thesis
    by (auto simp: accept_client_def Let_def acc nb)
qed

lemma react_cases:
  assumes "at_rest p" "react os l ready (p, w) = Some (Returned (q, w'))"
  shows "q = p \<or> (\<exists>i fd addr. first_free i p \<and> 0 \<le> fd \<and> q = admit i fd addr p)"
proof -
  from assms(2) obtain isset continue p2 w2 where
      acc: "(if isset then accept_client os l (p, w) else returns (True, p, w)) = Some (Returned (continue, p2, w2))"
    and rest: "(if continue then serve_clients os ready (p2, w2) else returns (p2, w2)) = Some (Returned (q, w'))"
    unfolding react_def need_Returned run_then_Returned by fastforce
  have p2: "p2 = p \<or> (\<exists>i fd addr. first_free i p \<and> 0 \<le> fd \<and> p2 = admit i fd addr p)"
  proof (cases isset)
    case True
    with acc have "accept_client os l (p, w) = Some (Returned (continue, p2, w2))" by simp
    from accept_client_cases [OF assms(1) this] show ?thesis by metis
  qed (use acc in simp)
  have "at_rest p2"
    using p2 assms(1) at_rest_admit by (auto simp: first_free_def)
  from rest have "q = p2"
    by (cases continue) (simp_all add: serve_clients_program [OF \<open>at_rest p2\<close>])
  with p2 show ?thesis by simp
qed

lemma turn_returned:
  assumes "at_rest p" "turn os l (p, w) = Some (Returned (q, w'))"
  obtains fds m n ready w1 where "os_select os (m + 1) fds w = ((n, ready), w1)"
    "n < 0 \<and> q = p \<and> w' = w1 \<or> \<not> n < 0 \<and> react os l ready (p, w1) = Some (Returned (q, w'))"
proof -
  from assms(2) obtain fds0 p1 fds m where
      put: "fd_put l [] = Some fds0" and
      watch: "holding_table (fold_run watch_slot [0..<NET_MAX_CLIENTS]) (p, fds0, l) = Some (Returned (p1, fds, m))"
    unfolding turn_def need_Returned run_then_Returned by fastforce
  from watch_program [OF assms(1) watch] have p1: "p1 = p" .
  obtain n ready w1 where sel: "os_select os (m + 1) fds w = ((n, ready), w1)" by (metis prod.collapse)
  from assms(2) have "(if n < 0 then returns (p, w1) else react os l ready (p, w1)) = Some (Returned (q, w'))"
    by (simp add: turn_def put watch p1 sel)
  then have "n < 0 \<and> q = p \<and> w' = w1 \<or> \<not> n < 0 \<and> react os l ready (p, w1) = Some (Returned (q, w'))"
    by (cases "n < 0") simp_all
  with sel that show ?thesis by blast
qed

lemma turn_cases:
  assumes "at_rest p" "turn os l (p, w) = Some (Returned (q, w'))"
  shows "q = p \<or> (\<exists>i fd addr. first_free i p \<and> 0 \<le> fd \<and> q = admit i fd addr p)"
  using assms by (rule turn_returned) (use react_cases [OF assms(1)] in metis)

lemma net_run_returned:
  assumes "net_run os (Some p) w = Some (Returned (r, w'))"
  obtains q where "r = Some q"
    "q = p \<and> w' = w \<or> (\<exists>l. 0 < l \<and> np_endpoints p \<noteq> None \<and> l = ep_socket_fd (hd (the (np_endpoints p))) \<and>
       turn os l (p, w) = Some (Returned (q, w')))"
  using assms that
  by (cases "np_endpoints p") (auto simp: net_run_def run_then_Returned not_le split: if_splits)

lemma net_run_cases:
  assumes "at_rest p" "net_run os (Some p) w = Some (Returned (r, w'))"
  obtains q where "r = Some q" "q = p \<or> (\<exists>i fd addr. first_free i p \<and> 0 \<le> fd \<and> q = admit i fd addr p)"
  using assms(2) by (rule net_run_returned) (use turn_cases [OF assms(1)] that in metis)

end
