(* ===== verification/Network_Descriptors.thy ===== *)
theory Network_Descriptors
  imports Network_Laws
begin

text \<open>
  Ports and descriptors. A system is \<open>honest\<close> if a socket it hands out is a descriptor that
  was not open, and the other calls open and close nothing but what \<open>close\<close> is given; this
  is what POSIX promises. Then the process has open what the program holds, and nothing else.
\<close>

section \<open>What the system promises\<close>

definition honest :: "'w os_sockets \<Rightarrow> ('w \<Rightarrow> int set) \<Rightarrow> bool" where
  "honest os opens \<longleftrightarrow>
     (\<forall>k w r w'. os_socket os k w = (r, w') \<longrightarrow>
        (if r < 0 then opens w' = opens w else r \<notin> opens w \<and> opens w' = insert r (opens w))) \<and>
     (\<forall>l w r a w'. os_accept os l w = ((r, a), w') \<longrightarrow>
        (if r < 0 then opens w' = opens w else r \<notin> opens w \<and> opens w' = insert r (opens w))) \<and>
     (\<forall>fd w. opens (os_close os fd w) = opens w - {fd}) \<and>
     (\<forall>fd a w. opens (snd (os_bind os fd a w)) = opens w) \<and>
     (\<forall>fd n w. opens (snd (os_listen os fd n w)) = opens w) \<and>
     (\<forall>fd opt w. opens (snd (os_setsockopt os fd opt w)) = opens w) \<and>
     (\<forall>fd w. opens (snd (os_getfl os fd w)) = opens w) \<and>
     (\<forall>fd fl w. opens (snd (os_setfl os fd fl w)) = opens w) \<and>
     (\<forall>m fds w. opens (snd (os_select os m fds w)) = opens w) \<and>
     (\<forall>fd n fl w. opens (snd (os_recv os fd n fl w)) = opens w) \<and>
     (\<forall>fd w. opens (os_shutdown os fd w) = opens w) \<and>
     (\<forall>t w. opens (os_usleep os t w) = opens w)"

lemma honest_socket:
  assumes "honest os opens" "os_socket os k w = (r, w')"
  shows "r < 0 \<Longrightarrow> opens w' = opens w" "0 \<le> r \<Longrightarrow> r \<notin> opens w" "0 \<le> r \<Longrightarrow> opens w' = insert r (opens w)"
  using assms unfolding honest_def by (meson linorder_not_le)+

lemma honest_accept:
  assumes "honest os opens" "os_accept os l w = ((r, a), w')"
  shows "r < 0 \<Longrightarrow> opens w' = opens w" "0 \<le> r \<Longrightarrow> r \<notin> opens w" "0 \<le> r \<Longrightarrow> opens w' = insert r (opens w)"
  using assms unfolding honest_def by (meson linorder_not_le)+

lemma honest_close: "honest os opens \<Longrightarrow> opens (os_close os fd w) = opens w - {fd}"
  by (simp add: honest_def)

lemma honest_keeps:
  assumes "honest os opens"
  shows "os_bind os fd a w = (n, w') \<Longrightarrow> opens w' = opens w"
    and "os_listen os fd k w = (n, w') \<Longrightarrow> opens w' = opens w"
    and "os_setsockopt os fd opt w = (n, w') \<Longrightarrow> opens w' = opens w"
    and "os_getfl os fd w = (n, w') \<Longrightarrow> opens w' = opens w"
    and "os_setfl os fd fl w = (n, w') \<Longrightarrow> opens w' = opens w"
    and "os_select os m fds w = (x, w') \<Longrightarrow> opens w' = opens w"
    and "os_recv os fd k flg w = (x', w') \<Longrightarrow> opens w' = opens w"
    and "opens (os_shutdown os fd w) = opens w"
    and "opens (os_usleep os t w) = opens w"
    and "opens (snd (os_setsockopt os fd opt w)) = opens w"
  using assms unfolding honest_def by (metis snd_conv)+

section \<open>Ports\<close>

lemma port_in_use_opens:
  assumes "honest os opens" "net_is_port_in_use os port w = (used, w')"
  shows "opens w' = opens w"
proof -
  obtain s w1 where s: "os_socket os SOCK_STREAM w = (s, w1)" by (metis prod.collapse)
  obtain r w2 where r: "os_bind os s (any_addr port) w1 = (r, w2)" by (metis prod.collapse)
  show ?thesis
    using assms(2) honest_socket [OF assms(1) s] honest_keeps(1) [OF assms(1) r] honest_close [OF assms(1)]
    by (cases "s < 0") (auto simp: net_is_port_in_use_def s r)
qed

lemma release_port_opens:
  assumes "honest os opens" "net_release_port os port w = (freed, w')"
  shows "opens w' = opens w"
proof -
  obtain s w1 where s: "os_socket os SOCK_STREAM w = (s, w1)" by (metis prod.collapse)
  obtain r w2 where r: "os_setsockopt os s SO_REUSEADDR w1 = (r, w2)" by (metis prod.collapse)
  obtain b w3 where b: "os_bind os s (any_addr port) w2 = (b, w3)" by (metis prod.collapse)
  show ?thesis
    using assms(2) honest_socket [OF assms(1) s] honest_keeps(1) [OF assms(1) b]
      honest_keeps(3) [OF assms(1) r] honest_keeps(9) [OF assms(1)] honest_close [OF assms(1)]
    by (cases "s < 0"; cases "r < 0") (auto simp: net_release_port_def s r b)
qed

text \<open>
  The probes of the ports from \<open>a\<close> on: the first unused one is found. Where the last port of
  the range is the greatest \<open>uint16_t\<close>, the counter never exceeds it: after it comes port 0.
\<close>

lemma find_available_port_unfold:
  "find_available_port os port end_port w =
     (if port \<le> end_port
      then if fst (net_is_port_in_use os port w)
           then find_available_port os (port + 1) end_port (snd (net_is_port_in_use os port w))
           else Some (port, snd (net_is_port_in_use os port w))
      else Some (0, w))"
  by (subst find_available_port.simps) (simp add: case_prod_beta)

text \<open>The world after \<open>k\<close> probes, and whether the next finds its port in use.\<close>

primrec probed :: "'w os_sockets \<Rightarrow> u16 \<Rightarrow> nat \<Rightarrow> 'w \<Rightarrow> 'w" where
  "probed os a 0 w = w"
| "probed os a (Suc k) w = snd (net_is_port_in_use os (a + of_nat k) (probed os a k w))"

definition occupied :: "'w os_sockets \<Rightarrow> u16 \<Rightarrow> nat \<Rightarrow> 'w \<Rightarrow> bool" where
  "occupied os a k w \<longleftrightarrow> fst (net_is_port_in_use os (a + of_nat k) (probed os a k w))"

lemma unat_offset:
  "unat (a :: u16) + k \<le> unat (e :: u16) \<Longrightarrow> unat (a + of_nat k) = unat a + k"
  using unsigned_less [of e, where ?'a = nat] by (simp add: unat_word_ariths unsigned_of_nat take_bit_nat_eq_self)

lemma offset_le: "unat (a :: u16) + k \<le> unat e \<or> e = - 1 \<Longrightarrow> a + of_nat k \<le> e"
proof (erule disjE)
  assume "unat a + k \<le> unat e"
  then show ?thesis by (simp add: word_le_nat_alt unat_offset)
qed simp

lemma find_from:
  assumes "unat a + k \<le> unat e + 1 \<or> e = - 1" "\<forall>j < k. occupied os a j w"
  shows "find_available_port os a e w = find_available_port os (a + of_nat k) e (probed os a k w)"
  using assms
proof (induction k)
  case (Suc k)
  then have "find_available_port os a e w = find_available_port os (a + of_nat k) e (probed os a k w)"
    by auto
  also from Suc.prems(1) have "a + of_nat k \<le> e" by (intro offset_le) auto
  with Suc.prems(2) have "find_available_port os (a + of_nat k) e (probed os a k w)
      = find_available_port os (a + of_nat (Suc k)) e (probed os a (Suc k) w)"
    by (subst find_available_port_unfold) (simp add: occupied_def ac_simps)
  finally show ?case .
qed simp

lemma find_first:
  assumes "unat a + k \<le> unat e \<or> e = - 1" "\<forall>j < k. occupied os a j w" "\<not> occupied os a k w"
  shows "find_available_port os a e w = Some (a + of_nat k, probed os a (Suc k) w)"
proof -
  from offset_le [OF assms(1)] have "find_available_port os (a + of_nat k) e (probed os a k w) = Some (a + of_nat k, probed os a (Suc k) w)"
    using assms(3) by (subst find_available_port_unfold) (simp add: occupied_def)
  moreover have "find_available_port os a e w = find_available_port os (a + of_nat k) e (probed os a k w)"
    using assms(1,2) by (intro find_from) auto
  ultimately show ?thesis by simp
qed

lemma find_nothing:
  assumes "unat a + k = unat e + 1" "unat e < 65535" "\<forall>j < k. occupied os a j w"
  shows "find_available_port os a e w = Some (0, probed os a k w)"
proof -
  have "unat (a + of_nat k) = unat e + 1"
    using assms(1,2) by (simp add: unat_word_ariths unsigned_of_nat take_bit_nat_eq_self)
  then have "\<not> a + of_nat k \<le> e" by (simp add: word_le_nat_alt)
  with assms find_from [of a k e os w] show ?thesis
    by (simp, subst find_available_port_unfold) simp
qed

lemma find_available_port_cases:
  assumes "a \<le> e" "unat e < 65535"
  obtains (found) k where "unat a + k \<le> unat e" "\<forall>j < k. occupied os a j w" "\<not> occupied os a k w"
      "find_available_port os a e w = Some (a + of_nat k, probed os a (Suc k) w)"
    | (none) k where "unat a + k = unat e + 1" "\<forall>j < k. occupied os a j w"
      "find_available_port os a e w = Some (0, probed os a k w)"
proof (cases "\<exists>k. unat a + k \<le> unat e \<and> \<not> occupied os a k w")
  case True
  then obtain k where k: "unat a + k \<le> unat e" "\<not> occupied os a k w"
      and least: "\<forall>j < k. \<not> (unat a + j \<le> unat e \<and> \<not> occupied os a j w)"
    by (subst (asm) exists_least_iff) auto
  from least k(1) have all: "\<forall>j < k. occupied os a j w" by auto
  show ?thesis by (rule found [OF k(1) all k(2) find_first [OF disjI1 [OF k(1)] all k(2)]])
next
  case False
  from assms(1) have "unat a + (unat e + 1 - unat a) = unat e + 1" by (simp add: word_le_nat_alt)
  moreover from False have "\<forall>j < unat e + 1 - unat a. occupied os a j w" by auto
  ultimately show ?thesis by (intro none find_nothing assms(2))
qed

text \<open>
  With the greatest port as the bound, the loop ends if some probe, of whatever port and
  however late, succeeds, and only then.
\<close>

lemma probed_shift: "probed os (a + 1) k (snd (net_is_port_in_use os a w)) = probed os a (Suc k) w"
  by (induction k) (simp_all add: ac_simps)

lemma occupied_shift: "occupied os (a + 1) k (snd (net_is_port_in_use os a w)) = occupied os a (Suc k) w"
  unfolding occupied_def probed_shift by (simp add: ac_simps)

lemma find_available_port_endless:
  assumes "\<forall>k. occupied os a k w"
  shows "find_available_port os a (- 1) w = None"
proof (rule ccontr)
  assume "find_available_port os a (- 1) w \<noteq> None"
  then obtain r where r: "find_available_port os a (- 1) w = Some r" by auto
  have "(- 1 :: u16) = - 1 \<longrightarrow> (\<forall>k. occupied os a k w) \<longrightarrow> False"
  proof (rule find_available_port.raw_induct [where P = "\<lambda>os a e w r. e = - 1 \<longrightarrow> (\<forall>k. occupied os a k w) \<longrightarrow> False", OF _ r])
    fix f os a e w r
    assume IH: "\<And>os a e w r. f os a e w = Some r \<Longrightarrow> e = - 1 \<longrightarrow> (\<forall>k. occupied os a k w) \<longrightarrow> False"
      and step: "(if a \<le> e then case net_is_port_in_use os a w of
              (used, w') \<Rightarrow> if \<not> used then Some (a, w') else f os (a + 1) e w'
            else Some (0, w)) = Some r"
    show "e = - 1 \<longrightarrow> (\<forall>k. occupied os a k w) \<longrightarrow> False"
    proof (intro impI)
      assume e: "e = - 1" and all: "\<forall>k. occupied os a k w"
      obtain used w' where probe: "net_is_port_in_use os a w = (used, w')" by (metis prod.collapse)
      from spec [OF all, of 0] have used by (simp add: occupied_def probe)
      with step have "f os (a + 1) e w' = Some r" by (simp add: e probe)
      then have "f os (a + 1) e (snd (net_is_port_in_use os a w)) = Some r" by (simp add: probe)
      with IH e have "\<not> (\<forall>k. occupied os (a + 1) k (snd (net_is_port_in_use os a w)))" by blast
      with all show False by (simp add: occupied_shift)
    qed
  qed
  with assms show False by simp
qed

lemma probed_opens: "honest os opens \<Longrightarrow> opens (probed os a k w) = opens w"
  by (induction k) (simp_all add: port_in_use_opens [of os opens, OF _ surjective_pairing])

lemma find_available_port_opens:
  assumes "honest os opens" "a \<le> e" "unat e < 65535" "find_available_port os a e w = Some (port, w')"
  shows "opens w' = opens w"
  using assms(2,3) by (rule find_available_port_cases [where os = os and w = w])
    (use assms(4) in \<open>auto simp: probed_opens [OF assms(1)] simp del: probed.simps\<close>)


section \<open>Endpoints\<close>

lemma serve_endpoint_opens:
  assumes h: "honest os opens" and s: "serve_endpoint os ep w = (ok, r, w')"
  shows "if ok then r = Some (ep\<lparr>ep_lock := Unlocked\<rparr>) \<and> opens w' = opens w
    else r = Some (ep\<lparr>ep_lock := Destroyed\<rparr>) \<and> opens w' = opens w - {ep_socket_fd ep}"
proof -
  obtain b w1 where b: "os_bind os (ep_socket_fd ep) (ep_addr ep) w = (b, w1)" by (metis prod.collapse)
  obtain n w2 where n: "os_listen os (ep_socket_fd ep) NET_MAX_CLIENTS w1 = (n, w2)" by (metis prod.collapse)
  from s honest_keeps(1) [OF h b] honest_keeps(2) [OF h n] honest_close [OF h] show ?thesis
    by (auto simp: serve_endpoint_def b n abandon_def split: if_splits)
qed

lemma open_endpoint_opens:
  assumes h: "honest os opens" and s: "open_endpoint os ep w = (ok, r, w')"
  shows "\<exists>fd addr. r = Some (ep\<lparr>ep_lock := if ok then Unlocked else Destroyed, ep_socket_fd := fd, ep_addr := addr\<rparr>) \<and>
    (ok \<longrightarrow> addr = any_addr (ep_port ep)) \<and>
    (if ok then 0 \<le> fd \<and> fd \<notin> opens w \<and> opens w' = insert fd (opens w) else opens w' = opens w)"
proof -
  let ?ep = "\<lambda>fd. ep\<lparr>ep_lock := Locked, ep_socket_fd := fd\<rparr>"
  obtain fd w1 where fd: "os_socket os (socket_kind_of (ep_protocol ep)) w = (fd, w1)" by (metis prod.collapse)
  obtain n w2 where n: "os_setsockopt os fd SO_REUSEADDR w1 = (n, w2)" by (metis prod.collapse)
  note sock = honest_socket [OF h fd]
  consider "fd < 0" | "0 \<le> fd" "n < 0" | "0 \<le> fd" "0 \<le> n" by linarith
  then show ?thesis
  proof cases
    case 1
    with s sock(1) have "\<not> ok \<and> r = Some (ep\<lparr>ep_lock := Destroyed, ep_socket_fd := fd, ep_addr := ep_addr ep\<rparr>) \<and> opens w' = opens w"
      by (auto simp: open_endpoint_def fd)
    then show ?thesis by (intro exI [of _ fd] exI [of _ "ep_addr ep"]) simp
  next
    case 2
    with s sock(2,3) honest_keeps(3) [OF h n] honest_close [OF h]
    have "\<not> ok \<and> r = Some (ep\<lparr>ep_lock := Destroyed, ep_socket_fd := fd, ep_addr := ep_addr ep\<rparr>) \<and> opens w' = opens w"
      by (auto simp: open_endpoint_def fd n abandon_def)
    then show ?thesis by (intro exI [of _ fd] exI [of _ "ep_addr ep"]) simp
  next
    case 3
    with s have "serve_endpoint os (?ep fd\<lparr>ep_addr := any_addr (ep_port ep)\<rparr>) w2 = (ok, r, w')"
      by (simp add: open_endpoint_def fd n)
    from serve_endpoint_opens [OF h this] 3(1) sock(2,3) honest_keeps(3) [OF h n]
    have "r = Some (ep\<lparr>ep_lock := if ok then Unlocked else Destroyed, ep_socket_fd := fd, ep_addr := any_addr (ep_port ep)\<rparr>)"
        "if ok then 0 \<le> fd \<and> fd \<notin> opens w \<and> opens w' = insert fd (opens w) else opens w' = opens w"
      by (cases ok; simp)+
    then show ?thesis by auto
  qed
qed

lemma net_init_opens:
  assumes h: "honest os opens" and s: "net_init os (Some ep) w = (ok, r, w')"
  shows "(\<not> ok \<and> r = Some ep \<and> opens w' = opens w) \<or>
    (\<exists>fd addr. r = Some (ep\<lparr>ep_lock := if ok then Unlocked else Destroyed, ep_socket_fd := fd, ep_addr := addr\<rparr>) \<and>
      (ok \<longrightarrow> addr = any_addr (ep_port ep)) \<and>
      (if ok then 0 \<le> fd \<and> fd \<notin> opens w \<and> opens w' = insert fd (opens w) else opens w' = opens w))"
proof -
  obtain used w1 where u: "net_is_port_in_use os (ep_port ep) w = (used, w1)" by (metis prod.collapse)
  obtain av w2 where a: "(if used then net_release_port os (ep_port ep) w1 else (True, w1)) = (av, w2)" by (metis prod.collapse)
  have same: "opens w2 = opens w"
    using a port_in_use_opens [OF h u] release_port_opens [OF h, of "ep_port ep" w1 av w2]
    by (auto split: if_splits)
  show ?thesis
  proof (cases av)
    case True
    with s have "open_endpoint os ep w2 = (ok, r, w')" by (simp add: net_init_def u a)
    from open_endpoint_opens [OF h this, unfolded same] show ?thesis by (rule disjI2)
  next
    case False
    with s same show ?thesis by (simp add: net_init_def u a)
  qed
qed

lemma net_close_result:
  assumes h: "honest os opens" and "ep_lock ep = Unlocked" and fd: "0 < ep_socket_fd ep"
  shows "\<exists>w'. net_close os (Some ep) w = returns (Some (ep\<lparr>ep_lock := Destroyed, ep_socket_fd := 0\<rparr>), w') \<and>
    opens w' = opens w - {ep_socket_fd ep}"
  using assms(2,3) honest_close [OF h] honest_keeps(8,10) [OF h]
  by (cases ep) (simp add: net_close_def acquire_def unlock_def destroy_mutex_def)


section \<open>What a program has open\<close>

definition quiet :: "('w \<Rightarrow> int set) \<Rightarrow> 'w network_handlers \<Rightarrow> bool" where
  "quiet opens h \<longleftrightarrow>
     (\<forall>f ep w. on_connect h = Some f \<or> on_disconnect h = Some f \<longrightarrow> opens (f ep w) = opens w) \<and>
     (\<forall>f ep pkt w. on_receive h = Some f \<longrightarrow> opens (f ep pkt w) = opens w)"

abbreviation sockets :: "'w network_program \<Rightarrow> int list" where
  "sockets p \<equiv> map fst (connections (np_clients p))"

definition holds :: "('w \<Rightarrow> int set) \<Rightarrow> int set \<Rightarrow> 'w network_program \<times> 'w \<Rightarrow> bool" where
  "holds opens base s \<longleftrightarrow>
     (let p = fst s; l = ep_socket_fd (hd (the (np_endpoints p)))
      in at_rest p \<and> np_count p = 1 \<and> quiet opens (np_handlers p) \<and>
         (\<exists>ep. np_endpoints p = Some [ep] \<and> ep_lock ep = Unlocked) \<and>
         (\<forall>c \<in> set (np_clients p). \<not> cl_active c \<longrightarrow> cl_socket c = 0) \<and>
         distinct (l # sockets p) \<and> (\<forall>fd \<in> set (l # sockets p). 0 \<le> fd \<and> fd \<notin> base) \<and>
         opens (snd s) = base \<union> set (l # sockets p))"

lemma accept_client_opens:
  assumes h: "honest os opens" and "at_rest p" and q: "quiet opens (np_handlers p)"
    and r: "accept_client os l (p, w) = Some (Returned (continue, p', w'))"
  shows "p' = p \<and> opens w' = opens w \<or>
    (\<exists>i fd addr. first_free i p \<and> 0 \<le> fd \<and> fd \<notin> opens w \<and> p' = admit i fd addr p \<and> opens w' = insert fd (opens w))"
proof -
  obtain fd addr w1 where acc: "os_accept os l w = ((fd, addr), w1)" by (metis prod.collapse)
  obtain b w2 where nb: "set_nonblocking os fd w1 = (b, w2)" by (metis prod.collapse)
  have w2: "opens w2 = opens w1"
    using nb honest_keeps(4,5) [OF h] by (fastforce simp: set_nonblocking_def split: prod.splits if_splits)
  have con: "opens (call_handler (on_connect (np_handlers p)) ep u) = opens u" for ep u
    using q by (auto simp: call_handler_def quiet_def split: option.splits)
  note a = honest_accept [OF h acc]
  consider "fd < 0" | "0 \<le> fd" "b < 0" | (full) "0 \<le> fd" "0 \<le> b" "net_add_client (Some p) fd addr = returns (Some p, False)"
    | (free) i where "0 \<le> fd" "0 \<le> b" "first_free i p" "net_add_client (Some p) fd addr = returns (Some (admit i fd addr p), True)"
    using net_add_client_cases [OF assms(2), of fd addr] by (meson linorder_not_le)
  then show ?thesis
  proof cases
    case 1
    with r a(1) show ?thesis by (simp add: accept_client_def acc)
  next
    case 2
    with r a(2,3) w2 honest_close [OF h] show ?thesis by (auto simp: accept_client_def acc nb)
  next
    case full
    with r a(2,3) w2 honest_close [OF h] show ?thesis by (auto simp: accept_client_def acc nb)
  next
    case free
    have np: "np_handlers (admit i fd addr p) = np_handlers p" by (simp add: admit_def)
    from free r a w2 con have "p' = admit i fd addr p \<and> opens w' = insert fd (opens w)"
      by (auto simp: accept_client_def acc nb np)
    with free a(2) show ?thesis by blast
  qed
qed

lemma serve_clients_opens:
  assumes h: "honest os opens" and rest: "at_rest p" and q: "quiet opens (np_handlers p)"
    and r: "serve_clients os ready (p, w) = Some (Returned (p', w'))"
  shows "opens w' = opens w"
proof -
  let ?l = "p\<lparr>np_lock := Locked\<rparr>"
  from rest have free: "slots_free p" "length (np_clients p) = NET_MAX_CLIENTS" by (auto simp: at_rest_def)
  from r obtain s where s: "fold_run (serve_slot os ready) [0..<NET_MAX_CLIENTS] (?l, w) = Some (Returned s)"
      and w': "w' = snd s"
    unfolding serve_clients_def
    by (auto elim!: table_mutex.within_returned simp: table_lock_update_def)
  have "fst s = ?l \<and> opens (snd s) = opens w"
  proof (rule fold_run_invariant [OF s])
    fix i t u assume i: "i \<in> set [0..<NET_MAX_CLIENTS]" and t: "fst t = ?l \<and> opens (snd t) = opens w"
      and u: "serve_slot os ready i t = Some (Returned u)"
    obtain v where v: "t = (?l, v)" using t by (cases t) auto
    let ?c = "np_clients p ! i"
    obtain n bytes v' where recv: "os_recv os (cl_socket ?c) (NET_BUFFER_SIZE - 1) 0 v = ((n, bytes), v')"
      by (metis prod.collapse)
    from honest_keeps(7) [OF h recv] have v': "opens v' = opens v" .
    have "opens (heard ?l c n bytes v') = opens v'" for c
      using q by (auto simp: heard_def quiet_def split: option.splits)
    moreover from i free have "i < length (np_clients ?l)" "cl_lock (np_clients ?l ! i) = Unlocked" by simp_all
    note serve_slot_held [OF this, of os ready v]
    ultimately show "fst u = ?l \<and> opens (snd u) = opens w"
      using u t v' by (auto simp: v Let_def recv recv [unfolded One_nat_def] split: if_splits)
  qed simp
  with w' show ?thesis by simp
qed

lemma set_connections_admit:
  "first_free i p \<Longrightarrow> set (sockets (admit i fd addr p)) = insert fd (set (sockets p))"
  using arg_cong [OF connections_admit, of i p set_mset] by (simp del: set_mset_mset flip: set_mset_mset)

lemma distinct_mset_eq: "mset xs = mset ys \<Longrightarrow> distinct xs = distinct ys"
  by (metis distinct_count_atmost_1 mset_eq_setD)

lemma distinct_connections_admit:
  assumes "first_free i p"
  shows "distinct (sockets (admit i fd addr p)) = (fd \<notin> set (sockets p) \<and> distinct (sockets p))"
proof -
  from arg_cong [OF connections_admit [OF assms, of fd addr], of "image_mset fst"]
  have "mset (sockets (admit i fd addr p)) = mset (fd # sockets p)" by simp
  from distinct_mset_eq [OF this] show ?thesis by simp
qed

lemma holds_admit:
  assumes "holds opens base (p, w)" "first_free i p" "0 \<le> fd" "fd \<notin> opens w" "opens w' = insert fd (opens w)"
  shows "holds opens base (admit i fd addr p, w')"
proof -
  have i: "i < length (np_clients p)" using assms(2) by (simp add: first_free_def)
  have keep: "np_endpoints (admit i fd addr p) = np_endpoints p" "np_count (admit i fd addr p) = np_count p"
      "np_handlers (admit i fd addr p) = np_handlers p" by (simp_all add: admit_def)
  have idle: "\<forall>c \<in> set (np_clients (admit i fd addr p)). \<not> cl_active c \<longrightarrow> cl_socket c = 0"
    if "\<forall>c \<in> set (np_clients p). \<not> cl_active c \<longrightarrow> cl_socket c = 0"
    using that by (auto simp: admit_def dest!: set_update_subset_insert [THEN subsetD])
  from assms(1,3-5) i idle show ?thesis
    by (auto simp: holds_def Let_def keep at_rest_admit set_connections_admit [OF assms(2)]
        distinct_connections_admit [OF assms(2)] simp del: set_map)
qed

lemma holds_world: "holds opens base (p, w) \<Longrightarrow> opens w' = opens w \<Longrightarrow> holds opens base (p, w')"
  by (simp add: holds_def Let_def)

lemma holds_rest: "holds opens base (p, w) \<Longrightarrow> at_rest p \<and> quiet opens (np_handlers p)"
  by (simp add: holds_def Let_def)

lemma react_holds:
  assumes h: "honest os opens" and hold: "holds opens base (p, w)"
    and r: "react os l ready (p, w) = Some (Returned (q, w'))"
  shows "holds opens base (q, w')"
proof -
  note rest = holds_rest [OF hold]
  from r obtain isset continue p2 w2 where
      acc: "(if isset then accept_client os l (p, w) else returns (True, p, w)) = Some (Returned (continue, p2, w2))"
    and out: "(if continue then serve_clients os ready (p2, w2) else returns (p2, w2)) = Some (Returned (q, w'))"
    unfolding react_def need_Returned run_then_Returned by fastforce
  have p2: "holds opens base (p2, w2)"
  proof (cases isset)
    case True
    with acc have acc: "accept_client os l (p, w) = Some (Returned (continue, p2, w2))" by simp
    from rest have "at_rest p" "quiet opens (np_handlers p)" by simp_all
    from accept_client_opens [OF h this acc] show ?thesis
    proof (elim disjE exE conjE)
      assume "p2 = p" "opens w2 = opens w"
      then show ?thesis using holds_world [OF hold] by simp
    next
      fix i fd addr
      assume "first_free i p" "0 \<le> fd" "fd \<notin> opens w" "opens w2 = insert fd (opens w)" "p2 = admit i fd addr p"
      then show ?thesis using holds_admit [OF hold] by simp
    qed
  qed (use acc hold in simp)
  note rest2 = holds_rest [OF p2]
  show ?thesis
  proof (cases continue)
    case True
    with out have s: "serve_clients os ready (p2, w2) = Some (Returned (q, w'))" by simp
    with serve_clients_program [of p2 os ready w2 q w'] rest2 have "q = p2" by simp
    with serve_clients_opens [OF h, of p2 ready w2 q w'] rest2 s holds_world [OF p2] show ?thesis by simp
  qed (use out p2 in simp)
qed

lemma net_run_holds:
  assumes h: "honest os opens" and hold: "holds opens base (p, w)"
    and r: "net_run os (Some p) w = Some (Returned (r, w'))"
  shows "\<exists>q. r = Some q \<and> holds opens base (q, w') \<and> np_endpoints q = np_endpoints p"
  using r
proof (rule net_run_returned)
  fix q assume q: "r = Some q"
    "q = p \<and> w' = w \<or> (\<exists>l. 0 < l \<and> np_endpoints p \<noteq> None \<and> l = ep_socket_fd (hd (the (np_endpoints p))) \<and>
       turn os l (p, w) = Some (Returned (q, w')))"
  have rest: "at_rest p" using holds_rest [OF hold] by simp
  have ends: "np_endpoints q = np_endpoints p"
    using r
  proof (rule net_run_cases [OF rest])
    fix q' assume "r = Some q'" "q' = p \<or> (\<exists>i fd addr. first_free i p \<and> 0 \<le> fd \<and> q' = admit i fd addr p)"
    with q(1) show ?thesis by (auto simp: admit_def)
  qed
  from q(2) have "holds opens base (q, w')"
  proof (elim disjE exE conjE)
    fix l assume "turn os l (p, w) = Some (Returned (q, w'))"
    then show ?thesis
    proof (rule turn_returned [OF rest])
      fix fds m n ready w1
      assume s: "os_select os (m + 1) fds w = ((n, ready), w1)"
        and out: "n < 0 \<and> q = p \<and> w' = w1 \<or> \<not> n < 0 \<and> react os l ready (p, w1) = Some (Returned (q, w'))"
      have "holds opens base (p, w1)" by (rule holds_world [OF hold honest_keeps(6) [OF h s]])
      with out react_holds [OF h this] show ?thesis by auto
    qed
  qed (use hold in simp)
  with q(1) ends show ?thesis by simp
qed


section \<open>Start and end of a program\<close>

definition server_endpoint :: "u16 \<Rightarrow> network_endpoint" where
  "server_endpoint port = zero_endpoint\<lparr>ep_port := port, ep_protocol := NET_TCP,
     ep_role := NET_SERVER, ep_address := server_address\<rparr>"

lemma zero_clients: "np_clients zero_program = replicate NET_MAX_CLIENTS net_init_client_state"
  by (simp add: zero_program_def zero_client_def net_init_client_state_def)

text \<open>
  Starting returns: with one listening descriptor more and an empty table, or with none
  more, no endpoint, and the flag \<open>running\<close> set all the same.
\<close>

lemma net_init_program_cases:
  assumes h: "honest os opens"
  obtains (ok) k fd w' where "memory" "k \<le> 100" "\<forall>j < k. occupied os 8080 j w" "\<not> occupied os 8080 k w"
      "0 \<le> fd" "fd \<notin> opens w" "opens w' = insert fd (opens w)"
      "net_init_program os memory (Some p) w = returns (Some (zero_program\<lparr>np_running := True,
         np_endpoints := Some [(server_endpoint (8080 + of_nat k))
           \<lparr>ep_lock := Unlocked, ep_socket_fd := fd, ep_addr := any_addr (8080 + of_nat k)\<rparr>], np_count := 1\<rparr>), w')"
    | (failed) w' where "opens w' = opens w"
      "net_init_program os memory (Some p) w = returns (Some (zero_program\<lparr>np_running := True\<rparr>), w')"
proof (cases memory)
  case False
  then show ?thesis
    by (intro failed [of w]) (simp_all add: net_init_program_def zero_program_def)
next
  case True
  have bounds: "(8080 :: u16) \<le> 8180" "unat (8180 :: u16) < 65535" by simp_all
  show ?thesis
  proof (rule find_available_port_cases [OF bounds, of os w])
    fix k assume k: "unat (8080 :: u16) + k = unat (8180 :: u16) + 1"
      "find_available_port os 8080 8180 w = Some (0, probed os 8080 k w)"
    then show ?thesis using True
      by (intro failed [OF probed_opens [OF h]]) (simp add: net_init_program_def zero_program_def)
  next
    fix k assume k: "unat (8080 :: u16) + k \<le> unat (8180 :: u16)" "\<forall>j < k. occupied os 8080 j w" "\<not> occupied os 8080 k w"
      and find: "find_available_port os 8080 8180 w = Some (8080 + of_nat k, probed os 8080 (Suc k) w)"
    let ?port = "8080 + of_nat k :: u16" and ?w = "probed os 8080 (Suc k) w"
    from unat_offset [OF k(1)] have pos: "?port \<noteq> 0" by (auto simp: word_unat_eq_iff simp del: of_nat_add)
    have w: "opens ?w = opens w" by (rule probed_opens [OF h])
    obtain ok r w' where i: "net_init os (Some (server_endpoint ?port)) ?w = (ok, r, w')" by (metis prod.collapse)
    have run: "net_init_program os memory (Some p) w =
        (case (ok, r, w') of (True, Some ep, w) \<Rightarrow>
             returns (Some (zero_program\<lparr>np_running := True, np_endpoints := Some [ep], np_count := 1\<rparr>), w)
         | (_, _, w) \<Rightarrow> returns (Some (zero_program\<lparr>np_running := True\<rparr>), w))"
      using True pos find i
      by (simp add: net_init_program_def server_endpoint_def Let_def zero_program_def
          zero_client_def net_init_client_state_def del: probed.simps split: bool.splits option.splits)
    show ?thesis
    proof (cases ok)
      case False
      with net_init_opens [OF h i] w have "opens w' = opens w" by auto
      from failed [OF this] run False show ?thesis by simp
    next
      case ok: True
      with net_init_opens [OF h i] w obtain fd where
          r: "r = Some ((server_endpoint ?port)\<lparr>ep_lock := Unlocked, ep_socket_fd := fd, ep_addr := any_addr ?port\<rparr>)"
          "0 \<le> fd" "fd \<notin> opens w" "opens w' = insert fd (opens w)"
        by (auto simp: server_endpoint_def)
      from k(1) have "k \<le> 100" by simp
      from that(1) [OF True this k(2,3) r(2-4)] run ok r(1) show ?thesis by simp
    qed
  qed
qed

lemma at_rest_zero: "at_rest (zero_program\<lparr>np_running := b, np_endpoints := e, np_count := n, np_handlers := h\<rparr>)"
  by (simp add: at_rest_def zero_program_def zero_client_def)

text \<open>A slot is closed whatever it holds.\<close>

definition cleaned :: "client_state \<Rightarrow> client_state" where
  "cleaned c = c\<lparr>cl_socket := if cl_socket c > 0 then 0 else cl_socket c, cl_active := False, cl_lock := Destroyed\<rparr>"

lemma clean_slot_free:
  assumes h: "honest os opens" and "i < length (np_clients p)" "cl_lock (np_clients p ! i) = Unlocked"
  shows "\<exists>w'. clean_slot os i (p, w) = returns (set_slot i (cleaned (np_clients p ! i)) (p, w')) \<and>
    opens w' = opens w - {fd. fd = cl_socket (np_clients p ! i) \<and> 0 < fd}"
  using assms(2,3) honest_close [OF h]
  by (cases "np_clients p ! i")
     (auto simp: clean_slot_def slot_def set_slot_def net_cleanup_client_state_def acquire_def unlock_def
        destroy_mutex_def cleaned_def Let_def)

lemma clean_slots:
  assumes h: "honest os opens" and "slots_free p" "n \<le> length (np_clients p)"
  shows "\<exists>w'. fold_run (clean_slot os) [0..<n] (p, w) = returns
      (p\<lparr>np_clients := map cleaned (take n (np_clients p)) @ drop n (np_clients p)\<rparr>, w') \<and>
    opens w' = opens w - {fd \<in> cl_socket ` set (take n (np_clients p)). 0 < fd}"
  using assms(2,3)
proof (induction n)
  case (Suc n)
  let ?cs = "np_clients p"
  let ?ds = "map cleaned (take n ?cs) @ drop n ?cs"
  from Suc obtain u where u: "fold_run (clean_slot os) [0..<n] (p, w) = returns (p\<lparr>np_clients := ?ds\<rparr>, u)"
      "opens u = opens w - {fd \<in> cl_socket ` set (take n ?cs). 0 < fd}" by auto
  from Suc.prems have n: "n < length ?cs" by simp
  then have nth: "?ds ! n = ?cs ! n" "n < length ?ds" by (simp_all add: nth_append)
  have upd: "?ds[n := cleaned (?cs ! n)] = map cleaned (take (Suc n) ?cs) @ drop (Suc n) ?cs"
    using n by (simp add: list_update_append take_Suc_conv_app_nth Cons_nth_drop_Suc [symmetric])
  from Suc.prems(1) n have "cl_lock (?cs ! n) = Unlocked" by simp
  with clean_slot_free [OF h, of n "p\<lparr>np_clients := ?ds\<rparr>" u] nth n obtain w' where
      w': "clean_slot os n (p\<lparr>np_clients := ?ds\<rparr>, u) = returns (p\<lparr>np_clients := ?ds[n := cleaned (?cs ! n)]\<rparr>, w')"
        "opens w' = opens u - {fd. fd = cl_socket (?cs ! n) \<and> 0 < fd}"
    by (auto simp: set_slot_def)
  from u w' upd n show ?case by (auto simp: fold_run_append take_Suc_conv_app_nth)
qed simp

lemma net_cleanup_program_result:
  assumes h: "honest os opens" and hold: "holds opens base (p, w)" and "0 \<in> base"
  shows "\<exists>w'. net_cleanup_program os (Some p) w = returns
      (Some (p\<lparr>np_running := False, np_endpoints := None, np_count := 0,
         np_clients := map cleaned (np_clients p), np_lock := Destroyed\<rparr>), w') \<and> opens w' = base"
proof -
  from hold obtain ep where ep: "np_endpoints p = Some [ep]" "np_count p = 1" "ep_lock ep = Unlocked"
      and rest: "np_lock p = Unlocked" "length (np_clients p) = NET_MAX_CLIENTS" "slots_free p"
      and idle: "\<forall>c \<in> set (np_clients p). \<not> cl_active c \<longrightarrow> cl_socket c = 0"
      and fds: "\<forall>fd \<in> set (ep_socket_fd ep # sockets p). 0 \<le> fd \<and> fd \<notin> base"
      and op: "opens w = base \<union> set (ep_socket_fd ep # sockets p)"
    by (auto simp: holds_def Let_def at_rest_def)
  from fds assms(3) have pos: "\<forall>fd \<in> set (ep_socket_fd ep # sockets p). 0 < fd"
    by (metis order_le_less)
  from net_close_result [OF h ep(3), of w] pos obtain w1 where
      w1: "net_close os (Some ep) w = returns (Some (ep\<lparr>ep_lock := Destroyed, ep_socket_fd := 0\<rparr>), w1)"
        "opens w1 = opens w - {ep_socket_fd ep}" by auto
  let ?p = "p\<lparr>np_lock := Locked, np_running := False, np_endpoints := None, np_count := 0\<rparr>"
  from clean_slots [OF h, of ?p NET_MAX_CLIENTS w1] rest obtain w2 where
      w2: "fold_run (clean_slot os) [0..<NET_MAX_CLIENTS] (?p, w1) = returns (?p\<lparr>np_clients := map cleaned (np_clients p)\<rparr>, w2)"
        "opens w2 = opens w1 - {fd \<in> cl_socket ` set (np_clients p). 0 < fd}" by auto
  have "{fd \<in> cl_socket ` set (np_clients p). 0 < fd} = set (sockets p)"
    using idle pos by (fastforce simp: connections_def)
  with w2(2) w1(2) op fds have "opens w2 = base" by auto
  moreover have "net_cleanup_program os (Some p) w = returns
      (Some (p\<lparr>np_running := False, np_endpoints := None, np_count := 0,
         np_clients := map cleaned (np_clients p), np_lock := Destroyed\<rparr>), w2)"
    using rest(1) ep w1(1) w2(1)
    by (cases p) (simp add: net_cleanup_program_def within_def acquire_def unlock_def destroy_mutex_def
        table_lock_def table_lock_update_def Let_def numeral_eq_Suc)
  ultimately show ?thesis by blast
qed

end
