(* ===== verification/Network_Session.thy ===== *)
theory Network_Session
  imports Network_Descriptors
begin

text \<open>
  Sequences of calls on a network program, their invariants as instances of
  \<open>run_invariant\<close>, and the turn that does not return. A call that blocks or is undefined is
  the last of its sequence.
\<close>

section \<open>Calls\<close>

datatype network_call = Add int sock_addr | Remove int | Turn

definition network_step ::
  "'w os_sockets \<Rightarrow> network_call \<Rightarrow> 'w network_program \<times> 'w \<Rightarrow> ('w network_program \<times> 'w) run" where
  "network_step os e s =
     (case e of
        Add fd addr \<Rightarrow>
          run_then (net_add_client (Some (fst s)) fd addr) (\<lambda>(q, added). need q (\<lambda>q. returns (q, snd s)))
      | Remove fd \<Rightarrow>
          run_then (net_remove_client os (Some (fst s)) fd (snd s)) (\<lambda>(q, w). need q (\<lambda>q. returns (q, w)))
      | Turn \<Rightarrow>
          run_then (net_run os (Some (fst s)) (snd s)) (\<lambda>(q, w). need q (\<lambda>q. returns (q, w))))"

lemma network_step_Turn:
  "network_step os Turn s = Some (Returned (q, w')) \<longleftrightarrow>
   net_run os (Some (fst s)) (snd s) = Some (Returned (Some q, w'))"
  by (auto simp: network_step_def run_then_Returned need_Returned)

lemma network_step_table:
  assumes "at_rest (fst s)"
  shows "\<exists>q. network_step os (Add fd addr) s = Some (Returned (q, snd s)) \<and> at_rest q"
    and "\<exists>q w'. network_step os (Remove fd) s = Some (Returned (q, w')) \<and> at_rest q"
proof -
  from net_add_client_cases [OF assms, of fd addr] assms
  show "\<exists>q. network_step os (Add fd addr) s = Some (Returned (q, snd s)) \<and> at_rest q"
    by (cases s) (auto simp: network_step_def first_free_def at_rest_admit)
  from net_remove_client_result [OF assms, of os fd "snd s"] at_rest_cleared [OF assms, of fd]
  show "\<exists>q w'. network_step os (Remove fd) s = Some (Returned (q, w')) \<and> at_rest q"
    by (simp add: network_step_def)
qed

lemma network_step_at_rest:
  assumes "at_rest (fst s)" "network_step os e s = Some (Returned s')"
  shows "at_rest (fst s')"
proof (cases e)
  case Turn
  with assms(2) have "net_run os (Some (fst s)) (snd s) = Some (Returned (Some (fst s'), snd s'))"
    by (metis network_step_Turn prod.collapse)
  then show ?thesis
    by (rule net_run_cases [OF assms(1)]) (use assms(1) in \<open>auto simp: first_free_def intro: at_rest_admit\<close>)
next
  case (Add fd addr)
  with network_step_table(1) [OF assms(1), of os fd addr] assms(2) show ?thesis by auto
next
  case (Remove fd)
  with network_step_table(2) [OF assms(1), of os fd] assms(2) show ?thesis by auto
qed

interpretation network: run_invariant "network_step os" "\<lambda>s. at_rest (fst s)" for os
  by unfold_locales (rule network_step_at_rest)


section \<open>Turns that end\<close>

text \<open>
  Under the mutex of the table no slot makes the thread wait, except for a client that is
  gone. So while every \<open>recv\<close> delivers something, a turn ends.
\<close>

lemma within_ends:
  assumes "get s \<noteq> Locked" "body (upd (\<lambda>_. Locked) s) \<noteq> None"
  shows "within get upd body s \<noteq> None"
  using assms
  by (auto simp: within_def acquire_def unlock_def run_then_def split: mutex.splits option.splits outcome.splits)

lemma table_loop_ends:
  assumes rest: "at_rest p"
    and ends: "\<And>i z. i < length (np_clients p) \<Longrightarrow> cl_lock (np_clients p ! i) = Unlocked \<Longrightarrow>
      f i (p\<lparr>np_lock := Locked\<rparr>, z) \<noteq> None"
    and keeps: "\<And>i z s. i < length (np_clients p) \<Longrightarrow> cl_lock (np_clients p ! i) = Unlocked \<Longrightarrow>
      f i (p\<lparr>np_lock := Locked\<rparr>, z) = Some (Returned s) \<Longrightarrow> fst s = p\<lparr>np_lock := Locked\<rparr>"
  shows "holding_table (fold_run f [0..<NET_MAX_CLIENTS]) (p, x) \<noteq> None"
proof (rule within_ends)
  let ?l = "p\<lparr>np_lock := Locked\<rparr>"
  have slot: "i < length (np_clients p)" "cl_lock (np_clients p ! i) = Unlocked" if "i \<in> set [0..<NET_MAX_CLIENTS]" for i
    using rest that by (auto simp: at_rest_def)
  show "table_lock (p, x) \<noteq> Locked" using rest by (simp add: table_lock_def at_rest_def)
  have "fold_run f [0..<NET_MAX_CLIENTS] (?l, x) \<noteq> None"
  proof (rule fold_run_not_None [where P = "\<lambda>s. fst s = ?l"])
    fix i and s :: "'a network_program \<times> 'b" assume "i \<in> set [0..<NET_MAX_CLIENTS]" "fst s = ?l"
    then show "f i s \<noteq> None" using ends [OF slot, of i "snd s"] by (metis prod.collapse)
  next
    fix i and s s' :: "'a network_program \<times> 'b"
    assume "i \<in> set [0..<NET_MAX_CLIENTS]" "fst s = ?l" "f i s = Some (Returned s')"
    then show "fst s' = ?l" using keeps [OF slot, of i "snd s" s'] by (metis prod.collapse)
  qed simp
  then show "fold_run f [0..<NET_MAX_CLIENTS] (table_lock_update (\<lambda>_. Locked) (p, x)) \<noteq> None"
    by (simp add: table_lock_update_def)
qed

lemma watch_ends: "at_rest p \<Longrightarrow> holding_table (fold_run watch_slot [0..<NET_MAX_CLIENTS]) (p, x) \<noteq> None"
  by (rule table_loop_ends) (cases x; auto simp: watch_slot_free Let_def split: if_splits)+

definition all_deliver :: "'w os_sockets \<Rightarrow> bool" where
  "all_deliver os \<longleftrightarrow> (\<forall>fd n fl w. 0 < fst (fst (os_recv os fd n fl w)))"

lemma serve_clients_ends:
  assumes "at_rest p" "all_deliver os"
  shows "serve_clients os ready (p, w) \<noteq> None"
  unfolding serve_clients_def
proof (rule table_loop_ends [OF assms(1)])
  fix i v
  let ?l = "p\<lparr>np_lock := Locked\<rparr>" and ?c = "np_clients p ! i"
  assume i: "i < length (np_clients p)" "cl_lock ?c = Unlocked"
  obtain n bytes v' where recv: "os_recv os (cl_socket ?c) (NET_BUFFER_SIZE - 1) 0 v = ((n, bytes), v')"
    by (metis prod.collapse)
  from assms(2) have "0 < fst (fst (os_recv os (cl_socket ?c) (NET_BUFFER_SIZE - 1) 0 v))"
    unfolding all_deliver_def by blast
  with recv have "0 < n" by simp
  note recv = recv recv [unfolded One_nat_def] this
  show "serve_slot os ready i (?l, v) \<noteq> None"
    using serve_slot_held [of i ?l os ready v] i recv by (simp add: Let_def)
  fix u assume "serve_slot os ready i (?l, v) = Some (Returned u)"
  with serve_slot_held [of i ?l os ready v] i recv show "fst u = ?l"
    by (auto simp: Let_def split: if_splits)
qed

lemma react_ends:
  assumes "at_rest p" "all_deliver os"
  shows "react os l ready (p, w) \<noteq> None"
proof -
  from accept_client_returns [OF assms(1), of os l w] obtain continue q w' where
    acc: "accept_client os l (p, w) = Some (Returned (continue, q, w'))" by blast
  from accept_client_cases [OF assms(1) acc] assms(1) have "at_rest q"
    by (auto simp: first_free_def intro: at_rest_admit)
  with serve_clients_ends [OF _ assms(2)] assms(1) acc show ?thesis
    by (cases "fd_isset l ready") (auto simp: react_def)
qed

lemma network_step_ends:
  assumes "at_rest (fst s)" "all_deliver os"
  shows "network_step os e s \<noteq> None"
proof (cases e)
  case Turn
  have turn: "turn os l s \<noteq> None" for l
  proof (cases "fd_put l []")
    case (Some fds)
    from watch_ends [OF assms(1), of "(fds, l)"] obtain r where
      r: "holding_table (fold_run watch_slot [0..<NET_MAX_CLIENTS]) (fst s, fds, l) = Some r" by auto
    show ?thesis
    proof (cases r)
      case (Returned t)
      obtain q gds m where t: "t = (q, gds, m)" by (metis prod_cases3)
      obtain n ready w1 where sel: "os_select os (m + 1) gds (snd s) = ((n, ready), w1)" by (metis prod.collapse)
      from watch_program [OF assms(1)] r Returned t have "q = fst s" by blast
      with react_ends [OF assms, of l ready w1] Some r Returned t sel show ?thesis by (simp add: turn_def)
    qed (use Some r in \<open>simp add: turn_def\<close>)
  qed (simp add: turn_def)
  have "net_run os (Some (fst s)) (snd s) \<noteq> None"
    by (auto simp: net_run_def run_then_def turn simp del: not_None_eq split: option.splits outcome.splits)
  then show ?thesis
    using Turn by (auto simp: network_step_def run_then_def need_def split: option.splits outcome.splits)
next
  case (Add fd addr)
  with network_step_table(1) [OF assms(1), of os fd addr] show ?thesis by auto
next
  case (Remove fd)
  with network_step_table(2) [OF assms(1), of os fd] show ?thesis by auto
qed


section \<open>A turn that does not return\<close>

text \<open>
  The peer of \<open>fd\<close> has closed the connection: \<open>select\<close> always reports the descriptor, and
  nothing is ever received from it.
\<close>

definition hung_up :: "'w os_sockets \<Rightarrow> int \<Rightarrow> bool" where
  "hung_up os fd \<longleftrightarrow>
     (\<forall>m fds w. fd \<in> set fds \<longrightarrow>
        0 < fst (fst (os_select os m fds w)) \<and> fd \<in> set (snd (fst (os_select os m fds w)))) \<and>
     (\<forall>n flags w. fst (fst (os_recv os fd n flags w)) \<le> 0)"

lemma accept_client_continues:
  assumes "at_rest p" "\<And>fd w. 0 \<le> fst (set_nonblocking os fd w)"
  shows "\<exists>q w'. accept_client os l (p, w) = Some (Returned (True, q, w')) \<and>
    (q = p \<or> (\<exists>i addr. first_free i p \<and> 0 \<le> fst (fst (os_accept os l w)) \<and>
      q = admit i (fst (fst (os_accept os l w))) addr p))"
proof -
  obtain fd addr w1 where acc: "os_accept os l w = ((fd, addr), w1)" by (metis prod.collapse)
  obtain b w2 where nb: "set_nonblocking os fd w1 = (b, w2)" by (metis prod.collapse)
  with assms(2) [of fd w1] have b: "0 \<le> b" by simp
  consider "fd < 0" | (full) "0 \<le> fd" "net_add_client (Some p) fd addr = returns (Some p, False)"
    | (free) i where "0 \<le> fd" "first_free i p" "net_add_client (Some p) fd addr = returns (Some (admit i fd addr p), True)"
    using net_add_client_cases [OF assms(1), of fd addr] by (meson linorder_not_le)
  then show ?thesis
  proof cases
    case free
    then have "accept_client os l (p, w) = Some (Returned (True, admit i fd addr p,
        call_handler (on_connect (np_handlers (admit i fd addr p))) (client_endpoint (admit i fd addr p) fd addr) w2))"
      using b by (simp add: accept_client_def acc nb)
    with free acc show ?thesis by auto
  qed (use b in \<open>simp_all add: accept_client_def acc nb\<close>)
qed

lemma in_range_admit:
  assumes "in_range p" "first_free i p" "0 \<le> fd" "fd < FD_SETSIZE"
  shows "in_range (admit i fd addr p)"
proof -
  from arg_cong [OF connections_admit [OF assms(2), of fd addr], of set_mset]
  have "set (connections (np_clients (admit i fd addr p))) = insert (fd, addr) (set (connections (np_clients p)))" by simp
  with assms(1,3,4) show ?thesis by (auto simp: in_range_def)
qed

lemma react_blocked:
  assumes rest: "at_rest p" and range: "in_range p" "0 < l" "l < FD_SETSIZE"
    and fd: "(fd, addr) \<in> set (connections (np_clients p))" "fd \<in> set ready" "hung_up os fd"
    and acc: "\<And>w. fst (fst (os_accept os l w)) < FD_SETSIZE" "\<And>fd w. 0 \<le> fst (set_nonblocking os fd w)"
  shows "react os l ready (p, w) = None"
proof -
  have stuck: "serve_clients os ready (q, w') = None"
    if "at_rest q" "in_range q" "(fd, addr) \<in> set (connections (np_clients q))" for q w'
    using that fd(2,3) by (intro serve_clients_blocked) (auto simp: hung_up_def)
  show ?thesis
  proof (cases "l \<in> set ready")
    case False
    with stuck [OF rest range(1) fd(1)] range show ?thesis by (simp add: react_def fd_isset_def)
  next
    case True
    from accept_client_continues [OF rest acc(2), of l w] obtain q w' where
        q: "accept_client os l (p, w) = Some (Returned (True, q, w'))"
          "q = p \<or> (\<exists>i addr. first_free i p \<and> 0 \<le> fst (fst (os_accept os l w)) \<and>
             q = admit i (fst (fst (os_accept os l w))) addr p)" by auto
    from q(2) have "serve_clients os ready (q, w') = None"
    proof (elim disjE exE conjE)
      assume "q = p" with stuck [OF rest range(1) fd(1)] show ?thesis by simp
    next
      fix i a assume i: "first_free i p" and pos: "0 \<le> fst (fst (os_accept os l w))"
        and qa: "q = admit i (fst (fst (os_accept os l w))) a p"
      from arg_cong [OF connections_admit [OF i], of set_mset "fst (fst (os_accept os l w))" a] fd(1)
      have "(fd, addr) \<in> set (connections (np_clients q))" by (simp add: qa)
      moreover have "at_rest q" using i rest by (simp add: qa at_rest_admit first_free_def)
      moreover have "in_range q" unfolding qa by (rule in_range_admit [OF range(1) i pos acc(1)])
      ultimately show ?thesis using stuck by simp
    qed
    with True q(1) range show ?thesis by (simp add: react_def fd_isset_def)
  qed
qed

lemma turn_blocked:
  assumes rest: "at_rest p" and range: "in_range p" "0 < l" "l < FD_SETSIZE"
    and fd: "(fd, addr) \<in> set (connections (np_clients p))" "0 < fd" "hung_up os fd"
    and acc: "\<And>w. fst (fst (os_accept os l w)) < FD_SETSIZE" "\<And>fd w. 0 \<le> fst (set_nonblocking os fd w)"
  shows "turn os l (p, w) = None"
proof (rule watch_table [OF rest range(1), of "[l]" l])
  fix gds m'
  assume watch: "holding_table (fold_run watch_slot [0..<NET_MAX_CLIENTS]) (p, [l], l) = Some (Returned (p, gds, m'))"
    and all: "\<forall>c \<in> set (np_clients p). cl_active c \<and> 0 < cl_socket c \<longrightarrow> cl_socket c \<in> set gds"
  from all fd(1,2) have "fd \<in> set gds" by (auto simp: connections_def)
  with fd(3) have up: "0 < fst (fst (os_select os (m' + 1) gds w))" "fd \<in> set (snd (fst (os_select os (m' + 1) gds w)))"
    by (auto simp: hung_up_def)
  obtain n ready w1 where sel: "os_select os (m' + 1) gds w = ((n, ready), w1)" by (metis prod.collapse)
  from up have "0 < n" "fd \<in> set ready" by (simp_all add: sel)
  with react_blocked [OF rest range fd(1) _ fd(3) acc, of ready w1] watch sel range
  show ?thesis by (simp add: turn_def fd_put_def)
qed


section \<open>From start to end\<close>

lemma started_holds:
  assumes "quiet opens h" "0 \<le> fd" "fd \<notin> base" "opens w = insert fd base"
  shows "holds opens base (zero_program\<lparr>np_running := True, np_endpoints := Some [ep\<lparr>ep_lock := Unlocked,
    ep_socket_fd := fd, ep_addr := a\<rparr>], np_count := 1, np_handlers := h\<rparr>, w)"
  using assms
proof -
  have "connections (replicate NET_MAX_CLIENTS zero_client) = []"
    by (auto simp: connections_def zero_client_def filter_empty_conv)
  with assms show ?thesis
    by (auto simp: holds_def Let_def at_rest_def zero_program_def) (simp_all add: zero_client_def)
qed

interpretation turning: run_invariant "\<lambda>_ :: unit. network_step os Turn"
    "\<lambda>s. honest os opens \<and> holds opens base s" for os opens base
proof unfold_locales
  fix s s' assume inv: "honest os opens \<and> holds opens base s" and "network_step os Turn s = Some (Returned s')"
  then have "net_run os (Some (fst s)) (snd s) = Some (Returned (Some (fst s'), snd s'))"
    by (metis network_step_Turn prod.collapse)
  from net_run_holds [OF conjunct1 [OF inv] _ this, of base] inv
  show "honest os opens \<and> holds opens base s'" by simp
qed

lemma fold_run_replicate: "fold_run (\<lambda>_ :: unit. f x) (replicate n ()) s = fold_run f (replicate n x) s"
  by (induction n arbitrary: s) (auto simp: run_then_def split: option.splits outcome.splits)

lemma turns_hold:
  assumes "honest os opens" "holds opens base s" "fold_run (network_step os) (replicate n Turn) s = Some (Returned s')"
  shows "holds opens base s'"
  using turning.inv_run [of os "replicate n ()" s s' opens base] assms by (simp add: fold_run_replicate)

end
