(* ===== verification/Network_Properties.thy ===== *)
theory Network_Properties
  imports Network_Session
begin

text \<open>
  The properties of the network program. The witnesses run it on \<open>demo_os\<close>, a system whose
  world is the list of open descriptors: port 8080 is taken, every descriptor is ready at
  once, a client waits whenever the program asks, and sends the letter A.
\<close>

section \<open>A small system\<close>

definition fresh :: "int list \<Rightarrow> int" where "fresh w = foldr max w 2 + 1"

lemma fresh_above: "fd \<in> set w \<Longrightarrow> fd < fresh w"
  by (induction w) (auto simp: fresh_def)

lemma fresh_not_open: "fresh w \<notin> set w"
  using fresh_above [of "fresh w" w] by auto

lemma fresh_positive: "2 < fresh w"
  by (induction w) (auto simp: fresh_def)

definition demo_os :: "int list os_sockets" where
  "demo_os = \<lparr>os_socket = \<lambda>k w. (fresh w, fresh w # w),
     os_setsockopt = \<lambda>fd opt w. (0, w),
     os_bind = \<lambda>fd a w. (if sin_port a = htons 8080 then -1 else 0, w),
     os_listen = \<lambda>fd n w. (0, w),
     os_accept = \<lambda>l w. ((fresh w, zero_addr), fresh w # w),
     os_getfl = \<lambda>fd w. (2, w), os_setfl = \<lambda>fd fl w. (0, w),
     os_select = \<lambda>m fds w. ((int (length fds), fds), w),
     os_recv = \<lambda>fd n fl w. ((1, [65]), w),
     os_shutdown = \<lambda>fd w. w, os_close = \<lambda>fd w. removeAll fd w, os_usleep = \<lambda>t w. w\<rparr>"

lemma demo_honest: "honest demo_os set"
  using fresh_positive fresh_not_open
  by (auto simp: honest_def demo_os_def intro: order_less_imp_le [THEN leD]) (metis less_trans not_less_iff_gr_or_eq zero_less_numeral)+


section \<open>Properties\<close>

text \<open>
  C27: When the peer of any connection has closed it, the next turn of the event loop never
  returns, whatever else happens in it: \<open>net_run\<close> holds the mutex of the client table when it
  calls \<open>net_remove_client\<close>, which takes the same mutex. The descriptors are taken to be below
  the size of a descriptor set, and those of new connections too.
\<close>

theorem disconnect_never_returns:
  assumes "at_rest p" "in_range p" "np_running p"
    and "np_endpoints p = Some (ep # eps)" "np_count p \<noteq> 0" "0 < ep_socket_fd ep" "ep_socket_fd ep < FD_SETSIZE"
    and "(fd, addr) \<in> set (connections (np_clients p))" "0 < fd" "hung_up os fd"
    and "\<forall>w. fst (fst (os_accept os (ep_socket_fd ep) w)) < FD_SETSIZE"
    and "\<forall>fd w. 0 \<le> fst (set_nonblocking os fd w)"
  shows "net_run os (Some p) w = None"
  using turn_blocked [OF assms(1,2,6-10), of w] assms(3-6,11,12) by (simp add: net_run_def)

definition gone_os :: "int list os_sockets" where
  "gone_os = demo_os\<lparr>os_accept := \<lambda>l w. ((-1, zero_addr), w), os_recv := \<lambda>fd n fl w. ((0, []), w)\<rparr>"

definition demo_program :: "int list network_program" where
  "demo_program = zero_program\<lparr>np_running := True, np_count := 1,
     np_endpoints := Some [zero_endpoint\<lparr>ep_socket_fd := 3\<rparr>],
     np_clients := zero_client\<lparr>cl_active := True, cl_socket := 4\<rparr> # replicate 9 zero_client\<rparr>"

lemma demo_program_at_rest: "at_rest demo_program"
  by (simp add: at_rest_def demo_program_def zero_program_def zero_client_def NET_MAX_CLIENTS_def)

lemma demo_connections: "connections (np_clients demo_program) = [(4, zero_addr)]"
  by (simp add: connections_def demo_program_def zero_client_def filter_empty_conv)

theorem disconnect_never_returns_witness: "net_run gone_os (Some demo_program) [4, 3, 2, 1, 0] = None"
proof (rule disconnect_never_returns [OF demo_program_at_rest])
  show "(4, zero_addr) \<in> set (connections (np_clients demo_program))" by (simp add: demo_connections)
  show "in_range demo_program" by (simp add: in_range_def demo_connections FD_SETSIZE_def)
  show "np_endpoints demo_program = Some (zero_endpoint\<lparr>ep_socket_fd := 3\<rparr> # [])" by (simp add: demo_program_def)
  show "hung_up gone_os 4" by (auto simp: hung_up_def gone_os_def demo_os_def length_pos_if_in_set)
qed (simp_all add: demo_program_def zero_program_def gone_os_def demo_os_def FD_SETSIZE_def set_nonblocking_def)

text \<open>
  C28: No descriptor leaks. A program that was started, given handlers that open and close
  nothing, and run for any number of turns that return, closes on \<open>net_cleanup_program\<close>
  every descriptor it has opened, the listening one and those of its clients, and no other;
  the cleanup returns. The process has descriptor 0 open, as the code takes 0 for no
  descriptor. (After a turn that does not return the cleanup is not reached.)
\<close>

theorem cleanup_closes_what_was_opened:
  assumes "honest os opens" "0 \<in> opens w" "quiet opens h"
    and "net_init_program os memory (Some p0) w = Some (Returned (Some p, w1))" "np_endpoints p \<noteq> None"
    and "fold_run (network_step os) (replicate n Turn) (p\<lparr>np_handlers := h\<rparr>, w1) = Some (Returned (q, w2))"
  shows "\<exists>r w3. net_cleanup_program os (Some q) w2 = Some (Returned (Some r, w3)) \<and> opens w3 = opens w \<and>
    np_endpoints r = None \<and> (\<forall>c \<in> set (np_clients r). \<not> cl_active c)"
proof (rule net_init_program_cases [OF assms(1), of memory w p0])
  fix k fd w' assume fd: "0 \<le> fd" "fd \<notin> opens w" "opens w' = insert fd (opens w)"
    and i: "net_init_program os memory (Some p0) w = returns (Some (zero_program\<lparr>np_running := True,
         np_endpoints := Some [(server_endpoint (8080 + of_nat k))
           \<lparr>ep_lock := Unlocked, ep_socket_fd := fd, ep_addr := any_addr (8080 + of_nat k)\<rparr>], np_count := 1\<rparr>), w')"
  from i assms(4) started_holds [OF assms(3) fd] have "holds opens (opens w) (p\<lparr>np_handlers := h\<rparr>, w1)" by auto
  from turns_hold [OF assms(1) this assms(6)] have "holds opens (opens w) (q, w2)" .
  from net_cleanup_program_result [OF assms(1) this assms(2)] show ?thesis
    by (auto simp: cleaned_def)
qed (use assms(4,5) in \<open>simp add: zero_program_def\<close>)

lemma started:
  "(case r of Some (Returned (Some p, w)) \<Rightarrow> P p w | _ \<Rightarrow> False) \<Longrightarrow> \<exists>p w. r = Some (Returned (Some p, w)) \<and> P p w"
  by (auto split: option.splits outcome.splits prod.splits)

lemma returned:
  "(case r of Some (Returned (q, w)) \<Rightarrow> P q w | _ \<Rightarrow> False) \<Longrightarrow> \<exists>q w. r = Some (Returned (q, w)) \<and> P q w"
  by (auto split: option.splits outcome.splits prod.splits)

lemma demo_start:
  "\<exists>p w q w'. net_init_program demo_os True (Some zero_program) [2, 1, 0] = Some (Returned (Some p, w)) \<and>
     np_endpoints p \<noteq> None \<and>
     fold_run (network_step demo_os) (replicate 3 Turn) (p\<lparr>np_handlers := no_handlers\<rparr>, w) = Some (Returned (q, w')) \<and>
     length w' = 7"
proof -
  have "case net_init_program demo_os True (Some zero_program) [2, 1, 0] of
      Some (Returned (Some p, w)) \<Rightarrow> \<not> Option.is_none (np_endpoints p) \<and>
        (case fold_run (network_step demo_os) (replicate 3 Turn) (p\<lparr>np_handlers := no_handlers\<rparr>, w) of
           Some (Returned (q, w')) \<Rightarrow> length w' = 7 | _ \<Rightarrow> False)
    | _ \<Rightarrow> False"
    by code_simp
  from started [OF this] obtain p w where
      p: "net_init_program demo_os True (Some zero_program) [2, 1, 0] = Some (Returned (Some p, w))"
        "\<not> Option.is_none (np_endpoints p)"
        "case fold_run (network_step demo_os) (replicate 3 Turn) (p\<lparr>np_handlers := no_handlers\<rparr>, w) of
           Some (Returned (q, w')) \<Rightarrow> length w' = 7 | _ \<Rightarrow> False" by blast
  from returned [OF p(3)] p(1,2) show ?thesis by (auto simp: Option.is_none_def)
qed

lemma no_handlers_quiet: "quiet opens no_handlers"
  by (simp add: quiet_def no_handlers_def)

theorem cleanup_closes_what_was_opened_witness:
  "\<exists>p w1 q w2 r w3. net_init_program demo_os True (Some zero_program) [2, 1, 0] = Some (Returned (Some p, w1)) \<and>
     fold_run (network_step demo_os) (replicate 3 Turn) (p\<lparr>np_handlers := no_handlers\<rparr>, w1) = Some (Returned (q, w2)) \<and>
     length w2 = 7 \<and>
     net_cleanup_program demo_os (Some q) w2 = Some (Returned (Some r, w3)) \<and> set w3 = {2, 1, 0}"
proof -
  obtain p w1 q w2 where p: "net_init_program demo_os True (Some zero_program) [2, 1, 0] = Some (Returned (Some p, w1))"
      "np_endpoints p \<noteq> None"
      "fold_run (network_step demo_os) (replicate 3 Turn) (p\<lparr>np_handlers := no_handlers\<rparr>, w1) = Some (Returned (q, w2))"
      "length w2 = 7"
    using demo_start by blast
  have "(0 :: int) \<in> set [2, 1, 0]" by simp
  from cleanup_closes_what_was_opened [OF demo_honest this no_handlers_quiet p(1-3)] p show ?thesis
    by fastforce
qed

text \<open>
  C29: The client table implements a bag of at most ten connections. Adding puts in one
  connection exactly if there are fewer than ten, and changes nothing else; removing takes
  out every connection of the descriptor, closing it once for each; both return with every
  mutex released.
\<close>

theorem client_table_is_a_bag:
  assumes "at_rest p"
  shows "(\<exists>q added. net_add_client (Some p) fd addr = Some (Returned (Some q, added)) \<and> at_rest q \<and>
      q = p\<lparr>np_clients := np_clients q\<rparr> \<and>
      added = (length (connections (np_clients p)) < NET_MAX_CLIENTS) \<and>
      mset (connections (np_clients q)) = (if added then {#(fd, addr)#} else {#}) + mset (connections (np_clients p))) \<and>
    (\<exists>q. net_remove_client os (Some p) fd w =
        Some (Returned (Some q, (os_close os fd ^^ count (image_mset fst (mset (connections (np_clients p)))) fd) w)) \<and>
      at_rest q \<and> q = p\<lparr>np_clients := np_clients q\<rparr> \<and>
      mset (connections (np_clients q)) = filter_mset (\<lambda>x. fst x \<noteq> fd) (mset (connections (np_clients p))))"
proof
  from assms have len: "length (np_clients p) = NET_MAX_CLIENTS" by (simp add: at_rest_def)
  from net_add_client_cases [OF assms, of fd addr]
  show "\<exists>q added. net_add_client (Some p) fd addr = Some (Returned (Some q, added)) \<and> at_rest q \<and>
      q = p\<lparr>np_clients := np_clients q\<rparr> \<and>
      added = (length (connections (np_clients p)) < NET_MAX_CLIENTS) \<and>
      mset (connections (np_clients q)) = (if added then {#(fd, addr)#} else {#}) + mset (connections (np_clients p))"
  proof (elim disjE exE conjE)
    fix i assume i: "first_free i p" "net_add_client (Some p) fd addr = returns (Some (admit i fd addr p), True)"
    then have "at_rest (admit i fd addr p)" "length (connections (np_clients p)) < NET_MAX_CLIENTS"
      using assms connections_full [of "np_clients p"] len by (auto simp: first_free_def at_rest_admit)
    with i connections_admit [OF i(1), of fd addr] show ?thesis
      by (intro exI [of _ "admit i fd addr p"] exI [of _ True]) (simp add: admit_def)
  next
    assume "\<forall>c \<in> set (np_clients p). cl_active c" "net_add_client (Some p) fd addr = returns (Some p, False)"
    with connections_full [of "np_clients p"] len assms show ?thesis
      by (intro exI [of _ p] exI [of _ False]) simp
  qed
  have "length (filter (\<lambda>x. fst x = fd) cs) = count (image_mset fst (mset cs)) fd" for cs :: "(int \<times> sock_addr) list"
    by (induction cs) auto
  with net_remove_client_result [OF assms, of os fd w] at_rest_cleared [OF assms, of fd]
  show "\<exists>q. net_remove_client os (Some p) fd w =
        Some (Returned (Some q, (os_close os fd ^^ count (image_mset fst (mset (connections (np_clients p)))) fd) w)) \<and>
      at_rest q \<and> q = p\<lparr>np_clients := np_clients q\<rparr> \<and>
      mset (connections (np_clients q)) = filter_mset (\<lambda>x. fst x \<noteq> fd) (mset (connections (np_clients p)))"
    by (intro exI [of _ "p\<lparr>np_clients := map (cleared fd) (np_clients p)\<rparr>"])
       (simp add: connections_cleared flip: mset_filter)
qed

theorem client_table_is_a_bag_witness:
  "\<exists>q. net_add_client (Some demo_program) 5 zero_addr = Some (Returned (Some q, True)) \<and>
     mset (connections (np_clients q)) = {#(5, zero_addr), (4, zero_addr)#}"
  using conjunct1 [OF client_table_is_a_bag [OF demo_program_at_rest, where fd = 5 and addr = zero_addr and os = demo_os]]
  by (auto simp: demo_connections NET_MAX_CLIENTS_def)

text \<open>
  C30: When looking for a port ends, and with what. It returns the first port of the range
  that is not in use, and 0 if all of them are, provided the range does not end at the
  greatest 16-bit port. If it does, the counter wraps: the loop goes on with port 0, returns
  the first port that is not in use however often it has gone round (so 0, as for no port,
  if that is port 0), and fails to end exactly if no probe ever succeeds, as when no socket
  can be made.
\<close>

theorem find_available_port_termination:
  assumes "a \<le> e"
  shows "(find_available_port os a e w = None \<longleftrightarrow> e = 65535 \<and> (\<forall>k. occupied os a k w)) \<and>
    (\<forall>k. (unat a + k \<le> unat e \<or> e = 65535) \<and> (\<forall>j < k. occupied os a j w) \<and> \<not> occupied os a k w \<longrightarrow>
       find_available_port os a e w = Some (a + of_nat k, probed os a (Suc k) w)) \<and>
    (e < 65535 \<and> (\<forall>k. unat a + k \<le> unat e \<longrightarrow> occupied os a k w) \<longrightarrow>
       find_available_port os a e w = Some (0, probed os a (unat e + 1 - unat a) w))"
proof -
  have minus_one: "(- 1 :: u16) = 65535" by simp
  then have top: "(e = 65535) = (e = - 1)" by (simp only:)
  have below: "(e < 65535) = (unat e < 65535)" by (simp add: word_less_nat_alt)
  have first: "find_available_port os a e w = Some (a + of_nat k, probed os a (Suc k) w)"
    if "unat a + k \<le> unat e \<or> e = 65535" "\<forall>j < k. occupied os a j w" "\<not> occupied os a k w" for k
    using that(1) by (intro find_first that(2,3)) (simp only: top)
  have none: "find_available_port os a e w = Some (0, probed os a (unat e + 1 - unat a) w)"
    if "e < 65535" "\<forall>k. unat a + k \<le> unat e \<longrightarrow> occupied os a k w"
    using that assms by (intro find_nothing) (auto simp: below word_le_nat_alt simp flip: top)
  have "find_available_port os a e w = None \<longleftrightarrow> e = 65535 \<and> (\<forall>k. occupied os a k w)"
  proof (cases "\<exists>k. (unat a + k \<le> unat e \<or> e = 65535) \<and> \<not> occupied os a k w")
    case True
    then obtain k where k: "unat a + k \<le> unat e \<or> e = 65535" "\<not> occupied os a k w"
        and least: "\<forall>j < k. \<not> ((unat a + j \<le> unat e \<or> e = 65535) \<and> \<not> occupied os a j w)"
      by (subst (asm) exists_least_iff) auto
    from least k(1) have "\<forall>j < k. occupied os a j w" by auto
    from first [OF k(1) this k(2)] k(2) show ?thesis by auto
  next
    case False
    show ?thesis
    proof (cases "e = 65535")
      case True
      with False find_available_port_endless [of os a w] show ?thesis by (simp add: top)
    next
      case ne: False
      have "e \<le> - 1" by simp
      with ne have "e < - 1" unfolding top by (intro order_le_neq_trans)
      then have "e < 65535" by (simp only: minus_one)
      with none False ne show ?thesis by auto
    qed
  qed
  with first none show ?thesis by blast
qed

text \<open>Every port but 0 is taken; or no socket can be made.\<close>

definition crowded_os :: "int list os_sockets" where
  "crowded_os = demo_os\<lparr>os_bind := \<lambda>fd a w. (if sin_port a = 0 then 0 else -1, w)\<rparr>"

definition exhausted_os :: "int list os_sockets" where
  "exhausted_os = demo_os\<lparr>os_socket := \<lambda>k w. (-1, w)\<rparr>"

theorem find_available_port_termination_witness:
  "find_available_port demo_os 8080 8180 [0] = Some (8081, probed demo_os 8080 2 [0]) \<and>
   find_available_port crowded_os 65534 65535 [0] = Some (0, probed crowded_os 65534 3 [0]) \<and>
   find_available_port crowded_os 8080 8081 [0] = Some (0, probed crowded_os 8080 2 [0]) \<and>
   find_available_port exhausted_os 65534 65535 [0] = None"
proof (intro conjI)
  have demo: "occupied demo_os 8080 0 [0]" "\<not> occupied demo_os 8080 1 [0]" by code_simp+
  have r: "(8080 :: u16) \<le> 8180" by simp
  have "find_available_port demo_os 8080 8180 [0] = Some (8080 + of_nat 1, probed demo_os 8080 (Suc 1) [0])"
    by (rule conjunct1 [OF conjunct2 [OF find_available_port_termination [OF r, of demo_os "[0]"]], rule_format],
        intro conjI disjI1) (use demo in simp_all)
  then show "find_available_port demo_os 8080 8180 [0] = Some (8081, probed demo_os 8080 2 [0])"
    by (simp add: numeral_2_eq_2 del: probed.simps)
  have crowd: "occupied crowded_os 65534 0 [0]" "occupied crowded_os 65534 1 [0]" "\<not> occupied crowded_os 65534 2 [0]"
    by code_simp+
  have r: "(65534 :: u16) \<le> 65535" by simp
  from crowd(1,2) have taken: "\<forall>j < 2. occupied crowded_os 65534 j [0]" by (auto simp: less_2_cases_iff)
  have "find_available_port crowded_os 65534 65535 [0] = Some (65534 + of_nat 2, probed crowded_os 65534 (Suc 2) [0])"
    by (rule conjunct1 [OF conjunct2 [OF find_available_port_termination [OF r, of crowded_os "[0]"]], rule_format],
        intro conjI disjI2) (use taken crowd(3) in simp_all)
  moreover have "65534 + of_nat 2 = (0 :: u16)" "Suc 2 = 3" by simp_all
  ultimately show "find_available_port crowded_os 65534 65535 [0] = Some (0, probed crowded_os 65534 3 [0])"
    by (simp only:)
  have "occupied crowded_os 8080 0 [0]" "occupied crowded_os 8080 1 [0]" by code_simp+
  moreover have "k = 0 \<or> k = 1" if "unat (8080 :: u16) + k \<le> unat (8081 :: u16)" for k using that by auto
  ultimately have "\<forall>k. unat (8080 :: u16) + k \<le> unat (8081 :: u16) \<longrightarrow> occupied crowded_os 8080 k [0]" by blast
  with conjunct2 [OF conjunct2 [OF find_available_port_termination [of 8080 8081 crowded_os "[0]"]]]
  show "find_available_port crowded_os 8080 8081 [0] = Some (0, probed crowded_os 8080 2 [0])"
    by (simp del: probed.simps)
  have "occupied exhausted_os a k w" for a k w
    by (simp add: occupied_def net_is_port_in_use_def exhausted_os_def)
  with conjunct1 [OF find_available_port_termination [OF r, of exhausted_os "[0]"]]
  show "find_available_port exhausted_os 65534 65535 [0] = None" by simp
qed

text \<open>
  C31: Starting a program always returns. Either it serves the first port from 8080 to 8180
  that no probe found in use, with one descriptor more, the listening one; or there is no
  endpoint and no descriptor more. It is marked as running in both cases.
\<close>

theorem start_outcomes:
  assumes "honest os opens"
  shows "\<exists>q w'. net_init_program os memory (Some p) w = Some (Returned (Some q, w')) \<and>
    np_running q \<and> at_rest q \<and> connections (np_clients q) = [] \<and>
    (case np_endpoints q of
       None \<Rightarrow> np_count q = 0 \<and> opens w' = opens w
     | Some eps \<Rightarrow> np_count q = 1 \<and> (\<exists>k ep. eps = [ep] \<and> k \<le> 100 \<and> ep_port ep = 8080 + of_nat k \<and>
         (\<forall>j < k. occupied os 8080 j w) \<and> \<not> occupied os 8080 k w \<and>
         sin_port (ep_addr ep) = htons (ep_port ep) \<and> ep_lock ep = Unlocked \<and>
         ep_socket_fd ep \<notin> opens w \<and> opens w' = insert (ep_socket_fd ep) (opens w)))"
proof -
  have empty: "connections (np_clients zero_program) = []"
    by (auto simp: connections_def zero_program_def zero_client_def filter_empty_conv)
  have rest: "at_rest (zero_program\<lparr>np_running := True\<rparr>)"
      "at_rest (zero_program\<lparr>np_running := True, np_endpoints := e, np_count := n\<rparr>)" for e n
    by (simp_all add: at_rest_def zero_program_def zero_client_def)
  show ?thesis
  proof (rule net_init_program_cases [OF assms, of memory w p])
    fix w' assume "opens w' = opens w"
      "net_init_program os memory (Some p) w = returns (Some (zero_program\<lparr>np_running := True\<rparr>), w')"
    with empty rest show ?thesis
      by (intro exI [of _ "zero_program\<lparr>np_running := True\<rparr>"] exI [of _ w']) (simp add: zero_program_def)
  next
    fix k fd w' assume k: "k \<le> 100" "\<forall>j < k. occupied os 8080 j w" "\<not> occupied os 8080 k w"
      and fd: "fd \<notin> opens w" "opens w' = insert fd (opens w)"
    let ?q = "zero_program\<lparr>np_running := True,
         np_endpoints := Some [(server_endpoint (8080 + of_nat k))
           \<lparr>ep_lock := Unlocked, ep_socket_fd := fd, ep_addr := any_addr (8080 + of_nat k)\<rparr>], np_count := 1\<rparr>"
    assume "net_init_program os memory (Some p) w = returns (Some ?q, w')"
    with k fd empty rest show ?thesis
      by (intro exI [of _ ?q] exI [of _ w']) (auto simp: server_endpoint_def any_addr_def)
  qed
qed

theorem start_outcomes_witness:
  "\<exists>q w'. net_init_program demo_os True (Some zero_program) [2, 1, 0] = Some (Returned (Some q, w')) \<and>
     np_running q \<and> connections (np_clients q) = []"
  using start_outcomes [OF demo_honest, where memory = True and p = zero_program and w = "[2, 1, 0]"] by blast

text \<open>
  Opening an endpoint adds one descriptor or none: if \<open>net_init\<close> succeeds, \<open>net_close\<close>
  returns and gives back exactly the descriptor that was opened; if it fails, nothing stays
  open, and the endpoint is as it was or cannot be closed, because its mutex was destroyed.
\<close>

theorem endpoint_open_close:
  assumes "honest os opens" "0 \<in> opens w" "net_init os (Some ep) w = (ok, Some ep', w')"
  shows "if ok then \<exists>fd w''. 0 < fd \<and> fd \<notin> opens w \<and> opens w' = insert fd (opens w) \<and>
        net_close os (Some ep') w' = Some (Returned (Some (ep'\<lparr>ep_lock := Destroyed, ep_socket_fd := 0\<rparr>), w'')) \<and>
        opens w'' = opens w
    else opens w' = opens w \<and> (ep' = ep \<or> net_close os (Some ep') w' = Some Undefined)"
proof (cases ok)
  case True
  with net_init_opens [OF assms(1,3)] obtain fd where
      fd: "0 \<le> fd" "fd \<notin> opens w" "opens w' = insert fd (opens w)"
      and ep': "ep_lock ep' = Unlocked" "ep_socket_fd ep' = fd" by auto
  with assms(2) have "0 < fd" by (metis order_le_less)
  with net_close_result [OF assms(1) ep'(1), of w'] ep'(2) fd True show ?thesis by auto
next
  case False
  with net_init_opens [OF assms(1,3)]
  have "opens w' = opens w \<and> (ep' = ep \<or> ep_lock ep' = Destroyed)" by auto
  with False show ?thesis by (auto simp: net_close_def acquire_def)
qed

theorem endpoint_open_close_witness:
  "\<exists>ep w'. net_init demo_os (Some (zero_endpoint\<lparr>ep_port := 9090\<rparr>)) [0] = (True, Some ep, w') \<and>
     (\<exists>w''. net_close demo_os (Some ep) w' = Some (Returned (Some (ep\<lparr>ep_lock := Destroyed, ep_socket_fd := 0\<rparr>), w'')) \<and>
        set w'' = {0})"
proof -
  have "case net_init demo_os (Some (zero_endpoint\<lparr>ep_port := 9090\<rparr>)) [0] of
      (True, Some ep, w) \<Rightarrow> True | _ \<Rightarrow> False"
    by code_simp
  then obtain ep w' where i: "net_init demo_os (Some (zero_endpoint\<lparr>ep_port := 9090\<rparr>)) [0] = (True, Some ep, w')"
    by (auto split: prod.splits bool.splits option.splits)
  have "(0 :: int) \<in> set [0]" by simp
  from endpoint_open_close [OF demo_honest this i] i show ?thesis by auto
qed

text \<open>
  C32: Sequences of calls on a program that rests: adding clients, removing them and turns of
  the event loop, in any order. Whenever the sequence returns, the table is an array of ten
  slots and every mutex of the program is released. Adding and removing alone always return.
  With turns among them the sequence never blocks as long as every \<open>recv\<close> delivers
  something; a client that is gone is what makes a turn block (C27).
\<close>

theorem network_sessions_rest:
  assumes "at_rest p"
  shows "(\<forall>q w'. fold_run (network_step os) es (p, w) = Some (Returned (q, w')) \<longrightarrow>
      length (np_clients q) = NET_MAX_CLIENTS \<and> length (connections (np_clients q)) \<le> NET_MAX_CLIENTS \<and>
      np_lock q = Unlocked \<and> (\<forall>c \<in> set (np_clients q). cl_lock c = Unlocked)) \<and>
    (Turn \<notin> set es \<longrightarrow> (\<exists>s. fold_run (network_step os) es (p, w) = Some (Returned s))) \<and>
    ((\<forall>fd n fl w. 0 < fst (fst (os_recv os fd n fl w))) \<longrightarrow> fold_run (network_step os) es (p, w) \<noteq> None)"
proof (intro conjI impI)
  have rest: "at_rest (fst (p, w))" using assms by simp
  show "\<forall>q w'. fold_run (network_step os) es (p, w) = Some (Returned (q, w')) \<longrightarrow>
      length (np_clients q) = NET_MAX_CLIENTS \<and> length (connections (np_clients q)) \<le> NET_MAX_CLIENTS \<and>
      np_lock q = Unlocked \<and> (\<forall>c \<in> set (np_clients q). cl_lock c = Unlocked)"
  proof (intro allI impI)
    fix q w' assume "fold_run (network_step os) es (p, w) = Some (Returned (q, w'))"
    from network.inv_run [OF this rest] length_connections [of "np_clients q"] show
      "length (np_clients q) = NET_MAX_CLIENTS \<and> length (connections (np_clients q)) \<le> NET_MAX_CLIENTS \<and>
      np_lock q = Unlocked \<and> (\<forall>c \<in> set (np_clients q). cl_lock c = Unlocked)"
      by (simp add: at_rest_def)
  qed
  show "\<exists>s. fold_run (network_step os) es (p, w) = Some (Returned s)" if turn: "Turn \<notin> set es"
  proof (rule network.run_returns [where os = os, OF _ rest])
    fix e and s :: "'a network_program \<times> 'a" assume "e \<in> set es" "at_rest (fst s)"
    with turn network_step_table [of s os] show "\<exists>s'. network_step os e s = Some (Returned s')"
      by (cases e) blast+
  qed
  show "fold_run (network_step os) es (p, w) \<noteq> None" if "\<forall>fd n fl w. 0 < fst (fst (os_recv os fd n fl w))"
    using network.run_ends [OF network_step_ends rest, of es os] that by (simp add: all_deliver_def)
qed

theorem network_sessions_rest_witness:
  "(\<exists>s. fold_run (network_step gone_os) [Add 9 zero_addr, Remove 4, Remove 9] (demo_program, [4, 3, 2, 1, 0]) = Some (Returned s)) \<and>
   fold_run (network_step demo_os) [Turn, Add 9 zero_addr, Remove 4, Turn] (demo_program, [4, 3, 2, 1, 0]) \<noteq> None"
proof
  show "\<exists>s. fold_run (network_step gone_os) [Add 9 zero_addr, Remove 4, Remove 9] (demo_program, [4, 3, 2, 1, 0]) = Some (Returned s)"
    using network_sessions_rest [OF demo_program_at_rest, of gone_os "[Add 9 zero_addr, Remove 4, Remove 9]" "[4, 3, 2, 1, 0]"]
    by simp
  have "\<forall>fd n fl w. 0 < fst (fst (os_recv demo_os fd n fl w))" by (simp add: demo_os_def)
  with network_sessions_rest [OF demo_program_at_rest, of demo_os "[Turn, Add 9 zero_addr, Remove 4, Turn]" "[4, 3, 2, 1, 0]"]
  show "fold_run (network_step demo_os) [Turn, Add 9 zero_addr, Remove 4, Turn] (demo_program, [4, 3, 2, 1, 0]) \<noteq> None"
    by blast
qed

end
