(* ===== verification/Runtime.thy ===== *)
theory Runtime
  imports Network_Run State_Machine Polycall_Context Config_Load
begin

text \<open>
  The command line program, \<open>src/main.c\<close>: its global state, the handlers it gives to state
  machines and network programs, the commands, and what they print. Operations work on the
  pair of the runtime and the world; printing, sending, allocation and the file system are
  functions of the world, the fields of \<open>'w host\<close>. The record has \<open>g_runtime\<close> and, in its last
  three fields, \<open>dir_control\<close>, an open directory being the names it has not delivered yet. The
  fields \<open>snapshots\<close>, \<open>has_snapshot\<close> and \<open>interactive_mode\<close> of \<open>PPI_Runtime\<close> are used nowhere
  and left out.
\<close>

section \<open>State\<close>

definition MAX_INPUT :: nat where "MAX_INPUT = 256"
definition MAX_PORTS :: nat where "MAX_PORTS = 64"
definition MAX_PROGRAMS :: nat where "MAX_PROGRAMS = 8"
definition HISTORY_SIZE :: nat where "HISTORY_SIZE = 10"
definition PPI_VERSION :: string where "PPI_VERSION = ''1.0.0''"

datatype path_kind = Directory | Other_File

text \<open>
  \<open>h_stat\<close> is \<open>None\<close> where \<open>stat\<close> fails, \<open>h_opendir\<close> gives the names \<open>readdir\<close> returns, one
  after the other, \<open>h_open\<close> the text of a file opened for reading, \<open>h_code\<close> the address of a
  function of the program.
\<close>

record 'w host =
  h_sockets :: "'w os_sockets"
  h_send :: "int \<Rightarrow> u8 list \<Rightarrow> u32 \<Rightarrow> 'w \<Rightarrow> int \<times> 'w"
  h_print :: "string \<Rightarrow> 'w \<Rightarrow> 'w"
  h_calloc :: "'w \<Rightarrow> bool \<times> 'w"
  h_malloc :: "'w \<Rightarrow> address \<times> 'w"
  h_time :: "'w \<Rightarrow> u64"
  h_code :: "string \<Rightarrow> address"
  h_stat :: "string \<Rightarrow> 'w \<Rightarrow> path_kind option"
  h_mkdir :: "string \<Rightarrow> 'w \<Rightarrow> bool \<times> 'w"
  h_opendir :: "string \<Rightarrow> 'w \<Rightarrow> string list option \<times> 'w"
  h_closedir :: "'w \<Rightarrow> 'w"
  h_open :: "string \<Rightarrow> 'w \<Rightarrow> string option"

record port_mapping =
  pm_host :: u16
  pm_container :: u16
  pm_active :: bool

record 'w runtime =
  rt_programs :: "'w network_program option list"
  rt_program_count :: nat
  rt_pc_ctx :: "(address \<times> polycall_context) option"
  rt_state_machine :: "state_machine option"
  rt_history :: "string list"
  rt_history_count :: nat
  rt_mappings :: "port_mapping list"
  rt_mapping_count :: nat
  rt_running :: bool
  rt_base_path :: string
  rt_current_dir :: "string list option"
  rt_dir_initialized :: bool

type_synonym 'w operation = "'w runtime \<times> 'w \<Rightarrow> 'w runtime \<times> 'w"

text \<open>The static \<open>g_runtime\<close> before \<open>main\<close>.\<close>

definition zero_runtime :: "'w runtime" where
  "zero_runtime = \<lparr>rt_programs = replicate MAX_PROGRAMS None, rt_program_count = 0, rt_pc_ctx = None,
     rt_state_machine = None, rt_history = replicate HISTORY_SIZE (replicate MAX_INPUT NUL),
     rt_history_count = 0,
     rt_mappings = replicate MAX_PORTS \<lparr>pm_host = 0, pm_container = 0, pm_active = False\<rparr>,
     rt_mapping_count = 0, rt_running = False, rt_base_path = [], rt_current_dir = None,
     rt_dir_initialized = False\<rparr>"

abbreviation endl :: string where "endl \<equiv> [CHR 0x0A]"

definition say :: "'w host \<Rightarrow> string \<Rightarrow> 'a \<times> 'w \<Rightarrow> 'a \<times> 'w" where
  "say h text s = (fst s, h_print h text (snd s))"

definition quote :: "string \<Rightarrow> string" where
  "quote s = [CHR 0x27] @ s @ [CHR 0x27]"

definition show_word :: "'n :: len word \<Rightarrow> string" where
  "show_word n = show_nat (unat n)"


section \<open>Callbacks and handlers\<close>

definition on_init :: "'w host \<Rightarrow> 'w operation" where
  "on_init h = say h (''State callback: System initialized'' @ endl)"

definition on_ready :: "'w host \<Rightarrow> 'w operation" where
  "on_ready h = say h (''State callback: System ready'' @ endl)"

definition on_running :: "'w host \<Rightarrow> 'w operation" where
  "on_running h = say h (''State callback: System running'' @ endl)"

definition on_paused :: "'w host \<Rightarrow> 'w operation" where
  "on_paused h = say h (''State callback: System paused'' @ endl)"

definition on_error :: "'w host \<Rightarrow> 'w operation" where
  "on_error h s = apfst (rt_running_update (\<lambda>_. False)) (say h (''State callback: System error'' @ endl) s)"

definition peer :: "network_endpoint \<Rightarrow> string" where
  "peer ep = cstr (ep_address ep) @ '':'' @ show_word (ep_port ep)"

definition on_network_connect :: "'w host \<Rightarrow> network_endpoint option \<Rightarrow> 'w \<Rightarrow> 'w" where
  "on_network_connect h endpoint w =
     (case endpoint of None \<Rightarrow> w
      | Some ep \<Rightarrow> h_print h (endl @ ''New connection from '' @ peer ep @ endl @ ''> '') w)"

definition on_network_disconnect :: "'w host \<Rightarrow> network_endpoint option \<Rightarrow> 'w \<Rightarrow> 'w" where
  "on_network_disconnect h endpoint w =
     (case endpoint of None \<Rightarrow> w
      | Some ep \<Rightarrow> h_print h (endl @ ''Client disconnected from '' @ peer ep @ endl @ ''> '') w)"

text \<open>The text of a packet is printed up to its size or its first NUL, and all of it is sent back.\<close>

definition on_network_receive :: "'w host \<Rightarrow> network_endpoint option \<Rightarrow> network_packet option \<Rightarrow> 'w \<Rightarrow> 'w" where
  "on_network_receive h endpoint packet w =
     (case (endpoint, packet) of
        (Some ep, Some p) \<Rightarrow>
          (let w = h_print h (endl @ ''Received data from '' @ peer ep @ '': '' @
                     cstr (map (\<lambda>b. char_of (unat b)) (take (pkt_size p) (pkt_data p))) @ endl @ ''> '') w;
               (result, sent) = net_send (\<lambda>fd bytes flags. fst (h_send h fd bytes flags w)) (Some ep)
                     (Some \<lparr>pkt_data = pkt_data p, pkt_size = pkt_size p, pkt_flags = 0\<rparr>)
           in fold (\<lambda>(fd, bytes) w. snd (h_send h fd bytes 0 w)) sent w)
      | _ \<Rightarrow> w)"

definition runtime_handlers :: "'w host \<Rightarrow> 'w network_handlers" where
  "runtime_handlers h = \<lparr>on_receive = Some (\<lambda>ep p. on_network_receive h (Some ep) (Some p)),
     on_connect = Some (\<lambda>ep. on_network_connect h (Some ep)),
     on_disconnect = Some (\<lambda>ep. on_network_disconnect h (Some ep))\<rparr>"


section \<open>Commands\<close>

text \<open>A command returns whether it succeeded.\<close>

type_synonym 'w command = "string option \<Rightarrow> 'w runtime \<times> 'w \<Rightarrow> bool \<times> 'w runtime \<times> 'w"

definition add_callback_state :: "'w host \<Rightarrow> string \<Rightarrow> string \<Rightarrow> bool \<Rightarrow> 'w operation" where
  "add_callback_state h name callback is_final s =
     apfst (rt_state_machine_update (\<lambda>sm.
       snd (polycall_sm_add_state (h_time h (snd s)) (Some name) (h_code h callback) 0 is_final sm))) s"

definition cmd_init :: "'w host \<Rightarrow> 'w command" where
  "cmd_init h arg s =
     (if rt_state_machine (fst s) \<noteq> None
      then (False, say h (''State machine already initialized'' @ endl) s)
      else let (memory, w) = h_calloc h (snd s);
               ctx = (case rt_pc_ctx (fst s) of None \<Rightarrow> 0 | Some (p, _) \<Rightarrow> p)
           in case polycall_sm_create_with_integrity memory (h_time h w) ctx True None of
                (SM_SUCCESS, sm) \<Rightarrow>
                  (True, say h (''State machine initialized successfully'' @ endl)
                    (add_callback_state h ''ERROR'' ''on_error'' True
                    (add_callback_state h ''PAUSED'' ''on_paused'' False
                    (add_callback_state h ''RUNNING'' ''on_running'' False
                    (add_callback_state h ''READY'' ''on_ready'' False
                    (add_callback_state h ''INIT'' ''on_init'' False
                       ((fst s)\<lparr>rt_state_machine := sm\<rparr>, w)))))))
              | _ \<Rightarrow> (False, say h (''Failed to initialize state machine'' @ endl) (fst s, w)))"

definition cmd_quit :: "'w host \<Rightarrow> 'w command" where
  "cmd_quit h arg s = (True, apfst (rt_running_update (\<lambda>_. False)) s)"

definition cmd_add_state :: "'w host \<Rightarrow> 'w command" where
  "cmd_add_state h name s =
     (case rt_state_machine (fst s) of
        None \<Rightarrow> (False, say h (''State machine not initialized. Use '' @ quote ''init'' @ '' first.'' @ endl) s)
      | Some m \<Rightarrow>
          (case name of None \<Rightarrow> (False, s)
           | Some nm \<Rightarrow>
               (case polycall_sm_add_state (h_time h (snd s)) (Some nm) 0 0 False (Some m) of
                  (status, sm) \<Rightarrow>
                    let s = ((fst s)\<lparr>rt_state_machine := sm\<rparr>, snd s)
                    in if status = SM_SUCCESS
                       then (True, say h (''State '' @ quote nm @ '' added successfully'' @ endl) s)
                       else (False, say h (''Failed to add state'' @ endl) s))))"

definition help_text :: string where
  "help_text =
     endl @ ''PolyCall CLI Commands:'' @ endl @
     ''Network Commands:'' @ endl @
     ''  start_network          - Start network services'' @ endl @
     ''  stop_network           - Stop network services'' @ endl @
     ''  list_endpoints         - List all network endpoints'' @ endl @
     ''  list_clients          - List connected clients'' @ endl @
     endl @ ''State Machine Commands:'' @ endl @
     ''  init                  - Initialize the state machine'' @ endl @
     ''  add_state NAME        - Add a new state'' @ endl @
     ''  add_transition NAME FROM TO - Add a transition'' @ endl @
     ''  execute NAME          - Execute a transition'' @ endl @
     endl @ ''Miscellaneous Commands:'' @ endl @
     ''  help                - Show this help message'' @ endl @
     ''  quit                - Exit the program'' @ endl"

definition cmd_help :: "'w host \<Rightarrow> 'w command" where
  "cmd_help h arg s = (True, say h help_text s)"

text \<open>The command table: name, handler and usage.\<close>

definition COMMANDS :: "'w host \<Rightarrow> (string \<times> 'w command \<times> string) list" where
  "COMMANDS h =
     [(''init'', cmd_init h, ''init''),
      (''add_state'', cmd_add_state h, ''add_state NAME''),
      (''help'', cmd_help h, ''help''),
      (''quit'', cmd_quit h, ''quit'')]"

text \<open>
  \<open>strtok(s, " ")\<close>: the first word and what a further call goes on with; and what the
  buffer holds afterwards as a string, the blank behind the word being overwritten.
\<close>

definition strtok :: "string \<Rightarrow> string option \<times> string" where
  "strtok s =
     (let t = dropWhile (\<lambda>c. c = CHR '' '') s
      in if t = [] then (None, [])
         else (Some (takeWhile (\<lambda>c. c \<noteq> CHR '' '') t), drop 1 (dropWhile (\<lambda>c. c \<noteq> CHR '' '') t)))"

definition after_strtok :: "string \<Rightarrow> string" where
  "after_strtok s = takeWhile (\<lambda>c. c = CHR '' '') s @
     takeWhile (\<lambda>c. c \<noteq> CHR '' '') (dropWhile (\<lambda>c. c = CHR '' '') s)"

definition process_command :: "'w host \<Rightarrow> string \<Rightarrow> 'w operation" where
  "process_command h input s =
     (let (cmd, rest) = strtok input; (arg1, rest) = strtok rest
      in case cmd of None \<Rightarrow> s
         | Some c \<Rightarrow>
             (case List.find (\<lambda>e. fst e = c) (COMMANDS h) of
                Some (name, handler, usage) \<Rightarrow>
                  (case handler arg1 s of
                     (ok, s) \<Rightarrow> if ok then s else say h (''Usage: '' @ usage @ endl) s)
              | None \<Rightarrow> say h (''Unknown command. Type '' @ quote ''help'' @ '' for available commands'' @ endl) s))"

text \<open>The last ten commands, in buffers of 256 bytes.\<close>

definition history_entry :: "string \<Rightarrow> string \<Rightarrow> string" where
  "history_entry old command =
     (let c = take (MAX_INPUT - 1) (cstr command) in c @ [NUL] @ drop (Suc (length c)) old)"

definition add_to_history :: "string \<Rightarrow> 'w runtime \<Rightarrow> 'w runtime" where
  "add_to_history command rt =
     (let n = rt_history_count rt in
      if n < HISTORY_SIZE
      then rt\<lparr>rt_history := (rt_history rt)[n := history_entry (rt_history rt ! n) command],
              rt_history_count := n + 1\<rparr>
      else let moved = tl (rt_history rt) @ [last (rt_history rt)]
           in rt\<lparr>rt_history := moved[HISTORY_SIZE - 1 := history_entry (last moved) command]\<rparr>)"

end
