(* ===== verification/Runtime_Main.thy ===== *)
theory Runtime_Main
  imports Runtime
begin

text \<open>
  The rest of \<open>src/main.c\<close>: what the program lists, starting and stopping network programs,
  start and end of the runtime, the interactive prompt, and \<open>main\<close>. A write behind an array
  is undefined, as is \<open>strcmp\<close> on NULL. The event loop is a partial function: \<open>None\<close> is a
  loop that has no end, or a turn that blocks.
\<close>

section \<open>Listings\<close>

text \<open>\<open>printf\<close> for every index from \<open>0\<close> to \<open>n - 1\<close>.\<close>

definition say_all :: "'w host \<Rightarrow> (nat \<Rightarrow> string) \<Rightarrow> nat \<Rightarrow> 'a \<times> 'w \<Rightarrow> 'a \<times> 'w" where
  "say_all h line n s = fold (\<lambda>i. say h (line i @ endl)) [0..<n] s"

definition state_line :: "state_machine \<Rightarrow> nat \<Rightarrow> string" where
  "state_line m i = ''  '' @ show_nat i @ '': '' @ cstr (st_name (sm_states m ! i)) @ '' (locked: '' @
     (if st_is_locked (sm_states m ! i) then ''yes'' else ''no'') @ '')''"

definition list_states :: "'w host \<Rightarrow> 'w operation" where
  "list_states h s =
     (case rt_state_machine (fst s) of
        None \<Rightarrow> say h (''State machine not initialized'' @ endl) s
      | Some m \<Rightarrow> say_all h (state_line m) (unat (sm_num_states m)) (say h (endl @ ''States:'' @ endl) s))"

definition transition_line :: "state_machine \<Rightarrow> nat \<Rightarrow> string" where
  "transition_line m i = ''  '' @ cstr (tr_name (sm_transitions m ! i)) @ '': '' @
     show_word (tr_from_state (sm_transitions m ! i)) @ '' -> '' @ show_word (tr_to_state (sm_transitions m ! i))"

definition list_transitions :: "'w host \<Rightarrow> 'w operation" where
  "list_transitions h s =
     (case rt_state_machine (fst s) of
        None \<Rightarrow> say h (''State machine not initialized'' @ endl) s
      | Some m \<Rightarrow> say_all h (transition_line m) (unat (sm_num_transitions m)) (say h (endl @ ''Transitions:'' @ endl) s))"

definition history_line :: "'w runtime \<Rightarrow> nat \<Rightarrow> string" where
  "history_line rt i = ''  '' @ show_nat (i + 1) @ '': '' @ cstr (rt_history rt ! i)"

definition show_history :: "'w host \<Rightarrow> 'w operation" where
  "show_history h s = say_all h (history_line (fst s)) (rt_history_count (fst s))
     (say h (endl @ ''Command History:'' @ endl) s)"

definition endpoint_line :: "network_endpoint list \<Rightarrow> nat \<Rightarrow> string" where
  "endpoint_line eps j = ''  Endpoint '' @ show_nat j @ '': '' @ peer (eps ! j) @ '' ('' @
     (if ep_protocol (eps ! j) = NET_TCP then ''TCP'' else ''UDP'') @ '')''"

definition list_program_endpoints :: "'w host \<Rightarrow> nat \<Rightarrow> 'w operation" where
  "list_program_endpoints h i s =
     (case rt_programs (fst s) ! i of None \<Rightarrow> s
      | Some p \<Rightarrow> (case np_endpoints p of None \<Rightarrow> s
          | Some eps \<Rightarrow> say_all h (endpoint_line eps) (np_count p)
              (say h (endl @ ''Program '' @ show_nat i @ '' Endpoints:'' @ endl) s)))"

definition list_endpoints :: "'w host \<Rightarrow> 'w operation" where
  "list_endpoints h s = fold (list_program_endpoints h) [0..<rt_program_count (fst s)] s"

definition client_line :: "'w host \<Rightarrow> nat \<Rightarrow> 'w network_program \<times> 'w \<Rightarrow> ('w network_program \<times> 'w) run" where
  "client_line h j = holding_slot j (\<lambda>(p, w).
     returns (p, if cl_active (slot j (p, w))
                 then h_print h (''  Client '' @ show_nat j @ '': Connected'' @ endl) w else w))"

definition list_program_clients :: "'w host \<Rightarrow> nat \<Rightarrow> 'w runtime \<times> 'w \<Rightarrow> ('w runtime \<times> 'w) run" where
  "list_program_clients h i s =
     (case rt_programs (fst s) ! i of None \<Rightarrow> returns s
      | Some p \<Rightarrow>
          run_then (holding_table (fold_run (client_line h) [0..<NET_MAX_CLIENTS])
              (p, snd (say h (endl @ ''Program '' @ show_nat i @ '' Clients:'' @ endl) s)))
            (\<lambda>(q, w). returns ((fst s)\<lparr>rt_programs := (rt_programs (fst s))[i := Some q]\<rparr>, w)))"

definition list_clients :: "'w host \<Rightarrow> 'w runtime \<times> 'w \<Rightarrow> ('w runtime \<times> 'w) run" where
  "list_clients h s = fold_run (list_program_clients h) [0..<rt_program_count (fst s)] s"

definition show_status :: "'w host \<Rightarrow> 'w runtime \<times> 'w \<Rightarrow> ('w runtime \<times> 'w) run" where
  "show_status h s =
     (let rt = fst s;
          s = say h (endl @ ''System Status:'' @ endl) s;
          s = say h (''  State Machine: '' @ (if rt_state_machine rt \<noteq> None then ''Initialized'' else ''Not initialized'') @ endl) s;
          s = say h (''  Network Programs: '' @ show_nat (rt_program_count rt) @ endl) s;
          s = say h (''  Running: '' @ (if rt_running rt then ''Yes'' else ''No'') @ endl) s;
          s = (case rt_state_machine rt of None \<Rightarrow> s
               | Some m \<Rightarrow> say h (''  Current State: '' @ show_word (sm_current_state m) @ endl) s)
      in list_clients h (list_endpoints h s))"


section \<open>Network programs\<close>

definition configure_network_port :: "'w network_program option \<Rightarrow> u16 \<Rightarrow> bool \<times> 'w network_program option" where
  "configure_network_port program port =
     (case program of None \<Rightarrow> (False, None)
      | Some p \<Rightarrow>
          (case np_endpoints p of
             Some (ep # eps) \<Rightarrow>
               if np_count p = 0 then (False, program)
               else (True, Some (p\<lparr>np_endpoints := Some (ep\<lparr>ep_port := port\<rparr> # eps)\<rparr>))
           | _ \<Rightarrow> (False, program)))"

text \<open>\<open>g_runtime.programs[g_runtime.program_count++] = program;\<close> the array has eight elements.\<close>

definition store_program :: "'w network_program \<Rightarrow> 'w runtime \<Rightarrow> 'w runtime option" where
  "store_program p rt =
     (if rt_program_count rt < MAX_PROGRAMS
      then Some (rt\<lparr>rt_programs := (rt_programs rt)[rt_program_count rt := Some p],
                    rt_program_count := rt_program_count rt + 1\<rparr>)
      else None)"

text \<open>A program is allocated and started, given handlers and adjusted; if that fails it is freed.\<close>

datatype launched = No_Memory | Not_Started | Started

definition launch ::
  "'w host \<Rightarrow> ('w network_program \<Rightarrow> 'w network_program) \<Rightarrow> 'w runtime \<times> 'w
   \<Rightarrow> (launched \<times> 'w runtime \<times> 'w) run" where
  "launch h adjust s =
     (let (memory, w) = h_calloc h (snd s)
      in if \<not> memory then returns (No_Memory, fst s, w)
         else let (endpoint_memory, w) = h_calloc h w
              in run_then (net_init_program (h_sockets h) endpoint_memory (Some zero_program) w) (\<lambda>(program, w).
                 need program (\<lambda>p.
                   if np_endpoints p \<noteq> None \<and> np_count p > 0
                   then need (store_program (adjust (p\<lparr>np_handlers := runtime_handlers h\<rparr>)) (fst s)) (\<lambda>rt.
                          returns (Started, rt, w))
                   else returns (Not_Started, fst s, w))))"

definition set_port :: "u16 \<Rightarrow> 'w network_program \<Rightarrow> 'w network_program" where
  "set_port port p = the (snd (configure_network_port (Some p) port))"

text \<open>The command \<open>start_network\<close>.\<close>

definition start_network :: "'w host \<Rightarrow> 'w runtime \<times> 'w \<Rightarrow> ('w runtime \<times> 'w) run" where
  "start_network h s =
     run_then (launch h (\<lambda>p. p) s) (\<lambda>(r, s). returns
       (case r of No_Memory \<Rightarrow> s
        | Not_Started \<Rightarrow> say h (''Failed to start network services'' @ endl) s
        | Started \<Rightarrow> say h (''Network services started'' @ endl) s))"

definition stop_program :: "'w host \<Rightarrow> nat \<Rightarrow> 'w runtime \<times> 'w \<Rightarrow> ('w runtime \<times> 'w) run" where
  "stop_program h i s =
     (case rt_programs (fst s) ! i of None \<Rightarrow> returns s
      | Some p \<Rightarrow> run_then (net_cleanup_program (h_sockets h) (Some p) (snd s)) (\<lambda>(q, w).
          returns ((fst s)\<lparr>rt_programs := (rt_programs (fst s))[i := None]\<rparr>, w)))"

definition stop_network :: "'w host \<Rightarrow> 'w runtime \<times> 'w \<Rightarrow> ('w runtime \<times> 'w) run" where
  "stop_network h s =
     run_then (fold_run (stop_program h) [0..<rt_program_count (fst s)] s) (\<lambda>(rt, w).
       returns (say h (''Network services stopped'' @ endl) (rt\<lparr>rt_program_count := 0\<rparr>, w)))"


section \<open>Start and end of the runtime\<close>

definition runtime_config :: polycall_config where
  "runtime_config = \<lparr>cfg_flags = 0, cfg_memory_pool_size = 1024 * 1024, cfg_user_data = 0\<rparr>"

definition initialize_runtime :: "'w host \<Rightarrow> 'w runtime \<times> 'w \<Rightarrow> bool \<times> 'w runtime \<times> 'w" where
  "initialize_runtime h s =
     (let (block, w) = h_malloc h (snd s)
      in case polycall_init_with_config block True (Some runtime_config) of
           (POLYCALL_SUCCESS, ctx) \<Rightarrow>
             (True, (fst s)\<lparr>rt_pc_ctx := ctx, rt_state_machine := None, rt_running := True\<rparr>, w)
         | _ \<Rightarrow> (False, say h (''Failed to initialize PolyCall context'' @ endl) (fst s, w)))"

definition cleanup_directory_control :: "'w host \<Rightarrow> 'w operation" where
  "cleanup_directory_control h s =
     ((fst s)\<lparr>rt_current_dir := None, rt_dir_initialized := False\<rparr>,
      if rt_current_dir (fst s) \<noteq> None then h_closedir h (snd s) else snd s)"

definition cleanup_runtime :: "'w host \<Rightarrow> 'w runtime \<times> 'w \<Rightarrow> ('w runtime \<times> 'w) run" where
  "cleanup_runtime h s =
     run_then (fold_run (stop_program h) [0..<rt_program_count (fst s)] (cleanup_directory_control h s)) (\<lambda>(rt, w).
       returns (rt\<lparr>rt_state_machine := polycall_sm_destroy (rt_state_machine rt), rt_pc_ctx := None\<rparr>, w))"

text \<open>What \<open>SIGINT\<close> and \<open>SIGTERM\<close> do: the result is the exit code.\<close>

definition signal_handler :: "'w host \<Rightarrow> 'w runtime \<times> 'w \<Rightarrow> (int \<times> 'w runtime \<times> 'w) run" where
  "signal_handler h s =
     run_then (cleanup_runtime h s) (\<lambda>s. returns (0, say h (''Goodbye!'' @ endl) s))"


section \<open>The prompt\<close>

definition add_state_line :: "'w host \<Rightarrow> string option \<Rightarrow> 'w operation" where
  "add_state_line h arg1 s =
     (case rt_state_machine (fst s) of
        None \<Rightarrow> say h (''State machine not initialized'' @ endl) s
      | Some m \<Rightarrow>
          (case arg1 of None \<Rightarrow> say h (''Usage: add_state NAME'' @ endl) s
           | Some nm \<Rightarrow>
               (case polycall_sm_add_state (h_time h (snd s)) (Some nm) 0 0 False (Some m) of
                  (status, sm) \<Rightarrow>
                    let s = ((fst s)\<lparr>rt_state_machine := sm\<rparr>, snd s)
                    in if status = SM_SUCCESS
                       then say h (''State '' @ quote nm @ '' added successfully'' @ endl) s
                       else say h (''Failed to add state '' @ quote nm @ endl) s)))"

definition dispatch :: "'w host \<Rightarrow> string \<Rightarrow> string option \<Rightarrow> string \<Rightarrow> 'w runtime \<times> 'w \<Rightarrow> ('w runtime \<times> 'w) run" where
  "dispatch h command arg1 input s =
     (if command = ''start_network'' then start_network h s
      else if command = ''stop_network'' then stop_network h s
      else if command = ''list_endpoints'' then returns (list_endpoints h s)
      else if command = ''list_clients'' then list_clients h s
      else if command = ''list_states'' then returns (list_states h s)
      else if command = ''list_transitions'' then returns (list_transitions h s)
      else if command = ''history'' then returns (show_history h s)
      else if command = ''status'' then show_status h s
      else if command = ''add_state'' then returns (add_state_line h arg1 s)
      else returns (process_command h input s))"

text \<open>One line from the prompt, as \<open>fgets\<close> delivers it.\<close>

definition prompt_line :: "'w host \<Rightarrow> string \<Rightarrow> 'w runtime \<times> 'w \<Rightarrow> ('w runtime \<times> 'w) run" where
  "prompt_line h chunk s =
     (let input = takeWhile (\<lambda>c. c \<noteq> CHR 0x0A) (cstr chunk)
      in if input = [] then returns s
         else let (command, rest) = strtok input; (arg1, rest) = strtok rest;
                  input = after_strtok input;
                  s = apfst (add_to_history input) s
              in need command (\<lambda>c. dispatch h c arg1 input s))"

function prompt_loop :: "'w host \<Rightarrow> string \<Rightarrow> 'w runtime \<times> 'w \<Rightarrow> ('w runtime \<times> 'w) run" where
  "prompt_loop h stdin s =
     (if \<not> rt_running (fst s) then returns s
      else case fgets (MAX_INPUT - 1) False stdin of
             None \<Rightarrow> returns (say h (endl @ ''> '') s)
           | Some (chunk, rest, at_end) \<Rightarrow>
               run_then (prompt_line h chunk (say h (endl @ ''> '') s)) (prompt_loop h rest))"
  by pat_completeness auto

termination
  by (relation "measure (\<lambda>(_, stdin, _). length stdin)") (auto dest!: fgets_progress simp: MAX_INPUT_def)

declare prompt_loop.simps [simp del]


section \<open>The configuration file of the option -f\<close>

text \<open>\<open>%hu\<close>: a number as \<open>strtoul\<close> reads it, cut to 16 bits.\<close>

definition scan_short :: "string \<Rightarrow> (u16 \<times> string) option" where
  "scan_short s =
     (case strtoul10 s of (v, rest, overflow) \<Rightarrow>
        if length rest < length s then Some (ucast v, rest) else None)"

text \<open>\<open>%hu:%hu\<close>: the numbers assigned before the first failure.\<close>

definition scan_ports :: "string \<Rightarrow> u16 list" where
  "scan_ports s =
     (case scan_short s of None \<Rightarrow> []
      | Some (a, rest) \<Rightarrow>
          (case rest of c # r \<Rightarrow>
             if c = CHR '':'' then (case scan_short r of None \<Rightarrow> [a] | Some (b, _) \<Rightarrow> [a, b]) else [a]
           | [] \<Rightarrow> [a]))"

definition strip_newline :: "string \<Rightarrow> string" where
  "strip_newline s = rev (dropWhile (\<lambda>c. c = CHR 0x0A \<or> c = CHR 0x0D) (rev s))"

record file_mode =
  fm_started :: bool
  fm_port :: u16

definition file_line :: "'w host \<Rightarrow> string \<Rightarrow> file_mode \<times> 'w runtime \<times> 'w \<Rightarrow> (file_mode \<times> 'w runtime \<times> 'w) run" where
  "file_line h chunk ms =
     (let trimmed = strip_newline (cstr chunk); (m, s) = ms
      in if trimmed = [] \<or> hd trimmed = CHR ''#'' then returns (m, s)
         else case scan_words [31, 255] trimmed of
                [cmd, value] \<Rightarrow>
                  if cmd = ''port'' then
                    (case scan_ports value of [_, container] \<Rightarrow> returns (m\<lparr>fm_port := container\<rparr>, s) | _ \<Rightarrow> returns (m, s))
                  else if cmd = ''network'' \<and> value = ''start'' then
                    run_then (launch h (set_port (fm_port m)) s) (\<lambda>(r, s).
                      case r of No_Memory \<Rightarrow> returns (m, s)
                      | Not_Started \<Rightarrow> returns (m, say h (''Failed to start network services'' @ endl) s)
                      | Started \<Rightarrow> returns (m\<lparr>fm_started := True\<rparr>,
                          say h (''Network services started on port '' @ show_word (fm_port m) @ endl) s))
                  else returns (m, s)
              | _ \<Rightarrow> returns (m, s))"

function file_lines_loop :: "'w host \<Rightarrow> bool \<Rightarrow> string \<Rightarrow> file_mode \<times> 'w runtime \<times> 'w \<Rightarrow> (file_mode \<times> 'w runtime \<times> 'w) run" where
  "file_lines_loop h broken content ms =
     (case fgets (MAX_INPUT - 1) broken content of None \<Rightarrow> returns ms
      | Some (chunk, rest, at_end) \<Rightarrow> run_then (file_line h chunk ms) (file_lines_loop h broken rest))"
  by pat_completeness auto

termination
  by (relation "measure (\<lambda>(_, _, content, _). length content)") (auto dest!: fgets_progress simp: MAX_INPUT_def)

declare file_lines_loop.simps [simp del]

text \<open>One pass over the programs, and the loop around it.\<close>

definition run_program :: "'w host \<Rightarrow> u16 \<Rightarrow> nat \<Rightarrow> 'w runtime \<times> 'w \<Rightarrow> ('w runtime \<times> 'w) run" where
  "run_program h port i s =
     (case configure_network_port (rt_programs (fst s) ! i) port of
        (configured, program) \<Rightarrow>
          if configured
          then run_then (net_run (h_sockets h) program (snd s)) (\<lambda>(q, w).
                 returns ((fst s)\<lparr>rt_programs := (rt_programs (fst s))[i := q]\<rparr>, w))
          else returns s)"

definition event_pass :: "'w host \<Rightarrow> u16 \<Rightarrow> 'w runtime \<times> 'w \<Rightarrow> ('w runtime \<times> 'w) run" where
  "event_pass h port s =
     run_then (fold_run (run_program h port) [0..<rt_program_count (fst s)] s) (\<lambda>(rt, w).
       returns (rt, os_usleep (h_sockets h) 1000 w))"

partial_function (option) event_loop :: "'w host \<Rightarrow> u16 \<Rightarrow> 'w runtime \<times> 'w \<Rightarrow> ('w runtime \<times> 'w) run" where
  "event_loop h port s =
     (if \<not> rt_running (fst s) then returns s
      else case event_pass h port s of None \<Rightarrow> None
           | Some Undefined \<Rightarrow> Some Undefined
           | Some (Returned s') \<Rightarrow> event_loop h port s')"

definition run_file :: "'w host \<Rightarrow> bool \<Rightarrow> string \<Rightarrow> 'w runtime \<times> 'w \<Rightarrow> (int \<times> 'w runtime \<times> 'w) run" where
  "run_file h broken content s =
     run_then (file_lines_loop h broken content (\<lparr>fm_started = False, fm_port = 8080\<rparr>, s)) (\<lambda>(m, s).
       let s = (if fm_started m then s else say h (''Warning: No network services were started'' @ endl) s);
           s = say h (''Running in non-interactive mode...'' @ endl) s;
           s = apfst (rt_running_update (\<lambda>_. True)) s
       in run_then (event_loop h (fm_port m) s) (\<lambda>s.
          run_then (cleanup_runtime h s) (\<lambda>s. returns (0, say h (''Goodbye!'' @ endl) s))))"


section \<open>The main function\<close>

text \<open>The file named by the last \<open>-f\<close> that is followed by an argument.\<close>

fun config_argument :: "string list \<Rightarrow> string option \<Rightarrow> string option" where
  "config_argument (a # b # args) found =
     (if a = ''-f'' then config_argument args (Some b) else config_argument (b # args) found)"
| "config_argument _ found = found"

definition polycall_main ::
  "'w host \<Rightarrow> output_device \<Rightarrow> file_system \<Rightarrow> string list \<Rightarrow> string \<Rightarrow> 'w
   \<Rightarrow> (int \<times> file_system \<times> 'w runtime \<times> 'w) run" where
  "polycall_main h dev fs argv stdin w =
     (case polycall_config_cli dev argv fs of (config_result, text, fs) \<Rightarrow>
        if config_result \<ge> 0 then returns (config_result, fs, say h text (zero_runtime, w))
        else case initialize_runtime h (zero_runtime, w) of (ok, s) \<Rightarrow>
          if \<not> ok then returns (1, fs, say h (''Failed to initialize runtime'' @ endl) s)
          else run_then (case config_argument (tl argv) None of
              Some path \<Rightarrow>
                (case fopen_read fs path of
                   None \<Rightarrow> run_then (cleanup_runtime h (say h (''Failed to open config file: '' @ path @ endl) s))
                             (\<lambda>s. returns (1, s))
                 | Some f \<Rightarrow> run_file h (fl_broken f) (fl_content f) s)
            | None \<Rightarrow>
                run_then (prompt_loop h stdin (say h (''PolyCall CLI v'' @ PPI_VERSION @ '' - Type '' @
                    quote ''help'' @ '' for commands'' @ endl) s)) (\<lambda>s.
                run_then (cleanup_runtime h s) (\<lambda>s. returns (0, say h (''Goodbye!'' @ endl) s))))
            (\<lambda>(code, s). returns (code, fs, s)))"

end
