(* ===== verification/Runtime_Ports.thy ===== *)
theory Runtime_Ports
  imports Runtime_Main
begin

text \<open>
  Port mappings and service directories of \<open>src/main.c\<close>: the function
  \<open>polycall_init_with_directory\<close>, for use from outside, maps the ports a configuration file
  and the directories of services name, and starts a network program for each.
\<close>

section \<open>Port mappings\<close>

definition validate_port_mapping :: "port_mapping \<Rightarrow> bool" where
  "validate_port_mapping m \<longleftrightarrow> pm_host m > 0 \<and> pm_container m > 0"

definition is_port_available :: "'w runtime \<Rightarrow> u16 \<Rightarrow> bool" where
  "is_port_available rt port =
     list_all (\<lambda>m. \<not> (pm_active m \<and> (pm_host m = port \<or> pm_container m = port)))
       (take (rt_mapping_count rt) (rt_mappings rt))"

text \<open>\<open>snprintf\<close> into 512 bytes.\<close>

definition service_path :: "string \<Rightarrow> string \<Rightarrow> string" where
  "service_path base name = take 511 (base @ ''/'' @ name)"

definition record_mapping :: "u16 \<Rightarrow> u16 \<Rightarrow> 'w runtime \<Rightarrow> 'w runtime" where
  "record_mapping host container rt =
     rt\<lparr>rt_mappings := (rt_mappings rt)[rt_mapping_count rt :=
          \<lparr>pm_host = host, pm_container = container, pm_active = True\<rparr>],
        rt_mapping_count := rt_mapping_count rt + 1\<rparr>"

definition drop_mapping :: "'w runtime \<Rightarrow> 'w runtime" where
  "drop_mapping rt = rt\<lparr>rt_mapping_count := rt_mapping_count rt - 1\<rparr>"

definition add_port_mapping ::
  "'w host \<Rightarrow> string \<Rightarrow> u16 \<Rightarrow> u16 \<Rightarrow> 'w runtime \<times> 'w \<Rightarrow> (bool \<times> 'w runtime \<times> 'w) run" where
  "add_port_mapping h service_name host container s =
     (let (rt, w) = s; path = service_path (rt_base_path rt) service_name in
      if \<not> validate_port_mapping \<lparr>pm_host = host, pm_container = container, pm_active = True\<rparr>
      then returns (False, s)
      else if rt_mapping_count rt \<ge> MAX_PORTS
      then returns (False, say h (''Maximum number of port mappings reached'' @ endl) s)
      else if \<not> is_port_available rt host \<or> \<not> is_port_available rt container
      then returns (False, say h (''Port conflict detected'' @ endl) s)
      else let (made, w) = (if h_stat h path w = None then h_mkdir h path w else (True, w))
      in if \<not> made then returns (False, say h (''Failed to create service directory'' @ endl) (rt, w))
         else run_then (launch h (set_port container) (record_mapping host container rt, w)) (\<lambda>(r, s).
           case r of Started \<Rightarrow>
               returns (True, say h (''Mapped port '' @ show_word host @ '' to '' @ show_word container @
                 '' for service '' @ service_name @ endl) s)
           | _ \<Rightarrow> returns (False, apfst drop_mapping s)))"


section \<open>Directories\<close>

definition init_directory_control :: "'w host \<Rightarrow> string option \<Rightarrow> 'w runtime \<times> 'w \<Rightarrow> bool \<times> 'w runtime \<times> 'w" where
  "init_directory_control h base_path s =
     (case base_path of None \<Rightarrow> (False, say h (''Invalid base path'' @ endl) s)
      | Some path \<Rightarrow>
          (case h_stat h path (snd s) of
             None \<Rightarrow> (False, say h (''Invalid base path'' @ endl) s)
           | Some Other_File \<Rightarrow> (False, say h (''Not a directory: '' @ path @ endl) s)
           | Some Directory \<Rightarrow>
               let (names, w) = h_opendir h path (snd s)
               in (names \<noteq> None, (fst s)\<lparr>rt_base_path := take 255 path, rt_current_dir := names,
                     rt_dir_initialized := (names \<noteq> None)\<rparr>, w)))"

text \<open>The ports of the first line that begins with \<open>port=\<close>, on top of the given ones.\<close>

function service_ports :: "string \<Rightarrow> u16 \<times> u16 \<Rightarrow> u16 \<times> u16" where
  "service_ports content ports =
     (case fgets 255 False content of None \<Rightarrow> ports
      | Some (chunk, rest, at_end) \<Rightarrow>
          if take 5 (cstr chunk) = ''port=''
          then (case scan_ports (drop 5 (cstr chunk)) of
                  [] \<Rightarrow> ports | [a] \<Rightarrow> (a, snd ports) | a # b # _ \<Rightarrow> (a, b))
          else service_ports rest ports)"
  by pat_completeness auto

termination
  by (relation "measure (\<lambda>(content, _). length content)") (auto dest!: fgets_progress)

declare service_ports.simps [simp del]

definition config_path :: "string \<Rightarrow> string \<Rightarrow> string" where
  "config_path base name = base @ ''/'' @ name @ ''/.polycallrc''"

text \<open>One name of the directory; the count is of the services found so far.\<close>

definition discover_entry ::
  "'w host \<Rightarrow> string \<Rightarrow> nat \<times> 'w runtime \<times> 'w \<Rightarrow> (nat \<times> 'w runtime \<times> 'w) run" where
  "discover_entry h name ns =
     (let (found, s) = ns; base = rt_base_path (fst s); path = config_path base name
      in if name = ''.'' \<or> name = ''..'' then returns ns
         else if h_stat h (take 599 (base @ ''/'' @ name)) (snd s) \<noteq> Some Directory then returns ns
         else if length path \<ge> 600 then returns (found, say h (''Path too long for service: '' @ name @ endl) s)
         else (case h_open h path (snd s) of None \<Rightarrow> returns ns
               | Some content \<Rightarrow>
                   (case service_ports content (of_nat (3000 + found), of_nat (8080 + found)) of (host, container) \<Rightarrow>
                      run_then (add_port_mapping h name host container s) (\<lambda>(added, s).
                        returns (if added then found + 1 else found, s)))))"

text \<open>\<open>readdir\<close> takes the names one after the other.\<close>

definition take_name :: "'w runtime \<Rightarrow> 'w runtime" where
  "take_name rt = rt\<lparr>rt_current_dir := map_option tl (rt_current_dir rt)\<rparr>"

definition discover_and_init_services :: "'w host \<Rightarrow> 'w runtime \<times> 'w \<Rightarrow> (bool \<times> 'w runtime \<times> 'w) run" where
  "discover_and_init_services h s =
     (let (names, w) = h_opendir h (rt_base_path (fst s)) (snd s); s = ((fst s)\<lparr>rt_current_dir := names\<rparr>, w)
      in case names of None \<Rightarrow> returns (False, s)
         | Some ns \<Rightarrow>
             run_then (fold_run (\<lambda>name. \<lambda>(found, s). discover_entry h name (found, apfst take_name s)) ns (0, s))
               (\<lambda>(found, s). returns (found > 0, (fst s)\<lparr>rt_current_dir := None\<rparr>, h_closedir h (snd s))))"

text \<open>\<open>server %31s %hu:%hu\<close>: the name and the ports, if all are there.\<close>

definition scan_server :: "string \<Rightarrow> (string \<times> u16 \<times> u16) option" where
  "scan_server line =
     (if take 6 line \<noteq> ''server'' then None
      else case scan_word 31 (drop 6 line) of None \<Rightarrow> None
           | Some (service, rest) \<Rightarrow>
               (case scan_ports rest of [host, container] \<Rightarrow> Some (service, host, container) | _ \<Rightarrow> None))"

definition config_line :: "'w host \<Rightarrow> string \<Rightarrow> 'w runtime \<times> 'w \<Rightarrow> ('w runtime \<times> 'w) run" where
  "config_line h line s =
     (if line \<noteq> [] \<and> (hd line = CHR ''#'' \<or> hd line = CHR 0x0A) then returns s
      else case scan_server line of None \<Rightarrow> returns s
           | Some (service, host, container) \<Rightarrow>
               run_then (add_port_mapping h service host container s) (\<lambda>(added, s). returns s))"

function config_lines :: "'w host \<Rightarrow> string \<Rightarrow> 'w runtime \<times> 'w \<Rightarrow> ('w runtime \<times> 'w) run" where
  "config_lines h content s =
     (case fgets 255 False content of None \<Rightarrow> returns s
      | Some (chunk, rest, at_end) \<Rightarrow> run_then (config_line h (cstr chunk) s) (config_lines h rest))"
  by pat_completeness auto

termination
  by (relation "measure (\<lambda>(_, content, _). length content)") (auto dest!: fgets_progress)

declare config_lines.simps [simp del]

definition process_config_file :: "'w host \<Rightarrow> string \<Rightarrow> 'w runtime \<times> 'w \<Rightarrow> (bool \<times> 'w runtime \<times> 'w) run" where
  "process_config_file h filename s =
     (case h_open h filename (snd s) of None \<Rightarrow> returns (False, s)
      | Some content \<Rightarrow> run_then (config_lines h content s) (\<lambda>s. returns (True, s)))"

definition polycall_init_with_directory ::
  "'w host \<Rightarrow> string option \<Rightarrow> string option \<Rightarrow> 'w runtime \<times> 'w \<Rightarrow> (bool \<times> 'w runtime \<times> 'w) run" where
  "polycall_init_with_directory h base_path config_file s =
     (case init_directory_control h base_path s of (ok, s) \<Rightarrow>
        if \<not> ok then returns (False, s)
        else run_then (case config_file of None \<Rightarrow> returns (True, s) | Some path \<Rightarrow> process_config_file h path s) (\<lambda>(read, s).
          let s = (if read then s else say h (''Warning: Failed to process config file'' @ endl) s)
          in run_then (discover_and_init_services h s) (\<lambda>(found, s).
             returns (True, if found then s else say h (''Warning: No services discovered'' @ endl) s))))"

end
