(* ===== verification/Runtime_Laws.thy ===== *)
theory Runtime_Laws
  imports Runtime_Ports Network_Session State_Machine_Invariant
begin

text \<open>
  What the operations of the command line program leave alone, the history as a list, the
  state machine the prompt can build, the table of programs and the port mappings.
\<close>

section \<open>Frames\<close>

lemma run_thenE:
  assumes "run_then r f = Some (Returned y)"
  obtains x where "r = Some (Returned x)" "f x = Some (Returned y)"
  using assms by (auto simp: run_then_Returned)

text \<open>Operations on network programs change the table of programs and nothing else.\<close>

definition only_programs :: "'w runtime \<Rightarrow> 'w runtime \<Rightarrow> bool" where
  "only_programs a b \<longleftrightarrow>
     rt_state_machine b = rt_state_machine a \<and> rt_history b = rt_history a \<and> rt_history_count b = rt_history_count a \<and>
     rt_mappings b = rt_mappings a \<and> rt_mapping_count b = rt_mapping_count a \<and> rt_running b = rt_running a \<and>
     rt_base_path b = rt_base_path a \<and> rt_pc_ctx b = rt_pc_ctx a \<and> rt_current_dir b = rt_current_dir a \<and>
     rt_dir_initialized b = rt_dir_initialized a"

lemma only_programs_refl [simp]: "only_programs rt rt"
  by (simp add: only_programs_def)

lemma only_programs_trans: "only_programs a b \<Longrightarrow> only_programs b c \<Longrightarrow> only_programs a c"
  by (simp add: only_programs_def)

lemma fst_say [simp]: "fst (say h t s) = fst s"
  by (simp add: say_def)

lemma fst_say_all [simp]: "fst (say_all h l n s) = fst s"
proof -
  have "fst (fold (\<lambda>i. say h (l i @ endl)) xs s) = fst s" for xs
    by (induction xs arbitrary: s) simp_all
  then show ?thesis by (simp add: say_all_def)
qed

lemma fst_lists [simp]:
  "fst (list_states h s) = fst s" "fst (list_transitions h s) = fst s" "fst (show_history h s) = fst s"
  by (simp_all add: list_states_def list_transitions_def show_history_def split: option.splits)

lemma fst_list_endpoints [simp]: "fst (list_endpoints h s) = fst s"
proof -
  have "fst (list_program_endpoints h i t) = fst t" for i t
    by (simp add: list_program_endpoints_def split: option.splits)
  then have "fst (fold (list_program_endpoints h) xs s) = fst s" for xs
    by (induction xs arbitrary: s) simp_all
  then show ?thesis by (simp add: list_endpoints_def)
qed

text \<open>A loop over programs, none of whose turns changes more than the table of programs.\<close>

lemma fold_run_only_programs:
  assumes "fold_run f xs s = Some (Returned s')"
    and "\<And>x s s'. f x s = Some (Returned s') \<Longrightarrow> only_programs (fst s) (fst s')"
  shows "only_programs (fst s) (fst s')"
  by (rule fold_run_invariant [OF assms(1), where P = "\<lambda>t. only_programs (fst s) (fst t)"])
     (auto intro: only_programs_trans assms(2))

lemma only_programs_update:
  "only_programs rt (rt\<lparr>rt_programs := ps\<rparr>)"
  "only_programs rt (rt\<lparr>rt_program_count := n\<rparr>)"
  by (simp_all add: only_programs_def)

lemma list_clients_frame:
  assumes "list_clients h s = Some (Returned s')"
  shows "only_programs (fst s) (fst s')"
  using assms unfolding list_clients_def
  by (rule fold_run_only_programs)
     (auto simp: list_program_clients_def run_then_Returned only_programs_update split: option.splits)

lemma show_status_frame:
  assumes "show_status h s = Some (Returned s')"
  shows "only_programs (fst s) (fst s')"
  using assms by (auto simp: show_status_def Let_def dest!: list_clients_frame split: option.splits)

lemma launch_frame:
  assumes "launch h adjust s = Some (Returned (r, s'))"
  shows "only_programs (fst s) (fst s')"
proof -
  have store: "store_program p rt = Some rt' \<Longrightarrow> only_programs rt rt'" for p and rt rt' :: "'a runtime"
    by (auto simp: store_program_def only_programs_def split: if_splits)
  from assms show ?thesis
    by (auto simp: launch_def Let_def run_then_Returned need_Returned split: prod.splits if_splits dest: store)
qed

lemma start_network_frame:
  "start_network h s = Some (Returned s') \<Longrightarrow> only_programs (fst s) (fst s')"
  by (auto simp: start_network_def run_then_Returned split: launched.splits dest!: launch_frame)
    (case_tac a; simp)

lemma stop_programs_frame:
  assumes "fold_run (stop_program h) xs s = Some (Returned s')"
  shows "only_programs (fst s) (fst s')"
  using assms
  by (rule fold_run_only_programs) (auto simp: stop_program_def run_then_Returned only_programs_update split: option.splits)

lemma stop_network_frame:
  assumes "stop_network h s = Some (Returned s')"
  shows "only_programs (fst s) (fst s')"
proof -
  from assms obtain rt w where "fold_run (stop_program h) [0..<rt_program_count (fst s)] s = Some (Returned (rt, w))"
      and s': "s' = say h (''Network services stopped'' @ endl) (rt\<lparr>rt_program_count := 0\<rparr>, w)"
    by (auto simp: stop_network_def run_then_Returned)
  from stop_programs_frame [OF this(1)] show ?thesis
    by (simp add: s' only_programs_def)
qed

lemma event_pass_frame:
  assumes "event_pass h port s = Some (Returned s')"
  shows "only_programs (fst s) (fst s')"
proof -
  from assms obtain rt w where "fold_run (run_program h port) [0..<rt_program_count (fst s)] s = Some (Returned (rt, w))"
      and s': "s' = (rt, os_usleep (h_sockets h) 1000 w)"
    by (auto simp: event_pass_def run_then_Returned)
  from this(1) have "only_programs (fst s) (fst (rt, w))"
    by (rule fold_run_only_programs)
       (auto simp: run_program_def run_then_Returned only_programs_update split: prod.splits if_splits)
  with s' show ?thesis by simp
qed

text \<open>The other commands change the state machine and whether the program runs.\<close>

definition only_machine :: "'w runtime \<Rightarrow> 'w runtime \<Rightarrow> bool" where
  "only_machine a b \<longleftrightarrow>
     rt_programs b = rt_programs a \<and> rt_program_count b = rt_program_count a \<and>
     rt_history b = rt_history a \<and> rt_history_count b = rt_history_count a \<and>
     rt_mappings b = rt_mappings a \<and> rt_mapping_count b = rt_mapping_count a \<and>
     rt_base_path b = rt_base_path a \<and> rt_pc_ctx b = rt_pc_ctx a \<and> rt_current_dir b = rt_current_dir a"

lemma only_machine_refl [simp]: "only_machine rt rt"
  by (simp add: only_machine_def)

lemma only_machine_sm [simp]: "only_machine rt (rt\<lparr>rt_state_machine := sm\<rparr>)"
  by (simp add: only_machine_def)

lemma add_state_line_frame: "only_machine (fst s) (fst (add_state_line h arg s))"
  by (auto simp: add_state_line_def Let_def split: option.splits prod.splits)


section \<open>The history\<close>

text \<open>The commands the history has, oldest first.\<close>

definition history_kept :: "'w runtime \<Rightarrow> string list" where
  "history_kept rt = map cstr (take (rt_history_count rt) (rt_history rt))"

definition history_ok :: "'w runtime \<Rightarrow> bool" where
  "history_ok rt \<longleftrightarrow> length (rt_history rt) = HISTORY_SIZE \<and> rt_history_count rt \<le> HISTORY_SIZE"

definition last_ten :: "'a list \<Rightarrow> 'a list" where
  "last_ten xs = drop (length xs - HISTORY_SIZE) xs"

lemma cstr_history_entry: "cstr (history_entry old c) = take 255 (cstr c)"
proof -
  have "\<forall>x \<in> set (take 255 (cstr c)). x \<noteq> NUL"
    by (auto simp: cstr_def dest!: in_set_takeD set_takeWhileD)
  then have "takeWhile (\<lambda>x. x \<noteq> NUL) (take 255 (cstr c) @ NUL # r) = take 255 (cstr c)" for r
    by (simp add: takeWhile_append2)
  then show ?thesis by (simp add: cstr_def history_entry_def Let_def MAX_INPUT_def)
qed

lemma add_to_history_ok: "history_ok rt \<Longrightarrow> history_ok (add_to_history c rt)"
  by (auto simp: history_ok_def add_to_history_def Let_def HISTORY_SIZE_def)

lemma history_kept_add:
  assumes "history_ok rt"
  shows "history_kept (add_to_history c rt) = last_ten (history_kept rt @ [take 255 (cstr c)])"
proof (cases "rt_history_count rt < HISTORY_SIZE")
  case True
  with assms have n: "rt_history_count rt < length (rt_history rt)" by (simp add: history_ok_def)
  have len: "length (history_kept rt) = rt_history_count rt" using n by (simp add: history_kept_def)
  from True have "last_ten (history_kept rt @ [x]) = history_kept rt @ [x]" for x
    by (simp add: last_ten_def len)
  with True n show ?thesis
    by (simp add: history_kept_def add_to_history_def Let_def take_Suc_conv_app_nth cstr_history_entry)
next
  case False
  with assms have full: "rt_history_count rt = 10" "length (rt_history rt) = 10"
    by (simp_all add: history_ok_def HISTORY_SIZE_def)
  then obtain x xs where xs: "rt_history rt = x # xs" "length xs = 9" by (cases "rt_history rt") auto
  then have "(xs @ [y])[9 := z] = xs @ [z]" for y z by (simp add: list_update_append)
  with False xs full show ?thesis
    by (simp add: history_kept_def add_to_history_def Let_def HISTORY_SIZE_def last_ten_def cstr_history_entry)
qed

lemma last_ten_append: "last_ten (last_ten xs @ ys) = last_ten (xs @ ys)"
proof (cases "length xs \<le> HISTORY_SIZE")
  case True
  then show ?thesis by (simp add: last_ten_def)
next
  case False
  define a where "a = take (length xs - HISTORY_SIZE) xs"
  define b where "b = drop (length xs - HISTORY_SIZE) xs"
  have "xs = a @ b" by (simp add: a_def b_def)
  moreover from False have "length b = HISTORY_SIZE" by (simp add: b_def)
  ultimately show ?thesis by (simp add: last_ten_def)
qed


section \<open>The state machine of the prompt\<close>

text \<open>A machine without transitions, in its first state.\<close>

definition idle :: "state_machine \<Rightarrow> bool" where
  "idle m \<longleftrightarrow> sm_wf m \<and> sm_num_transitions m = 0 \<and> sm_current_state m = 0"

lemma idle_add_state:
  "pred_option idle sm \<Longrightarrow> pred_option idle (snd (polycall_sm_add_state now name en ex fin sm))"
proof -
  assume i: "pred_option idle sm"
  then have wf: "pred_option sm_wf sm" by (cases sm) (auto simp: idle_def)
  have "pred_option (\<lambda>m. sm_num_transitions m = 0 \<and> sm_current_state m = 0)
      (snd (polycall_sm_add_state now name en ex fin sm))"
    using i unfolding polycall_sm_add_state_def
    by (cases sm) (auto simp: sm_guarded_def idle_def Let_def write_state_def split: option.splits)
  with sm_wf_add_state [OF wf, of now name en ex fin] show ?thesis
    by (cases "snd (polycall_sm_add_state now name en ex fin sm)") (auto simp: idle_def)
qed

lemma idle_create:
  assumes "polycall_sm_create_with_integrity memory now ctx b check = (st, sm)"
  shows "pred_option idle sm"
  using assms
  by (auto simp: polycall_sm_create_with_integrity_def idle_def sm_wf_def states_wf_def transitions_wf_def split: if_splits)

lemma add_callback_state_frame:
  "only_machine (fst s) (fst (add_callback_state h name cb fin s))"
  by (simp add: add_callback_state_def only_machine_def)

lemma add_callback_state_idle:
  "pred_option idle (rt_state_machine (fst s)) \<Longrightarrow> pred_option idle (rt_state_machine (fst (add_callback_state h name cb fin s)))"
  by (simp add: add_callback_state_def idle_add_state)

lemma only_machine_trans: "only_machine a b \<Longrightarrow> only_machine b c \<Longrightarrow> only_machine a c"
  by (simp add: only_machine_def)

lemma cmd_init_machine:
  "only_machine (fst s) (fst (snd (cmd_init h arg s))) \<and>
   (pred_option idle (rt_state_machine (fst s)) \<longrightarrow> pred_option idle (rt_state_machine (fst (snd (cmd_init h arg s)))))"
proof (cases "rt_state_machine (fst s)")
  case None
  obtain memory w where c: "h_calloc h (snd s) = (memory, w)" by (metis prod.collapse)
  obtain st sm where m: "polycall_sm_create_with_integrity memory (h_time h w)
      (case rt_pc_ctx (fst s) of None \<Rightarrow> 0 | Some (p, _) \<Rightarrow> p) True None = (st, sm)" by (metis prod.collapse)
  from idle_create [OF m] None show ?thesis
    by (cases st)
       (auto simp: cmd_init_def c m Let_def intro!: add_callback_state_idle only_machine_trans [OF _ add_callback_state_frame])
qed (simp add: cmd_init_def)

lemma process_command_machine:
  "only_machine (fst s) (fst (process_command h input s)) \<and>
   (pred_option idle (rt_state_machine (fst s)) \<longrightarrow> pred_option idle (rt_state_machine (fst (process_command h input s))))"
proof -
  have add: "only_machine (fst s) (fst (snd (cmd_add_state h arg s))) \<and>
     (pred_option idle (rt_state_machine (fst s)) \<longrightarrow> pred_option idle (rt_state_machine (fst (snd (cmd_add_state h arg s)))))" for arg
  proof (cases "rt_state_machine (fst s)")
    case (Some m)
    show ?thesis
    proof (cases arg)
      case (Some nm)
      obtain st sm where a: "polycall_sm_add_state (h_time h (snd s)) (Some nm) 0 0 False (Some m) = (st, sm)"
        by (metis prod.collapse)
      with idle_add_state [of "Some m" "h_time h (snd s)" "Some nm" 0 0 False] \<open>rt_state_machine (fst s) = Some m\<close> Some show ?thesis
        by (auto simp: cmd_add_state_def Let_def)
    qed (simp add: cmd_add_state_def Some)
  qed (simp add: cmd_add_state_def)
  have quit: "only_machine (fst s) (fst (snd (cmd_quit h arg s))) \<and>
      rt_state_machine (fst (snd (cmd_quit h arg s))) = rt_state_machine (fst s)" for arg
    by (simp add: cmd_quit_def only_machine_def)
  obtain cmd rest where t: "strtok input = (cmd, rest)" by (metis prod.collapse)
  obtain arg1 rest2 where t2: "strtok rest = (arg1, rest2)" by (metis prod.collapse)
  show ?thesis
  proof (cases cmd)
    case (Some c)
    consider "c = ''init''" | "c = ''add_state''" | "c = ''help''" | "c = ''quit''"
      | "c \<notin> {''init'', ''add_state'', ''help'', ''quit''}" by blast
    then show ?thesis
      using cmd_init_machine [of s h arg1] add [of arg1] quit [of arg1]
      by cases (auto simp: process_command_def t t2 Some COMMANDS_def cmd_help_def Let_def split: prod.splits if_splits)
  qed (simp add: process_command_def t t2)
qed

lemma add_state_line_idle:
  "pred_option idle (rt_state_machine (fst s)) \<Longrightarrow> pred_option idle (rt_state_machine (fst (add_state_line h arg s)))"
proof (cases "rt_state_machine (fst s)"; cases arg)
  fix m nm assume s: "pred_option idle (rt_state_machine (fst s))" "rt_state_machine (fst s) = Some m" "arg = Some nm"
  obtain st sm where a: "polycall_sm_add_state (h_time h (snd s)) (Some nm) 0 0 False (Some m) = (st, sm)"
    by (metis prod.collapse)
  with idle_add_state [of "Some m" "h_time h (snd s)" "Some nm" 0 0 False] s show ?thesis
    by (auto simp: add_state_line_def Let_def)
qed (auto simp: add_state_line_def)


section \<open>The table of programs\<close>

definition program_ok :: "'w network_program \<Rightarrow> bool" where
  "program_ok p \<longleftrightarrow> at_rest p \<and> np_count p = 1 \<and> (\<exists>ep. np_endpoints p = Some [ep] \<and> ep_lock ep = Unlocked)"

definition programs_ok :: "'w runtime \<Rightarrow> bool" where
  "programs_ok rt \<longleftrightarrow> length (rt_programs rt) = MAX_PROGRAMS \<and> rt_program_count rt \<le> MAX_PROGRAMS \<and>
     (\<forall>i < rt_program_count rt. \<exists>p. rt_programs rt ! i = Some p \<and> program_ok p)"

lemma programs_okD: "programs_ok rt \<Longrightarrow> i < rt_program_count rt \<Longrightarrow> \<exists>p. rt_programs rt ! i = Some p \<and> program_ok p"
  by (simp add: programs_ok_def)

lemma programs_ok_update:
  "programs_ok rt \<Longrightarrow> i < rt_program_count rt \<Longrightarrow> program_ok p \<Longrightarrow> programs_ok (rt\<lparr>rt_programs := (rt_programs rt)[i := Some p]\<rparr>)"
  by (auto simp: programs_ok_def nth_list_update)

lemma program_ok_admit: "program_ok p \<Longrightarrow> first_free i p \<Longrightarrow> program_ok (admit i fd addr p)"
  using at_rest_admit [of p i fd addr] by (simp add: program_ok_def first_free_def) (simp add: admit_def)

text \<open>What a program looks like when it was just started.\<close>

definition served :: "'w host \<Rightarrow> nat \<Rightarrow> int \<Rightarrow> 'w network_program" where
  "served h k fd = zero_program\<lparr>np_running := True,
     np_endpoints := Some [(server_endpoint (8080 + of_nat k))
       \<lparr>ep_lock := Unlocked, ep_socket_fd := fd, ep_addr := any_addr (8080 + of_nat k)\<rparr>],
     np_count := 1, np_handlers := runtime_handlers h\<rparr>"

lemma program_ok_served: "program_ok (served h k fd)"
  by (simp add: program_ok_def served_def at_rest_zero)

lemma set_port_served:
  "set_port port (served h k fd) = (served h k fd)\<lparr>np_endpoints := Some [(server_endpoint (8080 + of_nat k))
       \<lparr>ep_lock := Unlocked, ep_socket_fd := fd, ep_addr := any_addr (8080 + of_nat k), ep_port := port\<rparr>]\<rparr>"
  by (simp add: set_port_def configure_network_port_def served_def)

lemma launch_cases:
  assumes h: "honest (h_sockets h) opens"
  obtains (refused) r w' where "r \<noteq> Started" "launch h adjust s = returns (r, fst s, w')"
    | (started) k fd w' where "k \<le> 100" "0 \<le> fd" "rt_program_count (fst s) < MAX_PROGRAMS"
        "launch h adjust s = returns (Started, (fst s)\<lparr>
           rt_programs := (rt_programs (fst s))[rt_program_count (fst s) := Some (adjust (served h k fd))],
           rt_program_count := rt_program_count (fst s) + 1\<rparr>, w')"
    | (overrun) "MAX_PROGRAMS \<le> rt_program_count (fst s)" "launch h adjust s = Some Undefined"
proof -
  obtain memory w1 where c1: "h_calloc h (snd s) = (memory, w1)" by (metis prod.collapse)
  obtain memory2 w2 where c2: "h_calloc h w1 = (memory2, w2)" by (metis prod.collapse)
  show ?thesis
  proof (cases memory)
    case False
    then show ?thesis by (intro refused [of No_Memory w1]) (simp_all add: launch_def c1)
  next
    case mem: True
    show ?thesis
    proof (rule net_init_program_cases [OF h, of memory2 w2 zero_program])
      fix w' assume "net_init_program (h_sockets h) memory2 (Some zero_program) w2 = returns (Some (zero_program\<lparr>np_running := True\<rparr>), w')"
      then show ?thesis using mem
        by (intro refused [of Not_Started w']) (simp_all add: launch_def c1 c2 zero_program_def)
    next
      fix k fd w'
      assume k: "k \<le> 100" "0 \<le> fd"
        and i: "net_init_program (h_sockets h) memory2 (Some zero_program) w2 = returns (Some (zero_program\<lparr>np_running := True,
         np_endpoints := Some [(server_endpoint (8080 + of_nat k))
           \<lparr>ep_lock := Unlocked, ep_socket_fd := fd, ep_addr := any_addr (8080 + of_nat k)\<rparr>], np_count := 1\<rparr>), w')"
      show ?thesis
      proof (cases "rt_program_count (fst s) < MAX_PROGRAMS")
        case True
        with started [OF k True] i mem show ?thesis
          by (simp add: launch_def c1 c2 store_program_def served_def)
      next
        case False
        with overrun i mem show ?thesis
          by (simp add: launch_def c1 c2 store_program_def)
      qed
    qed
  qed
qed

lemma programs_ok_launch:
  assumes h: "honest (h_sockets h) opens" and ok: "programs_ok (fst s)"
    and adj: "\<And>k fd. program_ok (adjust (served h k fd))"
    and r: "launch h adjust s = Some (Returned (r, s'))"
  shows "programs_ok (fst s')"
proof (rule launch_cases [OF h, where adjust = adjust and s = s])
  fix k fd w'
  assume "rt_program_count (fst s) < MAX_PROGRAMS" "launch h adjust s = returns (Started, (fst s)\<lparr>
           rt_programs := (rt_programs (fst s))[rt_program_count (fst s) := Some (adjust (served h k fd))],
           rt_program_count := rt_program_count (fst s) + 1\<rparr>, w')"
  with r ok adj [of k fd] show ?thesis
    by (auto simp: programs_ok_def nth_list_update less_Suc_eq)
qed (use r ok in auto)

lemma program_ok_set_port: "program_ok (set_port port (served h k fd))"
  by (simp add: set_port_def configure_network_port_def program_ok_def served_def)
     (simp add: at_rest_def zero_program_def zero_client_def)

text \<open>Stopping a program returns.\<close>

lemma clean_slot_returns:
  assumes "i < length (np_clients p)" "cl_lock (np_clients p ! i) = Unlocked"
  shows "\<exists>w'. clean_slot os i (p, w) = returns (set_slot i (cleaned (np_clients p ! i)) (p, w'))"
  using assms
  by (cases "np_clients p ! i")
     (auto simp: clean_slot_def slot_def set_slot_def net_cleanup_client_state_def acquire_def unlock_def
        destroy_mutex_def cleaned_def Let_def)

lemma clean_slots_return:
  assumes "slots_free p" "n \<le> length (np_clients p)"
  shows "\<exists>w'. fold_run (clean_slot os) [0..<n] (p, w) = returns
      (p\<lparr>np_clients := map cleaned (take n (np_clients p)) @ drop n (np_clients p)\<rparr>, w')"
  using assms
proof (induction n)
  case (Suc n)
  let ?cs = "np_clients p"
  let ?ds = "map cleaned (take n ?cs) @ drop n ?cs"
  from Suc obtain u where u: "fold_run (clean_slot os) [0..<n] (p, w) = returns (p\<lparr>np_clients := ?ds\<rparr>, u)" by auto
  from Suc.prems have n: "n < length ?cs" by simp
  then have nth: "?ds ! n = ?cs ! n" "n < length ?ds" by (simp_all add: nth_append)
  have upd: "?ds[n := cleaned (?cs ! n)] = map cleaned (take (Suc n) ?cs) @ drop (Suc n) ?cs"
    using n by (simp add: list_update_append take_Suc_conv_app_nth Cons_nth_drop_Suc [symmetric])
  from Suc.prems(1) n have "cl_lock (?cs ! n) = Unlocked" by simp
  with clean_slot_returns [of n "p\<lparr>np_clients := ?ds\<rparr>" os u] nth n obtain w' where
      "clean_slot os n (p\<lparr>np_clients := ?ds\<rparr>, u) = returns (p\<lparr>np_clients := ?ds[n := cleaned (?cs ! n)]\<rparr>, w')"
    by (auto simp: set_slot_def)
  with u upd show ?case by (simp add: fold_run_append)
qed simp

lemma net_close_returns: "ep_lock ep = Unlocked \<Longrightarrow> \<exists>e w'. net_close os (Some ep) w = returns (e, w')"
  by (cases ep) (simp add: net_close_def acquire_def unlock_def destroy_mutex_def)

lemma net_cleanup_program_returns:
  assumes "program_ok p"
  shows "\<exists>q w'. net_cleanup_program os (Some p) w = returns (Some q, w')"
proof -
  from assms obtain ep where ep: "np_endpoints p = Some [ep]" "np_count p = 1" "ep_lock ep = Unlocked"
      and rest: "np_lock p = Unlocked" "length (np_clients p) = NET_MAX_CLIENTS" "slots_free p"
    by (auto simp: program_ok_def at_rest_def)
  from net_close_returns [OF ep(3), of os w] obtain e w1 where w1: "net_close os (Some ep) w = returns (e, w1)" by auto
  let ?p = "p\<lparr>np_lock := Locked, np_running := False, np_endpoints := None, np_count := 0\<rparr>"
  from clean_slots_return [of ?p NET_MAX_CLIENTS os w1] rest obtain w2 where
      w2: "fold_run (clean_slot os) [0..<NET_MAX_CLIENTS] (?p, w1) = returns (?p\<lparr>np_clients := map cleaned (np_clients p)\<rparr>, w2)"
    by auto
  show ?thesis
    using rest(1) ep w1 w2
    by (cases p) (simp add: net_cleanup_program_def within_def acquire_def unlock_def destroy_mutex_def
        table_lock_def table_lock_update_def Let_def numeral_eq_Suc)
qed

lemma stop_programs_return:
  assumes "length (rt_programs (fst s)) = MAX_PROGRAMS" "n \<le> MAX_PROGRAMS"
    and "\<forall>i < n. \<exists>p. rt_programs (fst s) ! i = Some p \<and> program_ok p"
  shows "\<exists>s'. fold_run (stop_program h) [0..<n] s = Some (Returned s') \<and> length (rt_programs (fst s')) = MAX_PROGRAMS \<and>
    (\<forall>i \<ge> n. rt_programs (fst s') ! i = rt_programs (fst s) ! i)"
  using assms(2,3)
proof (induction n)
  case 0
  then show ?case using assms(1) by simp
next
  case (Suc n)
  then obtain s' where s': "fold_run (stop_program h) [0..<n] s = Some (Returned s')"
      "length (rt_programs (fst s')) = MAX_PROGRAMS"
      "\<forall>i \<ge> n. rt_programs (fst s') ! i = rt_programs (fst s) ! i" by auto
  from Suc.prems(2) s'(3) obtain p where p: "rt_programs (fst s') ! n = Some p" "program_ok p" by auto
  from net_cleanup_program_returns [OF p(2), of "h_sockets h" "snd s'"] obtain q w' where
      "net_cleanup_program (h_sockets h) (Some p) (snd s') = returns (Some q, w')" by auto
  then have "stop_program h n s' = Some (Returned ((fst s')\<lparr>rt_programs := (rt_programs (fst s'))[n := None]\<rparr>, w'))"
    by (simp add: stop_program_def p)
  with s' show ?case by (simp add: fold_run_append)
qed

lemma stop_all_programs_return:
  assumes "programs_ok (fst s)"
  shows "\<exists>s'. fold_run (stop_program h) [0..<rt_program_count (fst s)] s = Some (Returned s') \<and>
    length (rt_programs (fst s')) = MAX_PROGRAMS"
  using stop_programs_return [of s "rt_program_count (fst s)" h] assms by (auto simp: programs_ok_def)

lemma stop_network_returns:
  assumes "programs_ok (fst s)"
  shows "\<exists>s'. stop_network h s = Some (Returned s') \<and> programs_ok (fst s')"
proof -
  from stop_all_programs_return [OF assms, of h] obtain rt w where
      "fold_run (stop_program h) [0..<rt_program_count (fst s)] s = Some (Returned (rt, w))"
      "length (rt_programs rt) = MAX_PROGRAMS" by auto
  then show ?thesis
    by (intro exI [of _ "say h (''Network services stopped'' @ endl) (rt\<lparr>rt_program_count := 0\<rparr>, w)"])
       (simp add: stop_network_def programs_ok_def)
qed

text \<open>Listing the clients leaves the programs as they are.\<close>

lemma client_line_free:
  assumes "i < length (np_clients p)" "cl_lock (np_clients p ! i) = Unlocked"
  shows "\<exists>w'. client_line h i (p, w) = Some (Returned (p, w'))"
proof -
  let ?w = "if cl_active (np_clients p ! i) then h_print h (''  Client '' @ show_nat i @ '': Connected'' @ endl) w else w"
  have "client_line h i (p, w) = Some (Returned (set_slot i (np_clients p ! i) (p, ?w)))"
    unfolding client_line_def
    by (rule holding_slot_free [OF assms assms(2)]) (simp add: slot_def set_slot_def assms(1))
  then show ?thesis by (simp add: set_slot_def)
qed

lemma list_program_clients_returns:
  assumes "programs_ok (fst s)" "i < rt_program_count (fst s)"
  shows "\<exists>w'. list_program_clients h i s = Some (Returned (fst s, w'))"
proof -
  from programs_okD [OF assms] obtain p where p: "rt_programs (fst s) ! i = Some p" "program_ok p" by auto
  then have rest: "np_lock p = Unlocked" "length (np_clients p) = NET_MAX_CLIENTS" "slots_free p"
    by (auto simp: program_ok_def at_rest_def)
  let ?l = "p\<lparr>np_lock := Locked\<rparr>"
  define w0 where "w0 = snd (say h (endl @ ''Program '' @ show_nat i @ '' Clients:'' @ endl) s)"
  have "\<exists>t. fold_run (client_line h) [0..<NET_MAX_CLIENTS] (?l, w0) = Some (Returned t) \<and> fst t = ?l"
  proof (rule fold_run_returns)
    fix j and t :: "'a network_program \<times> 'a" assume "j \<in> set [0..<NET_MAX_CLIENTS]" "fst t = ?l"
    then obtain u where "t = (?l, u)" by (cases t) auto
    with client_line_free [of j ?l h u] rest \<open>j \<in> set [0..<NET_MAX_CLIENTS]\<close>
    show "\<exists>t'. client_line h j t = Some (Returned t') \<and> fst t' = ?l" by auto
  qed simp
  then obtain u where "fold_run (client_line h) [0..<NET_MAX_CLIENTS] (?l, w0) = Some (Returned (?l, u))" by auto
  from holding_table_free [of p "fold_run (client_line h) [0..<NET_MAX_CLIENTS]" w0 p u, OF rest(1) this rest(1)]
  have "list_program_clients h i s = Some (Returned ((fst s)\<lparr>rt_programs := (rt_programs (fst s))[i := Some p]\<rparr>, u))"
    by (simp add: list_program_clients_def p w0_def)
  moreover have "(rt_programs (fst s))[i := Some p] = rt_programs (fst s)" using p(1) by (metis list_update_id)
  ultimately show ?thesis by simp
qed

lemma list_clients_returns:
  assumes "programs_ok (fst s)"
  shows "\<exists>w'. list_clients h s = Some (Returned (fst s, w'))"
proof -
  have "\<exists>s'. fold_run (list_program_clients h) [0..<rt_program_count (fst s)] s = Some (Returned s') \<and> fst s' = fst s"
  proof (rule fold_run_returns)
    fix i and t :: "'a runtime \<times> 'a" assume "i \<in> set [0..<rt_program_count (fst s)]" "fst t = fst s"
    with list_program_clients_returns [of t i h] assms
    show "\<exists>t'. list_program_clients h i t = Some (Returned t') \<and> fst t' = fst s" by auto
  qed simp
  then show ?thesis by (auto simp: list_clients_def)
qed

lemma show_status_returns:
  assumes "programs_ok (fst s)"
  shows "\<exists>w'. show_status h s = Some (Returned (fst s, w'))"
proof -
  have "\<exists>t. show_status h s = list_clients h (list_endpoints h t) \<and> fst t = fst s"
    unfolding show_status_def Let_def
    by (rule exI, rule conjI, rule refl) (simp split: option.splits)
  then obtain t where t: "show_status h s = list_clients h (list_endpoints h t)" "fst t = fst s" by auto
  with list_clients_returns [of "list_endpoints h t" h] assms show ?thesis by simp
qed


section \<open>The prompt\<close>

text \<open>None of the programs has a client.\<close>

definition unserved :: "'w runtime \<Rightarrow> bool" where
  "unserved rt \<longleftrightarrow> (\<forall>i < rt_program_count rt. \<forall>p. rt_programs rt ! i = Some p \<longrightarrow> connections (np_clients p) = [])"

definition runtime_ok :: "'w runtime \<Rightarrow> bool" where
  "runtime_ok rt \<longleftrightarrow> programs_ok rt \<and> unserved rt \<and> history_ok rt \<and> pred_option idle (rt_state_machine rt)"

lemma connections_served: "connections (np_clients (served h k fd)) = []"
  by (auto simp: served_def zero_program_def zero_client_def connections_def filter_empty_conv)

lemma start_network_outcome:
  assumes h: "honest (h_sockets h) opens" and ok: "runtime_ok (fst s)"
  shows "(\<exists>s'. start_network h s = Some (Returned s') \<and> runtime_ok (fst s') \<and> only_programs (fst s) (fst s')) \<or>
    start_network h s = Some Undefined \<and> rt_program_count (fst s) = MAX_PROGRAMS"
proof (rule launch_cases [OF h, where adjust = "\<lambda>p. p" and s = s])
  fix r w' assume "r \<noteq> Started" "launch h (\<lambda>p. p) s = returns (r, fst s, w')"
  with ok show ?thesis by (cases r) (simp_all add: start_network_def)
next
  fix k fd w'
  assume n: "rt_program_count (fst s) < MAX_PROGRAMS"
    and l: "launch h (\<lambda>p. p) s = returns (Started, (fst s)\<lparr>
           rt_programs := (rt_programs (fst s))[rt_program_count (fst s) := Some (served h k fd)],
           rt_program_count := rt_program_count (fst s) + 1\<rparr>, w')"
  from programs_ok_launch [where adjust = "\<lambda>p. p" and s = s, OF h _ program_ok_served] l ok have "programs_ok ((fst s)\<lparr>
           rt_programs := (rt_programs (fst s))[rt_program_count (fst s) := Some (served h k fd)],
           rt_program_count := rt_program_count (fst s) + 1\<rparr>)"
    by (simp add: runtime_ok_def)
  with l n ok connections_served [of h k fd] show ?thesis
    by (auto simp: start_network_def runtime_ok_def unserved_def programs_ok_def history_ok_def only_programs_def
        nth_list_update less_Suc_eq)
next
  assume "MAX_PROGRAMS \<le> rt_program_count (fst s)" "launch h (\<lambda>p. p) s = Some Undefined"
  with ok show ?thesis by (simp add: start_network_def runtime_ok_def programs_ok_def)
qed

lemma runtime_ok_only_machine:
  assumes "runtime_ok a" "only_machine a b" "pred_option idle (rt_state_machine b)"
  shows "runtime_ok b"
  using assms by (simp add: runtime_ok_def only_machine_def programs_ok_def unserved_def history_ok_def)

lemma stop_network_outcome:
  assumes "runtime_ok (fst s)"
  shows "\<exists>s'. stop_network h s = Some (Returned s') \<and> runtime_ok (fst s') \<and> only_programs (fst s) (fst s')"
proof -
  from assms have "programs_ok (fst s)" by (simp add: runtime_ok_def)
  from stop_network_returns [OF this, of h] obtain s' where
      s': "stop_network h s = Some (Returned s')" "programs_ok (fst s')" by auto
  then have "rt_program_count (fst s') = 0"
    by (auto simp: stop_network_def run_then_Returned)
  moreover note stop_network_frame [OF s'(1)]
  ultimately show ?thesis
    using assms s' by (auto simp: runtime_ok_def unserved_def history_ok_def only_programs_def)
qed

lemma dispatch_outcome:
  assumes h: "honest (h_sockets h) opens" and ok: "runtime_ok (fst s)"
  shows "(\<exists>s'. dispatch h command arg1 input s = Some (Returned s') \<and> runtime_ok (fst s') \<and>
      history_kept (fst s') = history_kept (fst s)) \<or>
    dispatch h command arg1 input s = Some Undefined \<and> command = ''start_network'' \<and> rt_program_count (fst s) = MAX_PROGRAMS"
proof -
  have rec: "only_programs a b \<Longrightarrow> history_kept b = history_kept a" for a b :: "'a runtime"
    by (simp add: history_kept_def only_programs_def)
  have rec2: "only_machine a b \<Longrightarrow> history_kept b = history_kept a" for a b :: "'a runtime"
    by (simp add: history_kept_def only_machine_def)
  from ok have progs: "programs_ok (fst s)" and machine: "pred_option idle (rt_state_machine (fst s))"
    by (simp_all add: runtime_ok_def)
  consider "command = ''start_network''" | "command = ''stop_network''" | "command = ''list_endpoints''"
    | "command = ''list_clients''" | "command = ''list_states''" | "command = ''list_transitions''"
    | "command = ''history''" | "command = ''status''" | "command = ''add_state''"
    | "dispatch h command arg1 input s = returns (process_command h input s)"
    unfolding dispatch_def by presburger
  then show ?thesis
  proof cases
    case 1
    with start_network_outcome [OF h ok] rec show ?thesis by (auto simp: dispatch_def)
  next
    case 2
    with stop_network_outcome [OF ok, of h] rec show ?thesis by (auto simp: dispatch_def)
  next
    case 4
    with list_clients_returns [OF progs, of h] ok show ?thesis by (auto simp: dispatch_def)
  next
    case 8
    with show_status_returns [OF progs, of h] ok show ?thesis by (auto simp: dispatch_def)
  next
    case 9
    with add_state_line_frame [of s h arg1] add_state_line_idle [OF machine, of h arg1] runtime_ok_only_machine [OF ok] rec2
    show ?thesis by (simp add: dispatch_def)
  next
    case 10
    with process_command_machine [of s h input] machine runtime_ok_only_machine [OF ok] rec2 show ?thesis by simp
  qed (use ok in \<open>simp_all add: dispatch_def\<close>)
qed

text \<open>The line without its newline.\<close>

definition prompt_text :: "string \<Rightarrow> string" where
  "prompt_text chunk = takeWhile (\<lambda>c. c \<noteq> CHR 0x0A) (cstr chunk)"

definition overrun_line :: "string \<Rightarrow> bool" where
  "overrun_line chunk \<longleftrightarrow> prompt_text chunk \<noteq> [] \<and> fst (strtok (prompt_text chunk)) = None \<or>
     fst (strtok (prompt_text chunk)) = Some ''start_network''"

lemma runtime_ok_history: "runtime_ok rt \<Longrightarrow> runtime_ok (add_to_history c rt)"
  using add_to_history_ok [of rt c]
  by (auto simp: runtime_ok_def programs_ok_def unserved_def add_to_history_def Let_def)

lemma prompt_line_outcome:
  assumes h: "honest (h_sockets h) opens" and ok: "runtime_ok (fst s)"
  shows "(\<exists>s'. prompt_line h chunk s = Some (Returned s') \<and> runtime_ok (fst s') \<and>
      history_kept (fst s') = (if prompt_text chunk = [] then history_kept (fst s)
        else last_ten (history_kept (fst s) @ [take 255 (cstr (after_strtok (prompt_text chunk)))]))) \<or>
    prompt_line h chunk s = Some Undefined \<and> overrun_line chunk"
proof (cases "prompt_text chunk = []")
  case True
  with ok show ?thesis by (simp add: prompt_line_def prompt_text_def)
next
  case False
  obtain cmd rest where t: "strtok (prompt_text chunk) = (cmd, rest)" by (metis prod.collapse)
  obtain arg1 rest2 where t2: "strtok rest = (arg1, rest2)" by (metis prod.collapse)
  let ?input = "after_strtok (prompt_text chunk)"
  let ?s = "(add_to_history ?input (fst s), snd s)"
  have line: "prompt_line h chunk s = need cmd (\<lambda>c. dispatch h c arg1 ?input ?s)"
    using False t t2 by (cases s) (simp add: prompt_line_def prompt_text_def Let_def)
  show ?thesis
  proof (cases cmd)
    case None
    with False line t show ?thesis by (simp add: overrun_line_def)
  next
    case (Some c)
    from ok have "history_ok (fst s)" by (simp add: runtime_ok_def)
    from history_kept_add [OF this, of ?input] have rec: "history_kept (fst ?s) = last_ten (history_kept (fst s) @ [take 255 (cstr ?input)])"
      by simp
    from dispatch_outcome [OF h, of ?s c arg1 ?input] runtime_ok_history [OF ok] show ?thesis
      using False Some line t by (auto simp: overrun_line_def rec [simplified])
  qed
qed

lemma prompt_loop_outcome:
  assumes h: "honest (h_sockets h) opens" and ok: "runtime_ok (fst s)"
  shows "(\<exists>s'. prompt_loop h stdin s = Some (Returned s') \<and> runtime_ok (fst s')) \<or> prompt_loop h stdin s = Some Undefined"
  using ok
proof (induction stdin arbitrary: s rule: measure_induct_rule [where f = length])
  case (less stdin)
  show ?case
  proof (cases "rt_running (fst s)")
    case False
    with less.prems show ?thesis by (subst (1 2) prompt_loop.simps) simp
  next
    case run: True
    show ?thesis
    proof (cases "fgets (MAX_INPUT - 1) False stdin")
      case None
      with run less.prems show ?thesis by (subst (1 2) prompt_loop.simps) simp
    next
      case (Some r)
      obtain chunk rest at_end where r: "r = (chunk, rest, at_end)" by (metis prod_cases3)
      let ?s = "say h (endl @ ''> '') s"
      have step: "prompt_loop h stdin s = run_then (prompt_line h chunk ?s) (prompt_loop h rest)"
        using run Some r by (subst prompt_loop.simps) simp
      have "length rest < length stdin"
        using fgets_progress [of "MAX_INPUT - 1" False stdin chunk rest at_end] Some r by (simp add: MAX_INPUT_def)
      note IH = less.IH [OF this]
      from prompt_line_outcome [OF h, of ?s chunk] less.prems
      consider s' where "prompt_line h chunk ?s = Some (Returned s')" "runtime_ok (fst s')"
        | "prompt_line h chunk ?s = Some Undefined" by auto
      then show ?thesis
        by cases (use IH in \<open>simp_all add: step\<close>)
    qed
  qed
qed

lemma cleanup_runtime_returns:
  assumes "programs_ok (fst s)"
  shows "\<exists>s'. cleanup_runtime h s = Some (Returned s')"
proof -
  have "programs_ok (fst (cleanup_directory_control h s))"
    "rt_program_count (fst (cleanup_directory_control h s)) = rt_program_count (fst s)"
    using assms by (simp_all add: cleanup_directory_control_def programs_ok_def)
  from stop_all_programs_return [OF this(1), of h] this(2) show ?thesis
    by (auto simp: cleanup_runtime_def)
qed

lemma initialize_runtime_ok:
  assumes "initialize_runtime h (zero_runtime, w) = (True, s)"
  shows "runtime_ok (fst s) \<and> rt_program_count (fst s) = 0 \<and> history_kept (fst s) = []"
proof -
  obtain block w' where b: "h_malloc h w = (block, w')" by (metis prod.collapse)
  obtain st ctx where i: "polycall_init_with_config block True (Some runtime_config) = (st, ctx)" by (metis prod.collapse)
  from assms have "fst s = zero_runtime\<lparr>rt_pc_ctx := ctx, rt_state_machine := None, rt_running := True\<rparr>"
    by (cases st) (auto simp: initialize_runtime_def b i)
  then show ?thesis
    by (simp add: runtime_ok_def programs_ok_def unserved_def history_ok_def zero_runtime_def history_kept_def)
qed


section \<open>A program that blocks\<close>

lemma stop_program_held:
  assumes "rt_programs (fst s) ! i = Some p" "np_lock p = Locked"
  shows "stop_program h i s = None"
  using assms by (simp add: stop_program_def net_cleanup_program_def table_mutex.within_held table_lock_def)

lemma fold_run_blocks:
  assumes "fold_run f xs s = Some (Returned t)" "f y t = None"
  shows "fold_run f (xs @ y # ys) s = None"
  using assms by (simp add: fold_run_append)

lemma event_loop_never_returns:
  assumes "rt_running (fst s)"
  shows "event_loop h port s \<noteq> Some (Returned s')"
proof
  assume "event_loop h port s = Some (Returned s')"
  then have "h = h \<longrightarrow> rt_running (fst s) \<longrightarrow> Returned s' = Undefined"
  proof (rule event_loop.raw_induct [where P = "\<lambda>h' port s r. h' = h \<longrightarrow> rt_running (fst s) \<longrightarrow> r = Undefined", rotated])
    fix f h' port s r
    assume IH: "\<And>h' port s r. f h' port s = Some r \<Longrightarrow> h' = h \<longrightarrow> rt_running (fst s) \<longrightarrow> r = Undefined"
      and step: "(if \<not> rt_running (fst s) then returns s
        else case event_pass h' port s of None \<Rightarrow> None | Some Undefined \<Rightarrow> Some Undefined
             | Some (Returned s') \<Rightarrow> f h' port s') = Some r"
    show "h' = h \<longrightarrow> rt_running (fst s) \<longrightarrow> r = Undefined"
    proof (intro impI)
      assume h': "h' = h" and run: "rt_running (fst s)"
      show "r = Undefined"
      proof (cases "\<exists>s'. event_pass h' port s = Some (Returned s')")
        case True
        then obtain t where t: "event_pass h' port s = Some (Returned t)" by auto
        with step run have "f h' port t = Some r" by simp
        moreover from event_pass_frame [OF t] run have "rt_running (fst t)" by (simp add: only_programs_def)
        ultimately show ?thesis using IH h' by blast
      next
        case False
        with step run show ?thesis by (auto split: option.splits outcome.splits)
      qed
    qed
  qed
  with assms show False by simp
qed


section \<open>Port mappings\<close>

text \<open>The mappings in use, no two of which share a port.\<close>

definition mapped :: "'w runtime \<Rightarrow> port_mapping list" where
  "mapped rt = take (rt_mapping_count rt) (rt_mappings rt)"

definition ports :: "port_mapping \<Rightarrow> u16 set" where
  "ports m = {pm_host m, pm_container m}"

definition disjoint_mappings :: "'w runtime \<Rightarrow> bool" where
  "disjoint_mappings rt \<longleftrightarrow> length (rt_mappings rt) = MAX_PORTS \<and> rt_mapping_count rt \<le> MAX_PORTS \<and>
     (\<forall>m \<in> set (mapped rt). pm_active m \<and> 0 \<notin> ports m) \<and>
     sorted_wrt (\<lambda>a b. ports a \<inter> ports b = {}) (mapped rt)"

lemma mapped_record:
  assumes "rt_mapping_count rt < length (rt_mappings rt)"
  shows "mapped (record_mapping host container rt) =
    mapped rt @ [\<lparr>pm_host = host, pm_container = container, pm_active = True\<rparr>]"
  using assms by (simp add: mapped_def record_mapping_def take_Suc_conv_app_nth)

lemma disjoint_mappings_record:
  assumes "disjoint_mappings rt" "rt_mapping_count rt < MAX_PORTS" "0 < host" "0 < container"
    and "is_port_available rt host" "is_port_available rt container"
  shows "disjoint_mappings (record_mapping host container rt)"
proof -
  have "\<forall>m \<in> set (mapped rt). host \<notin> ports m \<and> container \<notin> ports m"
    using assms(1,5,6) by (auto simp: disjoint_mappings_def is_port_available_def list_all_iff ports_def mapped_def)
  with assms show ?thesis
    by (auto simp: disjoint_mappings_def mapped_record sorted_wrt_append ports_def) (simp_all add: record_mapping_def)
qed

lemma mapped_only_programs: "only_programs a b \<Longrightarrow> mapped b = mapped a \<and> disjoint_mappings b = disjoint_mappings a"
  by (simp add: mapped_def disjoint_mappings_def only_programs_def)

lemma disjoint_mappings_drop:
  assumes "disjoint_mappings rt" "only_programs (record_mapping host container rt) rt'"
  shows "disjoint_mappings (drop_mapping rt') \<and> mapped (drop_mapping rt') = mapped rt"
  using assms by (auto simp: disjoint_mappings_def mapped_def drop_mapping_def record_mapping_def only_programs_def)

text \<open>Every mapping has a program of its own, so there are at most as many as programs.\<close>

definition mappings_ok :: "'w runtime \<Rightarrow> bool" where
  "mappings_ok rt \<longleftrightarrow> disjoint_mappings rt \<and> rt_mapping_count rt \<le> rt_program_count rt \<and>
     rt_program_count rt \<le> MAX_PROGRAMS"

lemma launch_counts:
  assumes "launch h adjust s = Some (Returned (r, s'))"
  shows "rt_program_count (fst s') = rt_program_count (fst s) + (if r = Started then 1 else 0) \<and>
    (r = Started \<longrightarrow> rt_program_count (fst s) < MAX_PROGRAMS)"
  using assms
  by (auto simp: launch_def Let_def run_then_Returned need_Returned store_program_def split: prod.splits if_splits)

text \<open>A mapping is added, or the mappings stay as they are.\<close>

lemma add_port_mapping_mapped:
  assumes ok: "mappings_ok (fst s)" and r: "add_port_mapping h name host container s = Some (Returned (added, s'))"
  shows "mappings_ok (fst s') \<and> rt_base_path (fst s') = rt_base_path (fst s) \<and>
    mapped (fst s') = (if added then mapped (fst s) @ [\<lparr>pm_host = host, pm_container = container, pm_active = True\<rparr>]
      else mapped (fst s))"
proof -
  obtain rt w where s: "s = (rt, w)" by (cases s)
  let ?path = "service_path (rt_base_path rt) name"
  obtain made w1 where m: "(if h_stat h ?path w = None then h_mkdir h ?path w else (True, w)) = (made, w1)"
    by (metis prod.collapse)
  let ?go = "0 < host \<and> 0 < container \<and> rt_mapping_count rt < MAX_PORTS \<and>
    is_port_available rt host \<and> is_port_available rt container \<and> made"
  show ?thesis
  proof (cases ?go)
    case False
    with r m ok show ?thesis
      by (auto simp: add_port_mapping_def s Let_def validate_port_mapping_def split: if_splits)
  next
    case go: True
    with r m have "run_then (launch h (set_port container) (record_mapping host container rt, w1)) (\<lambda>(r, s).
           case r of Started \<Rightarrow>
               returns (True, say h (''Mapped port '' @ show_word host @ '' to '' @ show_word container @
                 '' for service '' @ name @ endl) s)
           | _ \<Rightarrow> returns (False, apfst drop_mapping s)) = Some (Returned (added, s'))"
      by (simp add: add_port_mapping_def s Let_def validate_port_mapping_def)
    then obtain r rt' w' where l: "launch h (set_port container) (record_mapping host container rt, w1) = Some (Returned (r, rt', w'))"
        and c: "(case r of Started \<Rightarrow>
               returns (True, say h (''Mapped port '' @ show_word host @ '' to '' @ show_word container @
                 '' for service '' @ name @ endl) (rt', w'))
           | _ \<Rightarrow> returns (False, apfst drop_mapping (rt', w'))) = Some (Returned (added, s'))"
      unfolding run_then_Returned by auto
    from c have out: "added = (r = Started)" "fst s' = (if r = Started then rt' else drop_mapping rt')"
      by (cases r; auto)+
    from launch_frame [OF l] have frame: "only_programs (record_mapping host container rt) rt'" by simp
    from ok go have rec: "disjoint_mappings (record_mapping host container rt)"
      by (simp add: disjoint_mappings_record mappings_ok_def s)
    from ok go have "mapped (record_mapping host container rt) = mapped rt @ [\<lparr>pm_host = host, pm_container = container, pm_active = True\<rparr>]"
      by (simp add: mapped_record mappings_ok_def disjoint_mappings_def s)
    with mapped_only_programs [OF frame] disjoint_mappings_drop [OF _ frame] rec ok out frame launch_counts [OF l]
    show ?thesis
      by (auto simp: s mappings_ok_def only_programs_def record_mapping_def drop_mapping_def)
  qed
qed

text \<open>A port of a mapping in use is refused, as host port and as container port.\<close>

lemma add_port_mapping_refused:
  assumes "m \<in> set (mapped (fst s))" "pm_active m" "host \<in> ports m \<or> container \<in> ports m"
  shows "\<exists>t. add_port_mapping h name host container s = Some (Returned (False, t)) \<and> fst t = fst s"
proof -
  obtain rt w where s: "s = (rt, w)" by (cases s)
  from assms have "\<not> is_port_available rt host \<or> \<not> is_port_available rt container"
    by (auto simp: is_port_available_def list_all_iff ports_def mapped_def s)
  then show ?thesis by (auto simp: add_port_mapping_def s Let_def say_def)
qed

text \<open>Reading a configuration file and a directory of services keeps the mappings apart.\<close>

lemma config_line_mappings:
  "mappings_ok (fst s) \<Longrightarrow> config_line h line s = Some (Returned s') \<Longrightarrow> mappings_ok (fst s')"
  by (auto simp: config_line_def run_then_Returned split: if_splits option.splits dest: add_port_mapping_mapped)

lemma config_lines_mappings:
  "mappings_ok (fst s) \<Longrightarrow> config_lines h content s = Some (Returned s') \<Longrightarrow> mappings_ok (fst s')"
proof (induction content arbitrary: s rule: measure_induct_rule [where f = length])
  case (less content)
  show ?case
  proof (cases "fgets 255 False content")
    case None
    with less.prems show ?thesis by (subst (asm) config_lines.simps) simp
  next
    case (Some r)
    obtain chunk rest at_end where r: "r = (chunk, rest, at_end)" by (metis prod_cases3)
    have "config_lines h content s = run_then (config_line h (cstr chunk) s) (config_lines h rest)"
      using Some r by (subst config_lines.simps) simp
    with less.prems(2) obtain t where t: "config_line h (cstr chunk) s = Some (Returned t)"
        "config_lines h rest t = Some (Returned s')"
      by (auto simp: run_then_Returned)
    have "length rest < length content" using fgets_progress [of 255 False content chunk rest at_end] Some r by simp
    from less.IH [OF this config_line_mappings [OF less.prems(1) t(1)] t(2)] show ?thesis .
  qed
qed

lemma discover_entry_mappings:
  assumes "mappings_ok (fst (snd ns))" "discover_entry h name ns = Some (Returned ns')"
  shows "mappings_ok (fst (snd ns'))"
proof -
  obtain found s where ns: "ns = (found, s)" by (cases ns)
  let ?path = "config_path (rt_base_path (fst s)) name"
  consider "ns' = ns" | t where "ns' = (found, say h t s)"
    | host container added s' where "add_port_mapping h name host container s = Some (Returned (added, s'))" "snd ns' = s'"
    using assms(2)
    by (auto simp: discover_entry_def ns Let_def run_then_Returned split: if_splits option.splits prod.splits)
  then show ?thesis
  proof cases
    case 3
    with assms(1) add_port_mapping_mapped [of s h name] show ?thesis by (simp add: ns)
  qed (use assms(1) in \<open>simp_all add: ns\<close>)
qed

lemma mappings_ok_dir [simp]:
  "mappings_ok (rt\<lparr>rt_current_dir := d\<rparr>) = mappings_ok rt" "mappings_ok (take_name rt) = mappings_ok rt"
  by (simp_all add: mappings_ok_def disjoint_mappings_def mapped_def take_name_def)

lemma discover_mappings:
  assumes ok: "mappings_ok (fst s)" and d: "discover_and_init_services h s = Some (Returned (b, s'))"
  shows "mappings_ok (fst s')"
proof -
  obtain names w where o: "h_opendir h (rt_base_path (fst s)) (snd s) = (names, w)" by (metis prod.collapse)
  let ?s = "((fst s)\<lparr>rt_current_dir := names\<rparr>, w)"
  show ?thesis
  proof (cases names)
    case None
    with d o ok show ?thesis by (auto simp: discover_and_init_services_def)
  next
    case (Some ns)
    with d o obtain r where r: "fold_run (\<lambda>name. \<lambda>(found, s). discover_entry h name (found, apfst take_name s)) ns (0, ?s) = Some (Returned r)"
        and s': "fst s' = (fst (snd r))\<lparr>rt_current_dir := None\<rparr>"
      by (auto simp: discover_and_init_services_def Let_def run_then_Returned)
    have "mappings_ok (fst (snd r))"
    proof (rule fold_run_invariant [OF r, where P = "\<lambda>r. mappings_ok (fst (snd r))"])
      fix name fs fs'
      assume "mappings_ok (fst (snd fs))" "(\<lambda>(found, s). discover_entry h name (found, apfst take_name s)) fs = Some (Returned fs')"
      then show "mappings_ok (fst (snd fs'))"
        by (cases fs) (auto dest!: discover_entry_mappings [rotated])
    qed (use ok in simp)
    then show ?thesis by (simp add: s')
  qed
qed

lemma init_with_directory_mappings:
  assumes ok: "mappings_ok (fst s)" and i: "polycall_init_with_directory h base config s = Some (Returned (b, s'))"
  shows "mappings_ok (fst s')"
proof -
  obtain ok1 s1 where d: "init_directory_control h base s = (ok1, s1)" by (metis prod.collapse)
  from d ok have s1: "mappings_ok (fst s1)"
    by (auto simp: init_directory_control_def mappings_ok_def disjoint_mappings_def mapped_def Let_def
        split: option.splits path_kind.splits prod.splits)
  show ?thesis
  proof (cases ok1)
    case False
    with i d s1 show ?thesis by (simp add: polycall_init_with_directory_def)
  next
    case True
    let ?read = "case config of None \<Rightarrow> returns (True, s1) | Some path \<Rightarrow> process_config_file h path s1"
    let ?next = "\<lambda>read s. if read then s else say h (''Warning: Failed to process config file'' @ endl) s"
    from i d True have "run_then ?read (\<lambda>(read, s). run_then (discover_and_init_services h (?next read s)) (\<lambda>(found, s).
        returns (True, if found then s else say h (''Warning: No services discovered'' @ endl) s))) = Some (Returned (b, s'))"
      by (simp add: polycall_init_with_directory_def Let_def)
    then obtain read s2 where c: "?read = Some (Returned (read, s2))"
        and n: "run_then (discover_and_init_services h (?next read s2)) (\<lambda>(found, s).
          returns (True, if found then s else say h (''Warning: No services discovered'' @ endl) s)) = Some (Returned (b, s'))"
      by (elim run_thenE) (auto split: prod.splits)
    from n obtain found s3 where f: "discover_and_init_services h (?next read s2) = Some (Returned (found, s3))"
        and s': "fst s' = fst s3"
      by (elim run_thenE) (auto split: prod.splits if_splits)
    from c s1 have "mappings_ok (fst s2)"
      by (auto simp: process_config_file_def run_then_Returned split: option.splits dest: config_lines_mappings)
    with discover_mappings [OF _ f] show ?thesis by (auto simp: s' split: if_splits)
  qed
qed

end
