(* ===== verification/Runtime_Properties.thy ===== *)
theory Runtime_Properties
  imports Runtime_Laws Network_Properties "HOL-Library.Code_Target_Nat"
begin

text \<open>
  The properties of the command line program. The witnesses run it on \<open>demo_host\<close>, which has
  the sockets of \<open>demo_os\<close>, memory, the first servers of the repository's \<open>Polycallfile\<close> in
  \<open>polycall.conf\<close>, no other file, and a console that shows nothing.
\<close>

section \<open>A small host\<close>

definition demo_host :: "int list host" where
  "demo_host = \<lparr>h_sockets = demo_os, h_send = \<lambda>fd bytes flags w. (int (length bytes), w),
     h_print = \<lambda>text w. w, h_calloc = \<lambda>w. (True, w), h_malloc = \<lambda>w. (7, w), h_time = \<lambda>w. 0,
     h_code = \<lambda>name. 1, h_stat = \<lambda>path w. if path = ''services'' then Some Directory else None,
     h_mkdir = \<lambda>path w. (True, w), h_opendir = \<lambda>path w. (Some [], w), h_closedir = \<lambda>w. w,
     h_open = \<lambda>path w. if path = ''polycall.conf'' then
         Some (''server node 8080:8084'' @ endl @ ''server python 3001:8084'' @ endl @ ''server java 3002:8082'' @ endl)
       else None\<rparr>"

definition demo_device :: output_device where
  "demo_device = \<lparr>od_creatable = \<lambda>p. False, od_fwrite = \<lambda>p n. False, od_fclose = \<lambda>p. False,
     od_remove = \<lambda>p. False, od_leftover = \<lambda>p. [], od_readable = \<lambda>p. False\<rparr>"

lemma demo_host_honest: "honest (h_sockets demo_host) set"
  by (simp add: demo_host_def demo_honest)

text \<open>The handlers of the program print and send; they open and close nothing if the host does not.\<close>

lemma runtime_handlers_quiet:
  assumes "\<And>t w. opens (h_print h t w) = opens w" "\<And>fd bs fl w. opens (snd (h_send h fd bs fl w)) = opens w"
  shows "quiet opens (runtime_handlers h)"
  using assms
  by (auto simp: quiet_def runtime_handlers_def on_network_connect_def on_network_disconnect_def
      on_network_receive_def net_send_def Let_def)

section \<open>Properties\<close>

lemma not_config:
  "length argv < 2 \<or> argv ! 1 \<noteq> ''config'' \<Longrightarrow> polycall_config_cli dev argv fs = (-1, [], fs)"
  by (auto simp: polycall_config_cli_def Let_def)

lemma run_file_never_returns: "run_file h broken content s \<noteq> Some (Returned r)"
  by (auto simp: run_file_def Let_def run_then_Returned event_loop_never_returns split: prod.splits if_splits)

text \<open>
  C33: When \<open>main\<close> returns. Without the command \<open>config\<close> and given memory for the context, the
  interactive program ends on every input with exit code 0 or runs into undefined behaviour,
  but never blocks; with \<open>-f\<close> and a file that cannot be opened it exits with 1; and with a
  file that can be opened it never returns, as nothing ends its event loop.
\<close>

theorem main_returns:
  assumes "honest (h_sockets h) opens" "length argv < 2 \<or> argv ! 1 \<noteq> ''config''" "fst (h_malloc h w) \<noteq> 0"
  shows "case config_argument (tl argv) None of
      None \<Rightarrow> polycall_main h dev fs argv stdin w = Some Undefined \<or>
        (\<exists>s. polycall_main h dev fs argv stdin w = Some (Returned (0, fs, s)))
    | Some path \<Rightarrow>
        (case fopen_read fs path of
           None \<Rightarrow> \<exists>s. polycall_main h dev fs argv stdin w = Some (Returned (1, fs, s))
         | Some f \<Rightarrow> \<forall>r. polycall_main h dev fs argv stdin w \<noteq> Some (Returned r))"
proof -
  obtain block w1 where m: "h_malloc h w = (block, w1)" by (metis prod.collapse)
  obtain s where init: "initialize_runtime h (zero_runtime, w) = (True, s)"
    using assms(3) m by (simp add: initialize_runtime_def polycall_init_with_config_def)
  note ok = initialize_runtime_ok [OF init]
  then have progs: "programs_ok (fst (say h t s))" for t by (simp add: runtime_ok_def)
  show ?thesis
  proof (cases "config_argument (tl argv) None")
    case None
    let ?banner = "say h (''PolyCall CLI v'' @ PPI_VERSION @ '' - Type '' @ quote ''help'' @ '' for commands'' @ endl) s"
    from ok have "runtime_ok (fst ?banner)" by simp
    from prompt_loop_outcome [OF assms(1) this, of stdin] show ?thesis
    proof (elim disjE exE conjE)
      fix s' assume p: "prompt_loop h stdin ?banner = Some (Returned s')" "runtime_ok (fst s')"
      then have "programs_ok (fst s')" by (simp add: runtime_ok_def)
      from cleanup_runtime_returns [OF this, of h] p(1) None show ?thesis
        by (auto simp: polycall_main_def not_config [OF assms(2)] init)
    next
      assume "prompt_loop h stdin ?banner = Some Undefined"
      with None show ?thesis by (simp add: polycall_main_def not_config [OF assms(2)] init)
    qed
  next
    case (Some path)
    show ?thesis
    proof (cases "fopen_read fs path")
      case None
      from cleanup_runtime_returns [OF progs, of h "''Failed to open config file: '' @ path @ endl"] obtain t where
        "cleanup_runtime h (say h (''Failed to open config file: '' @ path @ endl) s) = Some (Returned t)" by blast
      with Some None show ?thesis
        by (simp add: polycall_main_def not_config [OF assms(2)] init)
    next
      case (Some f)
      with \<open>config_argument (tl argv) None = Some path\<close> run_file_never_returns [of h "fl_broken f" "fl_content f" s]
      show ?thesis
        by (auto simp: polycall_main_def not_config [OF assms(2)] init run_then_Returned)
    qed
  qed
qed

theorem main_returns_witness:
  "\<forall>r. polycall_main demo_host demo_device (\<lambda>p. Some \<lparr>fl_content = ''port 1:2'', fl_broken = False, fl_readable = True\<rparr>)
     [''polycall'', ''-f'', ''x''] [] [0] \<noteq> Some (Returned r)"
  using main_returns [OF demo_host_honest, of "[''polycall'', ''-f'', ''x'']" "[0]" demo_device
      "\<lambda>p. Some \<lparr>fl_content = ''port 1:2'', fl_broken = False, fl_readable = True\<rparr>" "[]"]
  by (simp add: demo_host_def fopen_read_def)

text \<open>
  C34: What an interactive session can bring about. After any lines that were carried out, the
  history has the first words of the last ten lines that were not empty, each with the blanks
  before it and cut to 255 characters; the state machine, if there is one, is well formed but
  has no transition and never left its first state; and no network program has a client. The
  commands for transitions, which the help text lists, do not exist, and only the mode for
  files runs network programs.
\<close>

theorem interactive_session_state:
  assumes "honest (h_sockets h) opens" "initialize_runtime h (zero_runtime, w) = (True, s)"
    and "fold_run (prompt_line h) lines s = Some (Returned s')"
  shows "history_kept (fst s') = last_ten (map (\<lambda>t. take 255 (cstr (after_strtok t))) (filter (\<lambda>t. t \<noteq> []) (map prompt_text lines))) \<and>
    (case rt_state_machine (fst s') of None \<Rightarrow> True
     | Some m \<Rightarrow> sm_wf m \<and> sm_num_transitions m = 0 \<and> sm_current_state m = 0) \<and>
    rt_program_count (fst s') \<le> MAX_PROGRAMS \<and>
    (\<forall>i < rt_program_count (fst s'). \<exists>p. rt_programs (fst s') ! i = Some p \<and> connections (np_clients p) = [])"
proof -
  let ?words = "\<lambda>ls. map (\<lambda>t. take 255 (cstr (after_strtok t))) (filter (\<lambda>t. t \<noteq> []) (map prompt_text ls))"
  have session: "runtime_ok (fst s') \<and> history_kept (fst s') = last_ten (r @ ?words ls)"
    if "fold_run (prompt_line h) ls s = Some (Returned s')" "runtime_ok (fst s)" "history_kept (fst s) = last_ten r" for ls r s
    using that
  proof (induction ls arbitrary: r s)
    case (Cons l ls)
    from Cons.prems(1) obtain t where t: "prompt_line h l s = Some (Returned t)" "fold_run (prompt_line h) ls t = Some (Returned s')"
      by (auto simp: run_then_Returned)
    from prompt_line_outcome [OF assms(1) Cons.prems(2), of l] t(1) have
      "runtime_ok (fst t)" "history_kept (fst t) = last_ten (r @ ?words [l])"
      using Cons.prems(3) by (auto simp: last_ten_append)
    from Cons.IH [OF t(2) this] show ?case by simp
  qed simp
  note init = initialize_runtime_ok [OF assms(2)]
  from session [OF assms(3), of "[]"] init have ok: "runtime_ok (fst s')" "history_kept (fst s') = last_ten (?words lines)"
    by (simp_all add: last_ten_def)
  then have "programs_ok (fst s')" "unserved (fst s')" "pred_option idle (rt_state_machine (fst s'))"
    by (simp_all add: runtime_ok_def)
  with ok(2) show ?thesis
    by (auto simp: programs_ok_def unserved_def idle_def split: option.splits)
qed

definition demo_lines :: "string list" where
  "demo_lines = [''start_network now'' @ endl, endl, ''  help me'' @ endl]"

theorem interactive_session_state_witness:
  "\<exists>s s'. initialize_runtime demo_host (zero_runtime, [0]) = (True, s) \<and>
     fold_run (prompt_line demo_host) demo_lines s = Some (Returned s') \<and>
     history_kept (fst s') = [''start_network'', ''  help''] \<and> rt_program_count (fst s') = 1"
proof -
  have "case fold_run (prompt_line demo_host) demo_lines (snd (initialize_runtime demo_host (zero_runtime, [0]))) of
      Some (Returned s') \<Rightarrow> rt_program_count (fst s') = 1 | _ \<Rightarrow> False"
    by code_simp
  then obtain s' where s': "fold_run (prompt_line demo_host) demo_lines (snd (initialize_runtime demo_host (zero_runtime, [0]))) = Some (Returned s')"
      "rt_program_count (fst s') = 1"
    by (auto split: option.splits outcome.splits)
  have i: "initialize_runtime demo_host (zero_runtime, [0]) = (True, snd (initialize_runtime demo_host (zero_runtime, [0])))"
    by (simp add: initialize_runtime_def demo_host_def polycall_init_with_config_def)
  have "last_ten (map (\<lambda>t. take 255 (cstr (after_strtok t))) (filter (\<lambda>t. t \<noteq> []) (map prompt_text demo_lines)))
      = [''start_network'', ''  help'']"
    by code_simp
  with interactive_session_state [OF demo_host_honest i s'(1)] have "history_kept (fst s') = [''start_network'', ''  help'']"
    by simp
  with i s' show ?thesis by blast
qed

text \<open>
  C35: The table of programs has eight elements. Starting a network returns and leaves a
  table that is in order, or writes behind the array; that happens exactly if eight programs
  are running and the new one could be started, that is, if the command would add a program
  to an empty table.
\<close>

theorem ninth_network_overruns_table:
  assumes "honest (h_sockets h) opens" "programs_ok rt"
  shows "(start_network h (rt, w) = Some Undefined \<longleftrightarrow>
      rt_program_count rt = MAX_PROGRAMS \<and>
      (\<exists>s'. start_network h (rt\<lparr>rt_program_count := 0\<rparr>, w) = Some (Returned s') \<and> rt_program_count (fst s') = 1)) \<and>
    (start_network h (rt, w) \<noteq> Some Undefined \<longrightarrow>
      (\<exists>s'. start_network h (rt, w) = Some (Returned s') \<and> programs_ok (fst s')))"
proof -
  let ?rt = "rt\<lparr>rt_program_count := 0\<rparr>"
  obtain memory w1 where c1: "h_calloc h w = (memory, w1)" by (metis prod.collapse)
  obtain memory2 w2 where c2: "h_calloc h w1 = (memory2, w2)" by (metis prod.collapse)
  from assms(2) have n: "rt_program_count rt \<le> MAX_PROGRAMS" by (simp add: programs_ok_def)
  show ?thesis
  proof (cases memory)
    case False
    with c1 assms(2) show ?thesis by (simp add: start_network_def launch_def)
  next
    case mem: True
    show ?thesis
    proof (rule net_init_program_cases [OF assms(1), of memory2 w2 zero_program])
      fix w' assume "net_init_program (h_sockets h) memory2 (Some zero_program) w2 = returns (Some (zero_program\<lparr>np_running := True\<rparr>), w')"
      then have "launch h (\<lambda>p. p) (r, w) = returns (Not_Started, r, w')" for r
        using mem by (simp add: launch_def c1 c2 zero_program_def)
      with assms(2) show ?thesis by (simp add: start_network_def)
    next
      fix k fd w'
      assume i: "net_init_program (h_sockets h) memory2 (Some zero_program) w2 = returns (Some (zero_program\<lparr>np_running := True,
         np_endpoints := Some [(server_endpoint (8080 + of_nat k))
           \<lparr>ep_lock := Unlocked, ep_socket_fd := fd, ep_addr := any_addr (8080 + of_nat k)\<rparr>], np_count := 1\<rparr>), w')"
      have l: "launch h (\<lambda>p. p) (r, w) = need (store_program (served h k fd) r) (\<lambda>r. returns (Started, r, w'))" for r
        using mem i by (simp add: launch_def c1 c2 served_def)
      have one: "\<exists>s'. start_network h (?rt, w) = Some (Returned s') \<and> rt_program_count (fst s') = 1"
        by (simp add: start_network_def l store_program_def MAX_PROGRAMS_def)
      show ?thesis
      proof (cases "rt_program_count rt < MAX_PROGRAMS")
        case True
        with program_ok_served [of h k fd] assms(2) show ?thesis
          by (auto simp: start_network_def l store_program_def programs_ok_def nth_list_update less_Suc_eq)
      next
        case False
        then have "start_network h (rt, w) = Some Undefined" by (simp add: start_network_def l store_program_def)
        with one n False show ?thesis by simp
      qed
    qed
  qed
qed

definition crowded :: "int list runtime" where
  "crowded = zero_runtime\<lparr>rt_programs := replicate 8 (Some (served demo_host 1 3)), rt_program_count := 8\<rparr>"

theorem ninth_network_overruns_table_witness: "start_network demo_host (crowded, [0]) = Some Undefined"
proof -
  have "programs_ok crowded"
    by (simp add: crowded_def programs_ok_def MAX_PROGRAMS_def program_ok_served)
  moreover have "case start_network demo_host (crowded\<lparr>rt_program_count := 0\<rparr>, [0]) of
      Some (Returned s') \<Rightarrow> rt_program_count (fst s') = 1 | _ \<Rightarrow> False"
    by code_simp
  then have "\<exists>s'. start_network demo_host (crowded\<lparr>rt_program_count := 0\<rparr>, [0]) = Some (Returned s') \<and> rt_program_count (fst s') = 1"
    by (auto split: option.splits outcome.splits)
  ultimately show ?thesis
    using ninth_network_overruns_table [OF demo_host_honest, of crowded "[0]"] by (simp add: crowded_def MAX_PROGRAMS_def)
qed

text \<open>
  The port of the configuration file is noted in the endpoint and printed, but never
  served: the socket was bound before, to a port from 8080 to 8180, whatever the file says.
\<close>

theorem configured_port_not_bound:
  assumes "honest (h_sockets h) opens" "file_line h chunk (m, s) = Some (Returned (m', s'))"
    and "rt_program_count (fst s') \<noteq> rt_program_count (fst s)" "rt_program_count (fst s) < length (rt_programs (fst s))"
  shows "\<exists>p ep k. rt_programs (fst s') ! rt_program_count (fst s) = Some p \<and> np_endpoints p = Some [ep] \<and>
    ep_port ep = fm_port m \<and> k \<le> 100 \<and> ep_addr ep = any_addr (8080 + of_nat k)"
proof -
  obtain r t where l: "launch h (set_port (fm_port m)) s = Some (Returned (r, t))" and t: "fst s' = fst t"
    using assms(2,3)
    by (auto simp: file_line_def Let_def run_then_Returned split: if_splits list.splits launched.splits)
      (metis launched.exhaust)
  show ?thesis
  proof (rule launch_cases [OF assms(1), where adjust = "set_port (fm_port m)" and s = s])
    fix k fd w'
    assume "k \<le> 100" "launch h (set_port (fm_port m)) s = returns (Started, (fst s)\<lparr>
           rt_programs := (rt_programs (fst s))[rt_program_count (fst s) := Some (set_port (fm_port m) (served h k fd))],
           rt_program_count := rt_program_count (fst s) + 1\<rparr>, w')"
    with l t assms(4) show ?thesis
      by (auto simp: set_port_served intro!: exI [of _ k])
  qed (use l t assms(3) in auto)
qed

theorem configured_port_not_bound_witness:
  "\<exists>m' s' p ep. file_line demo_host (''network start'' @ endl) (\<lparr>fm_started = False, fm_port = 9000\<rparr>, zero_runtime, [0])
      = Some (Returned (m', s')) \<and>
     rt_programs (fst s') ! 0 = Some p \<and> np_endpoints p = Some [ep] \<and> ep_port ep = 9000"
proof -
  define ms where "ms = (\<lparr>fm_started = False, fm_port = 9000\<rparr>, zero_runtime :: int list runtime, [0 :: int])"
  have "case file_line demo_host (''network start'' @ endl) ms of
      Some (Returned r) \<Rightarrow> rt_program_count (fst (snd r)) = 1 | _ \<Rightarrow> False"
    unfolding ms_def by code_simp
  then obtain m' s' where f: "file_line demo_host (''network start'' @ endl) ms = Some (Returned (m', s'))"
      "rt_program_count (fst s') = 1"
    by (cases "file_line demo_host (''network start'' @ endl) ms") (auto split: outcome.splits)
  from configured_port_not_bound [OF demo_host_honest f(1) [unfolded ms_def]] f(2)
  obtain p ep where "rt_programs (fst s') ! 0 = Some p" "np_endpoints p = Some [ep]" "ep_port ep = 9000"
    by (auto simp: zero_runtime_def MAX_PROGRAMS_def)
  with f(1) show ?thesis unfolding ms_def by blast
qed

text \<open>
  C36: Whatever the configuration file and the directories of services say, the mappings made
  by \<open>polycall_init_with_directory\<close> never conflict: there are at most eight, one for each
  program, each of them is active and of two ports other than 0, and no port, of host or
  container, is in two of them. A further mapping of a port in use is refused and changes
  nothing. That includes two services on one container port, which the repository's own
  \<open>Polycallfile\<close> and documents configure: of node at 8080:8084 and python at 3001:8084
  only the first is mapped.
\<close>

theorem mappings_never_conflict:
  assumes "mappings_ok (fst s)" "polycall_init_with_directory h base config s = Some (Returned (b, s'))"
  shows "length (mapped (fst s')) \<le> MAX_PROGRAMS \<and>
    (\<forall>i < length (mapped (fst s')). pm_active (mapped (fst s') ! i) \<and>
       pm_host (mapped (fst s') ! i) \<noteq> 0 \<and> pm_container (mapped (fst s') ! i) \<noteq> 0) \<and>
    (\<forall>i j. i < j \<and> j < length (mapped (fst s')) \<longrightarrow> ports (mapped (fst s') ! i) \<inter> ports (mapped (fst s') ! j) = {}) \<and>
    (\<forall>m \<in> set (mapped (fst s')). \<forall>name host container. host \<in> ports m \<or> container \<in> ports m \<longrightarrow>
       (\<exists>t. add_port_mapping h name host container s' = Some (Returned (False, t)) \<and> fst t = fst s'))"
proof -
  from init_with_directory_mappings [OF assms] have ok: "mappings_ok (fst s')" .
  then have "length (mapped (fst s')) \<le> MAX_PROGRAMS" by (auto simp: mappings_ok_def mapped_def)
  moreover have active: "pm_active m \<and> pm_host m \<noteq> 0 \<and> pm_container m \<noteq> 0" if "m \<in> set (mapped (fst s'))" for m
    using ok that by (auto simp: mappings_ok_def disjoint_mappings_def ports_def)
  moreover have "ports (mapped (fst s') ! i) \<inter> ports (mapped (fst s') ! j) = {}" if "i < j" "j < length (mapped (fst s'))" for i j
    using ok that by (simp add: mappings_ok_def disjoint_mappings_def sorted_wrt_iff_nth_less)
  moreover have "\<exists>t. add_port_mapping h name host container s' = Some (Returned (False, t)) \<and> fst t = fst s'"
    if m: "m \<in> set (mapped (fst s'))" and p: "host \<in> ports m \<or> container \<in> ports m" for m name host container
    using active [OF m] by (intro add_port_mapping_refused [OF m _ p]) simp
  moreover have "\<forall>i < length (mapped (fst s')). pm_active (mapped (fst s') ! i) \<and>
       pm_host (mapped (fst s') ! i) \<noteq> 0 \<and> pm_container (mapped (fst s') ! i) \<noteq> 0"
    using active nth_mem by blast
  ultimately show ?thesis by blast
qed

definition demo_mapped :: "port_mapping list option" where
  "demo_mapped = (case polycall_init_with_directory demo_host (Some ''services'') (Some ''polycall.conf'') (zero_runtime, [0]) of
     Some (Returned (b, s')) \<Rightarrow> Some (mapped (fst s')) | _ \<Rightarrow> None)"

theorem mappings_never_conflict_witness:
  "\<exists>b s'. polycall_init_with_directory demo_host (Some ''services'') (Some ''polycall.conf'') (zero_runtime, [0]) =
       Some (Returned (b, s')) \<and>
     map pm_host (mapped (fst s')) = [8080, 3002] \<and> map pm_container (mapped (fst s')) = [8084, 8082] \<and>
     (\<exists>t. add_port_mapping demo_host ''python'' 3001 8084 s' = Some (Returned (False, t)) \<and> fst t = fst s')"
proof -
  have d: "map_option (map (\<lambda>m. (pm_host m, pm_container m))) demo_mapped = Some [(8080, 8084), (3002, 8082)]" by code_simp
  have ok: "mappings_ok (fst (zero_runtime, [0 :: int]))"
    by (simp add: mappings_ok_def disjoint_mappings_def zero_runtime_def mapped_def)
  from d obtain ms where ms: "demo_mapped = Some ms" "map (\<lambda>m. (pm_host m, pm_container m)) ms = [(8080, 8084), (3002, 8082)]" by auto
  then obtain b s' where r: "polycall_init_with_directory demo_host (Some ''services'') (Some ''polycall.conf'') (zero_runtime, [0])
      = Some (Returned (b, s'))" "ms = mapped (fst s')"
    by (auto simp: demo_mapped_def split: option.splits outcome.splits prod.splits)
  from ms(2) obtain m m2 where m: "mapped (fst s') = [m, m2]" "pm_host m = 8080" "pm_container m = 8084"
      "pm_host m2 = 3002" "pm_container m2 = 8082"
    unfolding r(2) by auto
  from m(1) have mem: "m \<in> set (mapped (fst s'))" by simp
  from m(3) have port: "(3001 :: u16) \<in> ports m \<or> 8084 \<in> ports m" by (simp add: ports_def)
  from mappings_never_conflict [OF ok r(1)] mem port have refused:
    "\<exists>t. add_port_mapping demo_host ''python'' 3001 8084 s' = Some (Returned (False, t)) \<and> fst t = fst s'" by blast
  have hosts: "map pm_host (mapped (fst s')) = [8080, 3002]" "map pm_container (mapped (fst s')) = [8084, 8082]"
    by (simp_all only: m list.map)
  show ?thesis by (intro exI [of _ b] exI [of _ s'] conjI r(1) hosts refused)
qed

text \<open>
  C37: A program that waits for its own mutex cannot be stopped. If the table of clients of any
  of the running programs is held when a signal arrives, as it is once a client has
  disconnected, the signal handler does not return and the process does not exit; neither does
  the command that stops the network.
\<close>

theorem signal_cannot_stop_blocked_program:
  assumes "i < rt_program_count (fst s)" "rt_programs (fst s) ! i = Some p" "np_lock p = Locked"
    and "length (rt_programs (fst s)) = MAX_PROGRAMS" "rt_program_count (fst s) \<le> MAX_PROGRAMS"
    and "\<forall>j < i. \<exists>q. rt_programs (fst s) ! j = Some q \<and> program_ok q"
  shows "signal_handler h s = None \<and> stop_network h s = None"
proof -
  have blocked: "fold_run (stop_program h) [0..<rt_program_count (fst t)] t = None"
    if t: "rt_programs (fst t) = rt_programs (fst s)" "rt_program_count (fst t) = rt_program_count (fst s)" for t
  proof -
    from stop_programs_return [of t i h] assms t obtain t' where
        t': "fold_run (stop_program h) [0..<i] t = Some (Returned t')" "rt_programs (fst t') ! i = Some p"
      by auto
    from stop_program_held [OF t'(2) assms(3)] fold_run_blocks [OF t'(1)]
    have "fold_run (stop_program h) ([0..<i] @ i # [Suc i..<rt_program_count (fst t)]) t = None" by simp
    moreover have "[0..<rt_program_count (fst t)] = [0..<i] @ i # [Suc i..<rt_program_count (fst t)]"
      using assms(1) t(2) upt_add_eq_append [of 0 i "rt_program_count (fst t) - i"] by (simp add: upt_conv_Cons)
    ultimately show ?thesis by simp
  qed
  from blocked [of s] blocked [of "cleanup_directory_control h s"] show ?thesis
    by (simp add: signal_handler_def cleanup_runtime_def stop_network_def cleanup_directory_control_def)
qed

definition stuck_program :: "int list network_program" where
  "stuck_program = (served demo_host 1 3)\<lparr>np_lock := Locked\<rparr>"

theorem signal_cannot_stop_blocked_program_witness:
  "signal_handler demo_host (zero_runtime\<lparr>rt_programs := Some (served demo_host 1 3) # Some stuck_program # replicate 6 None,
     rt_program_count := 2\<rparr>, [3, 0]) = None"
proof -
  let ?s = "(zero_runtime\<lparr>rt_programs := Some (served demo_host 1 3) # Some stuck_program # replicate 6 None,
     rt_program_count := 2\<rparr>, [3, 0 :: int])"
  have "1 < rt_program_count (fst ?s)" "rt_programs (fst ?s) ! 1 = Some stuck_program" "np_lock stuck_program = Locked"
    "length (rt_programs (fst ?s)) = MAX_PROGRAMS" "rt_program_count (fst ?s) \<le> MAX_PROGRAMS"
    "\<forall>j < 1. \<exists>q. rt_programs (fst ?s) ! j = Some q \<and> program_ok q"
    by (simp_all add: stuck_program_def MAX_PROGRAMS_def program_ok_served)
  from conjunct1 [OF signal_cannot_stop_blocked_program [OF this]] show ?thesis .
qed

text \<open>
  What the program does for its clients: every client that is ready is read once, what it
  sent is printed and sent back to it. The name printed for a client is empty, with port 0.
\<close>

definition echo :: "'w host \<Rightarrow> int \<Rightarrow> u8 list \<Rightarrow> 'w \<Rightarrow> 'w" where
  "echo h fd bytes w = snd (h_send h fd bytes 0
     (h_print h (endl @ ''Received data from :0: '' @ cstr (map (\<lambda>b. char_of (unat b)) bytes) @ endl @ ''> '') w))"

text \<open>\<open>None\<close> where a client is gone.\<close>

fun echo_round :: "'w os_sockets \<Rightarrow> 'w host \<Rightarrow> int list \<Rightarrow> client_state list \<Rightarrow> 'w \<Rightarrow> 'w option" where
  "echo_round os h ready [] w = Some w"
| "echo_round os h ready (c # cs) w =
     (if \<not> (cl_active c \<and> cl_socket c \<in> set ready) then echo_round os h ready cs w
      else case os_recv os (cl_socket c) (NET_BUFFER_SIZE - 1) 0 w of ((n, bytes), w) \<Rightarrow>
        if n \<le> 0 then None else echo_round os h ready cs (echo h (cl_socket c) bytes w))"

lemma served_bytes_are_echoed:
  assumes "i < length (np_clients p)" "cl_lock (np_clients p ! i) = Unlocked" "np_lock p = Locked"
    and "np_handlers p = runtime_handlers h" "cl_active (np_clients p ! i)"
    and "0 \<le> cl_socket (np_clients p ! i)" "cl_socket (np_clients p ! i) < FD_SETSIZE"
    and "cl_socket (np_clients p ! i) \<in> set ready"
    and "os_recv os (cl_socket (np_clients p ! i)) (NET_BUFFER_SIZE - 1) 0 w = ((n, bytes), w')"
    and "0 < n" "n = int (length bytes)"
  shows "serve_slot os ready i (p, w) = Some (Returned (p, echo h (cl_socket (np_clients p ! i)) bytes w'))"
proof -
  note recv = assms(9) [unfolded One_nat_def]
  have "peer (client_endpoint p fd addr) = '':0''" for fd addr
    by (simp add: peer_def client_endpoint_def zero_endpoint_def show_word_def show_nat.simps digit_char_def
        char_of_def bit_0 cstr_def)
  moreover have "bytes \<noteq> []" using assms(10,11) by auto
  ultimately show ?thesis
    using assms(10,11) recv assms(6) [THEN leD] by (simp add: serve_slot_held [OF assms(1-3)] Let_def assms(4-8) heard_def runtime_handlers_def
      on_network_receive_def net_send_def client_endpoint_def echo_def)
qed

lemma serve_slots_echo:
  assumes "np_lock p = Locked" "\<forall>c \<in> set (np_clients p). cl_lock c = Unlocked" "np_handlers p = runtime_handlers h"
    and "\<forall>c \<in> set (np_clients p). cl_active c \<longrightarrow> 0 \<le> cl_socket c \<and> cl_socket c < FD_SETSIZE"
    and "\<And>fd w n bs w'. os_recv os fd (NET_BUFFER_SIZE - 1) 0 w = ((n, bs), w') \<Longrightarrow> 0 < n \<Longrightarrow> n = int (length bs)"
  shows "i \<le> length (np_clients p) \<Longrightarrow> fold_run (serve_slot os ready) [i..<length (np_clients p)] (p, w) =
    map_option (\<lambda>w. Returned (p, w)) (echo_round os h ready (drop i (np_clients p)) w)"
proof (induction "length (np_clients p) - i" arbitrary: i w)
  case (Suc k)
  then have i: "i < length (np_clients p)" by simp
  let ?c = "np_clients p ! i"
  from i have c: "?c \<in> set (np_clients p)" by simp
  note drop = Cons_nth_drop_Suc [OF i, symmetric]
  have rest: "fold_run (serve_slot os ready) [Suc i..<length (np_clients p)] (p, w) =
      map_option (\<lambda>w. Returned (p, w)) (echo_round os h ready (drop (Suc i) (np_clients p)) w)" for w
    using Suc i by simp
  have slot: "cl_lock ?c = Unlocked" using c assms(2) by blast
  obtain n bytes w' where recv: "os_recv os (cl_socket ?c) (NET_BUFFER_SIZE - 1) 0 w = ((n, bytes), w')"
    by (metis prod.collapse)
  show ?case
  proof (cases "cl_active ?c \<and> cl_socket ?c \<in> set ready")
    case False
    then have "serve_slot os ready i (p, w) = Some (Returned (p, w))"
      using serve_slot_held [OF i slot assms(1), of os ready w] assms(4) c by (auto simp: Let_def)
    with False rest show ?thesis by (auto simp: drop upt_conv_Cons [OF i])
  next
    case True
    with assms(4) c have range: "0 \<le> cl_socket ?c" "cl_socket ?c < FD_SETSIZE" by blast+
    show ?thesis
    proof (cases "0 < n")
      case False
      then have "serve_slot os ready i (p, w) = None"
        using serve_slot_held [OF i slot assms(1), of os ready w] True range recv [unfolded One_nat_def] by (simp add: Let_def)
      with False True recv [unfolded One_nat_def] show ?thesis by (simp add: drop upt_conv_Cons [OF i])
    next
      case pos: True
      from served_bytes_are_echoed [OF i slot assms(1,3) _ range _ recv pos assms(5) [OF recv pos]] True
      have "serve_slot os ready i (p, w) = Some (Returned (p, echo h (cl_socket ?c) bytes w'))" by blast
      with pos True recv [unfolded One_nat_def] rest show ?thesis by (simp add: drop upt_conv_Cons [OF i])
    qed
  qed
qed simp

text \<open>
  C38: The program is an echo server. For a network program with the handlers of the command
  line, whose mutexes are free and whose connections are valid descriptors, serving the
  clients that \<open>select\<close> reported is one round of echoing: each of them in the order of the
  table is read once, and what it sent is printed and sent back to it. If one of them is gone
  the round does not end. The program itself is left as it was. Reading is taken to deliver
  as many bytes as it says.
\<close>

theorem clients_are_echoed:
  assumes "at_rest p" "np_handlers p = runtime_handlers h"
    and "\<forall>c \<in> set (np_clients p). cl_active c \<longrightarrow> 0 \<le> cl_socket c \<and> cl_socket c < FD_SETSIZE"
    and "\<And>fd w n bs w'. os_recv os fd (NET_BUFFER_SIZE - 1) 0 w = ((n, bs), w') \<Longrightarrow> 0 < n \<Longrightarrow> n = int (length bs)"
  shows "serve_clients os ready (p, w) =
    map_option (\<lambda>w. Returned (p, w)) (echo_round os h ready (np_clients p) w)"
proof -
  let ?p = "p\<lparr>np_lock := Locked\<rparr>"
  note rest = assms(1) [unfolded at_rest_def]
  from serve_slots_echo [of ?p h os 0 ready w] rest assms(2,3,4)
  have run: "fold_run (serve_slot os ready) [0..<NET_MAX_CLIENTS] (?p, w) =
      map_option (\<lambda>w. Returned (?p, w)) (echo_round os h ready (np_clients p) w)" by simp
  show ?thesis
  proof (cases "echo_round os h ready (np_clients p) w")
    case None
    with run rest show ?thesis
      unfolding serve_clients_def by (simp add: holding_table_stops)
  next
    case (Some w')
    with run have "fold_run (serve_slot os ready) [0..<NET_MAX_CLIENTS] (?p, w) = Some (Returned (?p, w'))" by simp
    from holding_table_free [of p "fold_run (serve_slot os ready) [0..<NET_MAX_CLIENTS]" w p w'] this rest Some show ?thesis
      unfolding serve_clients_def by simp
  qed
qed

definition demo_connected :: "int list network_program" where
  "demo_connected = zero_program\<lparr>np_handlers := runtime_handlers demo_host,
     np_clients := (replicate NET_MAX_CLIENTS zero_client)[2 := zero_client\<lparr>cl_socket := 4, cl_active := True\<rparr>]\<rparr>"

theorem clients_are_echoed_witness:
  "serve_clients demo_os [4] (demo_connected, [4, 3]) = Some (Returned (demo_connected, echo demo_host 4 [65] [4, 3]))"
proof -
  have "at_rest demo_connected" "np_handlers demo_connected = runtime_handlers demo_host"
    "\<forall>c \<in> set (np_clients demo_connected). cl_active c \<longrightarrow> 0 \<le> cl_socket c \<and> cl_socket c < FD_SETSIZE"
    by (simp_all add: demo_connected_def at_rest_def zero_program_def zero_client_def NET_MAX_CLIENTS_def FD_SETSIZE_def numeral_nat)
  from clients_are_echoed [OF this, of demo_os "[4]" "[4, 3]"] show ?thesis
    by (simp add: demo_os_def demo_connected_def zero_program_def zero_client_def NET_MAX_CLIENTS_def numeral_nat)
qed

end
