(* ===== verification/State_Shell.thy ===== *)
theory State_Shell
  imports Runtime_Main Tokenizer
begin

text \<open>
  The command line for state machines, \<open>test/test_polystate.c\<close>, with a command for nearly
  every operation of the API, and the initialization test of
  \<open>test/test_polystate_machine.c\<close>. The global variables are a record; \<open>g_snapshots\<close> and
  \<open>g_has_snapshot\<close> are one array, whose entry is \<open>None\<close> while there is no snapshot. A state
  number beyond the array is \<open>Undefined\<close> where the array is read or written. The result of
  \<open>atoi\<close> is cut to \<open>unsigned int\<close>; where C leaves it undefined it is that of \<open>strtol\<close>, as in
  the GNU library. Output and memory are functions of the world, as for \<open>src/main.c\<close>.
\<close>

section \<open>State\<close>

text \<open>The context is a pointer and what it points to, \<open>None\<close> once that was freed.\<close>

record shell =
  sh_sm :: "state_machine option"
  sh_ctx :: "(address \<times> polycall_context option) option"
  sh_history :: "string list"
  sh_history_count :: nat
  sh_snapshots :: "sm_snapshot option list"

definition zero_shell :: shell where
  "zero_shell = \<lparr>sh_sm = None, sh_ctx = None, sh_history = replicate HISTORY_SIZE (replicate MAX_INPUT NUL),
     sh_history_count = 0, sh_snapshots = replicate (unat POLYCALL_MAX_STATES) None\<rparr>"

type_synonym 'w shell_step = "shell \<times> 'w \<Rightarrow> (shell \<times> 'w) run"

definition line_out :: "'w host \<Rightarrow> string \<Rightarrow> 'a \<times> 'w \<Rightarrow> 'a \<times> 'w" where
  "line_out h text = say h (text @ endl)"

text \<open>\<open>strncpy\<close> of 255 characters into a row of the array; the last byte of a row stays 0.\<close>

definition shell_add_to_history :: "string \<Rightarrow> shell \<Rightarrow> shell" where
  "shell_add_to_history command sh =
     (let n = sh_history_count sh; row = strncpy_buf MAX_INPUT command
      in if n < HISTORY_SIZE
         then sh\<lparr>sh_history := (sh_history sh)[n := row], sh_history_count := n + 1\<rparr>
         else sh\<lparr>sh_history := (tl (sh_history sh) @ [last (sh_history sh)])[HISTORY_SIZE - 1 := row]\<rparr>)"

text \<open>\<open>atoi\<close>, then the conversion to \<open>unsigned int\<close>.\<close>

definition atoi :: "string \<Rightarrow> u32" where
  "atoi s = ucast (strtoll10 s)"


section \<open>Listings\<close>

definition print_help :: string where
  "print_help =
     endl @ ''PolyCall CLI Commands:'' @ endl @
     ''  init                    - Initialize the state machine'' @ endl @
     ''  add_state NAME         - Add a new state'' @ endl @
     ''  add_transition NAME FROM TO - Add a transition between states'' @ endl @
     ''  execute NAME           - Execute a transition'' @ endl @
     ''  lock STATE_ID          - Lock a state'' @ endl @
     ''  unlock STATE_ID        - Unlock a state'' @ endl @
     ''  verify STATE_ID        - Verify state integrity'' @ endl @
     ''  snapshot STATE_ID      - Create state snapshot'' @ endl @
     ''  restore STATE_ID       - Restore from snapshot'' @ endl @
     ''  diagnostics STATE_ID   - Get state diagnostics'' @ endl @
     ''  list_states            - List all states'' @ endl @
     ''  list_transitions       - List all transitions'' @ endl @
     ''  history                - Show command history'' @ endl @
     ''  help                   - Show this help message'' @ endl @
     ''  quit                   - Exit the program'' @ endl"

definition shell_list_states :: "'w host \<Rightarrow> shell \<times> 'w \<Rightarrow> shell \<times> 'w" where
  "shell_list_states h s =
     (case sh_sm (fst s) of
        None \<Rightarrow> line_out h ''State machine not initialized'' s
      | Some m \<Rightarrow> say_all h (state_line m) (unat (sm_num_states m)) (line_out h (endl @ ''States:'') s))"

definition shell_list_transitions :: "'w host \<Rightarrow> shell \<times> 'w \<Rightarrow> shell \<times> 'w" where
  "shell_list_transitions h s =
     (case sh_sm (fst s) of
        None \<Rightarrow> line_out h ''State machine not initialized'' s
      | Some m \<Rightarrow> say_all h (transition_line m) (unat (sm_num_transitions m)) (line_out h (endl @ ''Transitions:'') s))"

definition shell_show_history :: "'w host \<Rightarrow> shell \<times> 'w \<Rightarrow> shell \<times> 'w" where
  "shell_show_history h s =
     say_all h (\<lambda>i. ''  '' @ show_nat (i + 1) @ '': '' @ cstr (sh_history (fst s) ! i)) (sh_history_count (fst s))
       (line_out h (endl @ ''Command History:'') s)"


section \<open>Start and end\<close>

definition shell_add_default :: "'w host \<Rightarrow> string \<Rightarrow> string \<Rightarrow> bool \<Rightarrow> shell \<times> 'w \<Rightarrow> shell \<times> 'w" where
  "shell_add_default h name callback is_final s =
     ((fst s)\<lparr>sh_sm := snd (polycall_sm_add_state (h_time h (snd s)) (Some name) (h_code h callback) 0 is_final
          (sh_sm (fst s)))\<rparr>, snd s)"

definition default_shell_states :: "(string \<times> string \<times> bool) list" where
  "default_shell_states =
     [(''INIT'', ''on_init'', False), (''READY'', ''on_ready'', False), (''RUNNING'', ''on_running'', False),
      (''PAUSED'', ''on_paused'', False), (''ERROR'', ''on_error'', True)]"

definition shell_initialize :: "'w host \<Rightarrow> shell \<times> 'w \<Rightarrow> shell \<times> 'w" where
  "shell_initialize h s =
     (let (block, w) = h_malloc h (snd s)
      in case polycall_init_with_config block True
            (Some \<lparr>cfg_flags = 0, cfg_memory_pool_size = 0, cfg_user_data = 0\<rparr>) of
           (POLYCALL_SUCCESS, Some (p, c)) \<Rightarrow>
             (let (memory, w) = h_calloc h w; s = ((fst s)\<lparr>sh_ctx := Some (p, Some c)\<rparr>, w)
              in case polycall_sm_create_with_integrity memory (h_time h w) p True None of
                   (SM_SUCCESS, sm) \<Rightarrow>
                     line_out h ''State machine initialized with default states''
                       (fold (\<lambda>(name, callback, is_final). shell_add_default h name callback is_final)
                         default_shell_states (apfst (sh_sm_update (\<lambda>_. sm)) s))
                 | _ \<Rightarrow> apfst (sh_ctx_update (\<lambda>_. Some (p, polycall_cleanup (Some c))))
                          (line_out h ''Failed to create state machine'' s))
         | _ \<Rightarrow> line_out h ''Failed to initialize PolyCall context'' (fst s, w))"

text \<open>Freeing a context that was freed is undefined.\<close>

definition shell_cleanup :: "'w host \<Rightarrow> 'w shell_step" where
  "shell_cleanup h s =
     (let sh = (fst s)\<lparr>sh_sm := polycall_sm_destroy (sh_sm (fst s))\<rparr>
      in case sh_ctx sh of None \<Rightarrow> returns (sh, snd s)
         | Some (p, None) \<Rightarrow> Some Undefined
         | Some (p, Some c) \<Rightarrow> returns (sh\<lparr>sh_ctx := None\<rparr>, snd s))"


section \<open>Commands on a state machine\<close>

definition with_machine :: "'w host \<Rightarrow> (state_machine \<Rightarrow> 'w shell_step) \<Rightarrow> 'w shell_step" where
  "with_machine h body s =
     (case sh_sm (fst s) of None \<Rightarrow> returns (line_out h ''State machine not initialized'' s)
      | Some m \<Rightarrow> body m s)"

definition with_argument :: "'w host \<Rightarrow> string \<Rightarrow> string option \<Rightarrow> (string \<Rightarrow> 'w shell_step) \<Rightarrow> 'w shell_step" where
  "with_argument h usage arg body s =
     (case arg of None \<Rightarrow> returns (line_out h (''Usage: '' @ usage) s) | Some a \<Rightarrow> body a s)"

text \<open>The machine after an operation of the API, and one of two messages.\<close>

definition report :: "'w host \<Rightarrow> string \<Rightarrow> string \<Rightarrow> sm_status \<times> state_machine option \<Rightarrow> 'w shell_step" where
  "report h success failure result s =
     returns (line_out h (if fst result = SM_SUCCESS then success else failure) ((fst s)\<lparr>sh_sm := snd result\<rparr>, snd s))"

definition shell_add_state :: "'w host \<Rightarrow> string option \<Rightarrow> 'w shell_step" where
  "shell_add_state h arg1 s = with_machine h (\<lambda>m. with_argument h ''add_state NAME'' arg1 (\<lambda>name.
     report h (''State '' @ quote name @ '' added successfully'') ''Failed to add state''
       (polycall_sm_add_state (h_time h (snd s)) (Some name) 0 0 False (Some m)))) s"

definition shell_add_transition ::
  "'w host \<Rightarrow> string option \<Rightarrow> string option \<Rightarrow> string option \<Rightarrow> 'w shell_step" where
  "shell_add_transition h arg1 arg2 arg3 s =
     (let usage = ''add_transition NAME FROM_STATE TO_STATE''
      in with_machine h (\<lambda>m. with_argument h usage arg1 (\<lambda>name. with_argument h usage arg2 (\<lambda>from.
         with_argument h usage arg3 (\<lambda>to.
           report h (''Transition '' @ quote name @ '' added successfully'') ''Failed to add transition''
             (polycall_sm_add_transition (Some name) (atoi from) (atoi to) 0 None (Some m)))))) s)"

text \<open>The callbacks print a line each.\<close>

definition callback_text :: "'w host \<Rightarrow> address \<Rightarrow> string" where
  "callback_text h f =
     (case List.find (\<lambda>(callback, text). f = h_code h callback)
        [(''on_init'', ''initialized''), (''on_ready'', ''ready''), (''on_running'', ''running''),
         (''on_paused'', ''paused''), (''on_error'', ''error'')] of
        None \<Rightarrow> [] | Some (callback, text) \<Rightarrow> ''State callback: System '' @ text @ endl)"

definition shell_execute :: "'w host \<Rightarrow> string option \<Rightarrow> 'w shell_step" where
  "shell_execute h arg1 s = with_machine h (\<lambda>m. with_argument h ''execute TRANSITION_NAME'' arg1 (\<lambda>name s.
     case polycall_sm_execute_transition (h_time h (snd s)) (Some name) (Some m) of
       (status, sm, calls) \<Rightarrow>
         report h (''Transition '' @ quote name @ '' executed successfully'') ''Failed to execute transition''
           (status, sm) (fold (\<lambda>(f, ctx). say h (callback_text h f)) calls s))) s"

definition shell_verify :: "'w host \<Rightarrow> string option \<Rightarrow> 'w shell_step" where
  "shell_verify h arg1 s = with_machine h (\<lambda>m. with_argument h ''verify STATE_ID'' arg1 (\<lambda>a.
     report h (''State '' @ show_word (atoi a) @ '' integrity verified'') ''State integrity verification failed''
       (polycall_sm_verify_state_integrity (atoi a) (Some m)))) s"

definition shell_lock :: "'w host \<Rightarrow> string option \<Rightarrow> 'w shell_step" where
  "shell_lock h arg1 s = with_machine h (\<lambda>m. with_argument h ''lock STATE_ID'' arg1 (\<lambda>a.
     report h (''State '' @ show_word (atoi a) @ '' locked'') ''Failed to lock state''
       (polycall_sm_lock_state (h_time h (snd s)) (atoi a) (Some m)))) s"

definition shell_unlock :: "'w host \<Rightarrow> string option \<Rightarrow> 'w shell_step" where
  "shell_unlock h arg1 s = with_machine h (\<lambda>m. with_argument h ''unlock STATE_ID'' arg1 (\<lambda>a.
     report h (''State '' @ show_word (atoi a) @ '' unlocked'') ''Failed to unlock state''
       (polycall_sm_unlock_state (h_time h (snd s)) (atoi a) (Some m)))) s"

definition shell_snapshot :: "'w host \<Rightarrow> string option \<Rightarrow> 'w shell_step" where
  "shell_snapshot h arg1 s = with_machine h (\<lambda>m. with_argument h ''snapshot STATE_ID'' arg1 (\<lambda>a s.
     case polycall_sm_create_state_snapshot (h_time h (snd s)) (atoi a) True (Some m) of
       Inl err \<Rightarrow> returns (line_out h ''Failed to create snapshot'' s)
     | Inr snapshot \<Rightarrow>
         if atoi a \<ge> POLYCALL_MAX_STATES then Some Undefined
         else returns (line_out h (''Created snapshot of state '' @ show_word (atoi a))
           ((fst s)\<lparr>sh_snapshots := (sh_snapshots (fst s))[unat (atoi a) := Some snapshot]\<rparr>, snd s)))) s"

definition shell_restore :: "'w host \<Rightarrow> string option \<Rightarrow> 'w shell_step" where
  "shell_restore h arg1 s = with_machine h (\<lambda>m. with_argument h ''restore STATE_ID'' arg1 (\<lambda>a s.
     if atoi a \<ge> POLYCALL_MAX_STATES then Some Undefined
     else case sh_snapshots (fst s) ! unat (atoi a) of
       None \<Rightarrow> returns (line_out h (''No snapshot exists for state '' @ show_word (atoi a)) s)
     | Some snapshot \<Rightarrow>
         report h (''Restored state '' @ show_word (atoi a) @ '' from snapshot'') ''Failed to restore from snapshot''
           (polycall_sm_restore_state_from_snapshot (h_time h (snd s)) (Some snapshot) (Some m)) s)) s"

definition diagnostics_text :: "u32 \<Rightarrow> sm_diagnostics \<Rightarrow> string" where
  "diagnostics_text i d =
     ''State '' @ show_word i @ '' diagnostics:'' @ endl @
     ''  Creation time: '' @ show_word (dg_creation_time d) @ endl @
     ''  Last modified: '' @ show_word (dg_last_modified d) @ endl @
     ''  Is locked: '' @ (if dg_is_locked d then ''yes'' else ''no'') @ endl @
     ''  Checksum: '' @ show_word (dg_current_checksum d) @ endl"

definition shell_diagnostics :: "'w host \<Rightarrow> string option \<Rightarrow> 'w shell_step" where
  "shell_diagnostics h arg1 s = with_machine h (\<lambda>m. with_argument h ''diagnostics STATE_ID'' arg1 (\<lambda>a s. returns
     (case polycall_sm_get_state_diagnostics (atoi a) True (Some m) of
        Inl err \<Rightarrow> line_out h ''Failed to get state diagnostics'' s
      | Inr d \<Rightarrow> say h (diagnostics_text (atoi a) d) s))) s"


section \<open>The prompt\<close>

definition shell_command ::
  "'w host \<Rightarrow> string \<Rightarrow> string option \<Rightarrow> string option \<Rightarrow> string option \<Rightarrow> 'w shell_step" where
  "shell_command h command arg1 arg2 arg3 s =
     (if command = ''help'' then returns (say h print_help s)
      else if command = ''init'' then returns
        (if sh_sm (fst s) \<noteq> None then line_out h ''State machine already initialized'' s else shell_initialize h s)
      else if command = ''add_state'' then shell_add_state h arg1 s
      else if command = ''add_transition'' then shell_add_transition h arg1 arg2 arg3 s
      else if command = ''execute'' then shell_execute h arg1 s
      else if command = ''verify'' then shell_verify h arg1 s
      else if command = ''snapshot'' then shell_snapshot h arg1 s
      else if command = ''restore'' then shell_restore h arg1 s
      else if command = ''lock'' then shell_lock h arg1 s
      else if command = ''unlock'' then shell_unlock h arg1 s
      else if command = ''diagnostics'' then shell_diagnostics h arg1 s
      else if command = ''list_states'' then returns (shell_list_states h s)
      else if command = ''list_transitions'' then returns (shell_list_transitions h s)
      else if command = ''history'' then returns (shell_show_history h s)
      else returns (line_out h (''Unknown command. Type '' @ quote ''help'' @ '' for available commands'') s))"

text \<open>The words of a line, and one line as \<open>fgets\<close> delivers it; the result says whether to go on.\<close>

definition shell_words :: "string \<Rightarrow> string option \<times> string option \<times> string option \<times> string option" where
  "shell_words input =
     (let (command, rest) = strtok input; (arg1, rest) = strtok rest;
          (arg2, rest) = strtok rest; (arg3, rest) = strtok rest
      in (command, arg1, arg2, arg3))"

definition shell_line :: "'w host \<Rightarrow> string \<Rightarrow> shell \<times> 'w \<Rightarrow> (bool \<times> shell \<times> 'w) run" where
  "shell_line h chunk s =
     (let input = takeWhile (\<lambda>c. c \<noteq> CHR 0x0A) (cstr chunk)
      in if input = [] then returns (True, s)
         else let s = apfst (shell_add_to_history input) s
              in case shell_words input of
                   (None, _) \<Rightarrow> returns (True, s)
                 | (Some command, arg1, arg2, arg3) \<Rightarrow>
                     if command = ''quit'' then returns (False, s)
                     else run_then (shell_command h command arg1 arg2 arg3 s) (\<lambda>s. returns (True, s)))"

function shell_loop :: "'w host \<Rightarrow> string \<Rightarrow> 'w shell_step" where
  "shell_loop h stdin s =
     (case fgets (MAX_INPUT - 1) False stdin of
        None \<Rightarrow> returns (say h (endl @ ''> '') s)
      | Some (chunk, rest, at_end) \<Rightarrow>
          run_then (shell_line h chunk (say h (endl @ ''> '') s)) (\<lambda>(more, s).
            if more then shell_loop h rest s else returns s))"
  by pat_completeness auto

termination
  by (relation "measure (\<lambda>(_, stdin, _). length stdin)") (auto dest!: fgets_progress simp: MAX_INPUT_def)

declare shell_loop.simps [simp del]

definition shell_main :: "'w host \<Rightarrow> string \<Rightarrow> 'w \<Rightarrow> (int \<times> shell \<times> 'w) run" where
  "shell_main h stdin w =
     run_then (shell_loop h stdin
         (say h (''PolyCall CLI - Type '' @ quote ''help'' @ '' for commands'' @ endl) (zero_shell, w))) (\<lambda>s.
     run_then (shell_cleanup h s) (\<lambda>s. returns (0, line_out h ''Goodbye!'' s)))"


section \<open>The initialization test\<close>

text \<open>The assertions of the test in their order, and its two calls to release what it made.\<close>

definition test_state_machine_initialization ::
  "(state_callback \<Rightarrow> address) \<Rightarrow> address \<Rightarrow> bool \<Rightarrow> u64 \<Rightarrow> bool" where
  "test_state_machine_initialization linker ctx_block calloc_ok now =
     (case initialize_state_machine linker ctx_block calloc_ok now True True of
        (SM_SUCCESS, Some (ctx, c), Some m) \<Rightarrow>
          unat (sm_num_states m) = length (DEFAULT_STATES linker) \<and>
          list_all (\<lambda>d. list_ex (\<lambda>st. cstr (st_name st) = sc_name d) (take (unat (sm_num_states m)) (sm_states m)))
            (DEFAULT_STATES linker) \<and>
          sm_num_transitions m > 0 \<and>
          polycall_sm_destroy (Some m) = None \<and> polycall_cleanup (Some c) = None
      | _ \<Rightarrow> False)"

end
