(* ===== verification/State_Shell_Laws.thy ===== *)
theory State_Shell_Laws
  imports State_Shell Runtime_Laws State_Machine_Properties
begin

text \<open>
  The command line for state machines as a client of the API: what it keeps is a session of
  \<open>State_Machine_Session\<close>, each line makes the one call of the session its words ask for or
  none, and the line that makes the machine starts the session with five calls. A command
  can be undefined in one way only.
\<close>

declare split_paired_Ex [simp del]

section \<open>The session of the shell\<close>

definition shell_session :: "shell \<Rightarrow> sm_session" where
  "shell_session sh = \<lparr>ses_machine = sh_sm sh,
     ses_snapshots = (\<lambda>i. if i < POLYCALL_MAX_STATES then sh_snapshots sh ! unat i else None)\<rparr>"

lemma shell_session_simps [simp]:
  "ses_machine (shell_session sh) = sh_sm sh"
  "shell_session (sh\<lparr>sh_sm := sm\<rparr>) = (shell_session sh)\<lparr>ses_machine := sm\<rparr>"
  "shell_session (sh\<lparr>sh_ctx := c\<rparr>) = shell_session sh"
  "shell_session (shell_add_to_history t sh) = shell_session sh"
  by (simp_all add: shell_session_def shell_add_to_history_def Let_def cong: if_cong)

lemma shell_snapshot_read: "i < 32 \<Longrightarrow> ses_snapshots (shell_session sh) i = sh_snapshots sh ! unat i"
  by (simp add: shell_session_def)

lemma shell_snapshot_write:
  "length (sh_snapshots sh) = 32 \<Longrightarrow> i < 32 \<Longrightarrow>
   shell_session (sh\<lparr>sh_snapshots := (sh_snapshots sh)[unat i := Some ss]\<rparr>) =
     (shell_session sh)\<lparr>ses_snapshots := (ses_snapshots (shell_session sh))(i \<mapsto> ss)\<rparr>"
  by (auto simp: shell_session_def nth_list_update word_less_nat_alt word_unat_eq_iff intro!: ext)

lemma fst_output [simp]: "fst (line_out h text s) = fst s"
  by (simp add: line_out_def)

lemma fst_calls [simp]: "fst (fold (\<lambda>(f, ctx). say h (g f)) calls s) = fst s"
  by (induction calls arbitrary: s) auto

definition shell_ok :: "shell \<Rightarrow> bool" where
  "shell_ok sh \<longleftrightarrow> length (sh_snapshots sh) = 32 \<and>
     (if sh_sm sh = None then set (sh_snapshots sh) \<subseteq> {None} else session_wf (shell_session sh))"

section \<open>What the lines ask for\<close>

text \<open>The call of the API the words of a command stand for, if they are complete.\<close>

definition command_call :: "string \<Rightarrow> string option \<Rightarrow> string option \<Rightarrow> string option \<Rightarrow> sm_call option" where
  "command_call command arg1 arg2 arg3 =
     (case arg1 of None \<Rightarrow> None
      | Some a \<Rightarrow>
          if command = ''add_state'' then Some (AddState (Some a) 0 0 False)
          else if command = ''add_transition'' then
            (case (arg2, arg3) of
               (Some from, Some to) \<Rightarrow> Some (AddTransition (Some a) (atoi from) (atoi to) 0 None)
             | _ \<Rightarrow> None)
          else if command = ''execute'' then Some (ExecuteTransition (Some a))
          else if command = ''verify'' then Some (VerifyState (atoi a))
          else if command = ''snapshot'' then Some (TakeSnapshot (atoi a))
          else if command = ''restore'' then Some (RestoreSnapshot (atoi a))
          else if command = ''lock'' then Some (LockState (atoi a))
          else if command = ''unlock'' then Some (UnlockState (atoi a))
          else None)"

definition line_call :: "string \<Rightarrow> sm_call option" where
  "line_call line =
     (case shell_words line of
        (None, _) \<Rightarrow> None
      | (Some command, arg1, arg2, arg3) \<Rightarrow> command_call command arg1 arg2 arg3)"

lemma command_call_simps [simp]:
  "command_call c None x y = None"
  "command_call ''add_state'' (Some a) x y = Some (AddState (Some a) 0 0 False)"
  "command_call ''add_transition'' (Some a) None y = None"
  "command_call ''add_transition'' (Some a) (Some b) None = None"
  "command_call ''add_transition'' (Some a) (Some b) (Some d) = Some (AddTransition (Some a) (atoi b) (atoi d) 0 None)"
  "command_call ''execute'' (Some a) x y = Some (ExecuteTransition (Some a))"
  "command_call ''verify'' (Some a) x y = Some (VerifyState (atoi a))"
  "command_call ''snapshot'' (Some a) x y = Some (TakeSnapshot (atoi a))"
  "command_call ''restore'' (Some a) x y = Some (RestoreSnapshot (atoi a))"
  "command_call ''lock'' (Some a) x y = Some (LockState (atoi a))"
  "command_call ''unlock'' (Some a) x y = Some (UnlockState (atoi a))"
  by (simp_all add: command_call_def)

lemma command_call_None:
  "c \<notin> {''add_state'', ''add_transition'', ''execute'', ''verify'', ''snapshot'', ''restore'', ''lock'', ''unlock''} \<Longrightarrow>
   command_call c a x y = None"
  by (simp add: command_call_def split: option.split)

text \<open>A command of a shell without a machine changes nothing; with one, it is its call.\<close>

definition moves :: "sm_call option \<Rightarrow> shell \<Rightarrow> shell \<Rightarrow> bool" where
  "moves c a b \<longleftrightarrow> length (sh_snapshots b) = length (sh_snapshots a) \<and>
     (if sh_sm a = None then b = a
      else case c of None \<Rightarrow> shell_session b = shell_session a
           | Some e \<Rightarrow> \<exists>now. shell_session b = session_step (now, e) (shell_session a))"

lemma moves_same [simp]: "moves None sh sh" "sh_sm sh = None \<Longrightarrow> moves c sh sh"
  by (simp_all add: moves_def)

lemma moves_ok: "shell_ok a \<Longrightarrow> moves c a b \<Longrightarrow> shell_ok b"
proof -
  assume ok: "shell_ok a" and mv: "moves c a b"
  show "shell_ok b"
  proof (cases "sh_sm a = None")
    case False
    with ok mv have "session_wf (shell_session b)"
      by (auto simp: shell_ok_def moves_def session_wf_step split: option.splits)
    moreover from this have "sh_sm b \<noteq> None" by (simp add: session_wf_def)
    ultimately show ?thesis using ok mv by (simp add: shell_ok_def moves_def del: not_None_eq)
  qed (use ok mv in \<open>simp add: moves_def\<close>)
qed

lemma moves_machine:
  "sh_sm sh = Some m \<Longrightarrow> session_step (t, e) (shell_session sh) = (shell_session sh)\<lparr>ses_machine := sm\<rparr> \<Longrightarrow>
   moves (Some e) sh (sh\<lparr>sh_sm := sm\<rparr>)"
  by (simp add: moves_def) metis

text \<open>What a command does, whatever the state.\<close>

definition obeys :: "sm_call option \<Rightarrow> 'w shell_step \<Rightarrow> bool" where
  "obeys c f \<longleftrightarrow> (\<forall>s. \<exists>s'. f s = Some (Returned s') \<and> moves c (fst s) (fst s'))"

lemma report_moves:
  assumes "sh_sm (fst s) = Some m"
    and "session_step (t, e) (shell_session (fst s)) = (shell_session (fst s))\<lparr>ses_machine := snd r\<rparr>"
  shows "\<exists>s'. report h a b r s = Some (Returned s') \<and> moves (Some e) (fst s) (fst s')"
  using assms moves_machine [OF assms(1), of t e "snd r"] by (simp add: report_def)

lemma with_machine_moves:
  assumes "\<And>m. sh_sm (fst s) = Some m \<Longrightarrow> \<exists>s'. body m s = Some (Returned s') \<and> moves c (fst s) (fst s')"
  shows "\<exists>s'. with_machine h body s = Some (Returned s') \<and> moves c (fst s) (fst s')"
  using assms by (cases "sh_sm (fst s)") (simp_all add: with_machine_def)

lemma with_argument_moves:
  assumes "arg = None \<Longrightarrow> c = None"
    and "\<And>a. arg = Some a \<Longrightarrow> \<exists>s'. body a s = Some (Returned s') \<and> moves c (fst s) (fst s')"
  shows "\<exists>s'. with_argument h usage arg body s = Some (Returned s') \<and> moves c (fst s) (fst s')"
  using assms by (cases arg) (simp_all add: with_argument_def)

lemma commands_obey:
  "obeys (command_call ''add_state'' arg1 arg2 arg3) (shell_add_state h arg1)"
  "obeys (command_call ''add_transition'' arg1 arg2 arg3) (shell_add_transition h arg1 arg2 arg3)"
  "obeys (command_call ''verify'' arg1 arg2 arg3) (shell_verify h arg1)"
  "obeys (command_call ''lock'' arg1 arg2 arg3) (shell_lock h arg1)"
  "obeys (command_call ''unlock'' arg1 arg2 arg3) (shell_unlock h arg1)"
proof -
  show "obeys (command_call ''add_state'' arg1 arg2 arg3) (shell_add_state h arg1)"
    unfolding obeys_def shell_add_state_def
    by (intro allI with_machine_moves with_argument_moves; simp only: command_call_simps)
      (rule report_moves [where t = t for t]; simp)
  show "obeys (command_call ''add_transition'' arg1 arg2 arg3) (shell_add_transition h arg1 arg2 arg3)"
    unfolding obeys_def shell_add_transition_def Let_def
    by (intro allI with_machine_moves with_argument_moves; simp only: command_call_simps)
      (rule report_moves [where t = 0]; simp)
  show "obeys (command_call ''verify'' arg1 arg2 arg3) (shell_verify h arg1)"
    unfolding obeys_def shell_verify_def
    by (intro allI with_machine_moves with_argument_moves; simp only: command_call_simps)
      (rule report_moves [where t = 0]; simp)
  show "obeys (command_call ''lock'' arg1 arg2 arg3) (shell_lock h arg1)"
    unfolding obeys_def shell_lock_def
    by (intro allI with_machine_moves with_argument_moves; simp only: command_call_simps)
      (rule report_moves [where t = t for t]; simp)
  show "obeys (command_call ''unlock'' arg1 arg2 arg3) (shell_unlock h arg1)"
    unfolding obeys_def shell_unlock_def
    by (intro allI with_machine_moves with_argument_moves; simp only: command_call_simps)
      (rule report_moves [where t = t for t]; simp)
qed

lemma execute_obeys: "obeys (command_call ''execute'' arg1 arg2 arg3) (shell_execute (h :: 'a host) arg1)"
  unfolding obeys_def shell_execute_def
proof (intro allI with_machine_moves with_argument_moves; simp only: command_call_simps)
  fix s :: "shell \<times> 'a" and m name
  assume m: "sh_sm (fst s) = Some m"
  obtain status sm calls where x: "polycall_sm_execute_transition (h_time h (snd s)) (Some name) (Some m) = (status, sm, calls)"
    by (metis prod.collapse)
  let ?t = "fold (\<lambda>(f, ctx). say h (callback_text h f)) calls s"
  from m x report_moves [of ?t m "h_time h (snd s)" "ExecuteTransition (Some name)" "(status, sm)"]
  show "\<exists>s'. (case polycall_sm_execute_transition (h_time h (snd s)) (Some name) (Some m) of
       (status, sm, calls) \<Rightarrow>
         report h (''Transition '' @ quote name @ '' executed successfully'') ''Failed to execute transition''
           (status, sm) (fold (\<lambda>(f, ctx). say h (callback_text h f)) calls s)) = Some (Returned s') \<and>
         moves (Some (ExecuteTransition (Some name))) (fst s) (fst s')" by simp
qed

lemma diagnostics_obeys: "obeys None (shell_diagnostics h arg1)"
  unfolding obeys_def shell_diagnostics_def
  by (intro allI with_machine_moves with_argument_moves) (simp_all split: sum.splits)

lemma snapshot_moves:
  assumes "shell_ok (fst s)"
  shows "\<exists>s'. shell_snapshot h arg1 s = Some (Returned s') \<and>
    moves (command_call ''snapshot'' arg1 arg2 arg3) (fst s) (fst s')"
  unfolding shell_snapshot_def
proof (intro with_machine_moves with_argument_moves; simp only: command_call_simps)
  fix m a
  assume m: "sh_sm (fst s) = Some m"
  with assms have wf: "sm_wf m" and len: "length (sh_snapshots (fst s)) = 32"
    by (simp_all add: shell_ok_def session_wf_def)
  let ?c = "polycall_sm_create_state_snapshot (h_time h (snd s)) (atoi a) True (Some m)"
  let ?e = "(h_time h (snd s), TakeSnapshot (atoi a))"
  show "\<exists>s'. (case ?c of Inl err \<Rightarrow> returns (line_out h ''Failed to create snapshot'' s)
     | Inr snapshot \<Rightarrow>
         if atoi a \<ge> POLYCALL_MAX_STATES then Some Undefined
         else returns (line_out h (''Created snapshot of state '' @ show_word (atoi a))
           ((fst s)\<lparr>sh_snapshots := (sh_snapshots (fst s))[unat (atoi a) := Some snapshot]\<rparr>, snd s))) = Some (Returned s') \<and>
       moves (Some (TakeSnapshot (atoi a))) (fst s) (fst s')"
  proof (cases ?c)
    case (Inl err)
    then have "session_step ?e (shell_session (fst s)) = shell_session (fst s)" using m by simp
    then have "moves (Some (TakeSnapshot (atoi a))) (fst s) (fst s)" by (auto simp: moves_def intro: sym)
    with Inl show ?thesis by simp
  next
    case (Inr ss)
    from take_snapshot_Inr [OF Inr] wf have i: "atoi a < 32" by (auto simp: sm_wf_def states_wf_def)
    let ?b = "(fst s)\<lparr>sh_snapshots := (sh_snapshots (fst s))[unat (atoi a) := Some ss]\<rparr>"
    have "shell_session ?b = session_step ?e (shell_session (fst s))"
      using m Inr shell_snapshot_write [OF len i, of ss] by simp
    then have "moves (Some (TakeSnapshot (atoi a))) (fst s) ?b" using m by (auto simp: moves_def)
    with Inr i show ?thesis by (simp add: not_le)
  qed
qed

text \<open>The restore command reads the array at any number.\<close>

lemma restore_outcome:
  "(sh_sm (fst s) \<noteq> None \<and> (\<exists>a. arg1 = Some a \<and> 32 \<le> atoi a) \<and> shell_restore h arg1 s = Some Undefined) \<or>
   (\<not> (sh_sm (fst s) \<noteq> None \<and> (\<exists>a. arg1 = Some a \<and> 32 \<le> atoi a)) \<and>
    (\<exists>s'. shell_restore h arg1 s = Some (Returned s') \<and> moves (command_call ''restore'' arg1 arg2 arg3) (fst s) (fst s')))"
proof (cases "\<exists>m a. sh_sm (fst s) = Some m \<and> arg1 = Some a")
  case False
  then show ?thesis
    by (cases "sh_sm (fst s)"; cases arg1) (simp_all add: shell_restore_def with_machine_def with_argument_def)
next
  case True
  then obtain m a where m: "sh_sm (fst s) = Some m" and a: "arg1 = Some a" by blast
  let ?e = "(h_time h (snd s), RestoreSnapshot (atoi a))"
  show ?thesis
  proof (cases "atoi a < 32")
    case True
    show ?thesis
    proof (cases "sh_snapshots (fst s) ! unat (atoi a)")
      case None
      with True have "session_step ?e (shell_session (fst s)) = shell_session (fst s)"
        by (simp add: shell_snapshot_read)
      then have "moves (Some (RestoreSnapshot (atoi a))) (fst s) (fst s)" by (auto simp: moves_def intro: sym)
      with None m a True show ?thesis by (simp add: shell_restore_def with_machine_def with_argument_def not_le)
    next
      case (Some ss)
      let ?r = "polycall_sm_restore_state_from_snapshot (h_time h (snd s)) (Some ss) (Some m)"
      have "session_step ?e (shell_session (fst s)) = (shell_session (fst s))\<lparr>ses_machine := snd ?r\<rparr>"
        using m Some True by (simp add: shell_snapshot_read)
      from report_moves [OF m this] m a True Some show ?thesis
        by (simp add: shell_restore_def with_machine_def with_argument_def not_le)
    qed
  qed (use m a in \<open>simp add: shell_restore_def with_machine_def with_argument_def not_less\<close>)
qed

section \<open>Lines and the loop\<close>

definition overruns :: "string \<Rightarrow> string option \<Rightarrow> shell \<Rightarrow> bool" where
  "overruns command arg1 sh \<longleftrightarrow> command = ''restore'' \<and> sh_sm sh \<noteq> None \<and> (\<exists>a. arg1 = Some a \<and> 32 \<le> atoi a)"

text \<open>The five calls a session begins with, and a world that always has memory.\<close>

definition default_calls :: "'w host \<Rightarrow> sm_call list" where
  "default_calls h =
     [AddState (Some ''INIT'') (h_code h ''on_init'') 0 False,
      AddState (Some ''READY'') (h_code h ''on_ready'') 0 False,
      AddState (Some ''RUNNING'') (h_code h ''on_running'') 0 False,
      AddState (Some ''PAUSED'') (h_code h ''on_paused'') 0 False,
      AddState (Some ''ERROR'') (h_code h ''on_error'') 0 True]"

definition ample :: "'w host \<Rightarrow> bool" where
  "ample h \<longleftrightarrow> (\<forall>w. fst (h_malloc h w) \<noteq> 0 \<and> fst (h_calloc h w))"

text \<open>A session: the calls \<open>cs\<close>, each at some time, on a fresh machine.\<close>

definition called :: "sm_call list \<Rightarrow> shell \<Rightarrow> bool" where
  "called cs sh \<longleftrightarrow> (\<exists>now ctx es. ctx \<noteq> 0 \<and> map snd es = cs \<and>
     shell_session sh = fold session_step es (fresh_session now ctx None))"

definition begins :: "'w host \<Rightarrow> shell \<Rightarrow> shell \<Rightarrow> bool" where
  "begins h a b \<longleftrightarrow> sh_sm a = None \<and> sh_snapshots b = sh_snapshots a \<and>
     (sh_sm b = None \<and> \<not> ample h \<or> called (default_calls h) b)"

lemma shell_add_default_session:
  "shell_session (fst (shell_add_default h name callback is_final s)) =
     session_step (h_time h (snd s), AddState (Some name) (h_code h callback) 0 is_final) (shell_session (fst s)) \<and>
   sh_snapshots (fst (shell_add_default h name callback is_final s)) = sh_snapshots (fst s) \<and>
   snd (shell_add_default h name callback is_final s) = snd s"
  by (simp add: shell_add_default_def)

lemma add_defaults_session:
  "shell_session (fst (fold (\<lambda>(name, callback, is_final). shell_add_default h name callback is_final) ds s)) =
     fold session_step (map (\<lambda>(name, callback, is_final).
        (h_time h (snd s), AddState (Some name) (h_code h callback) 0 is_final)) ds) (shell_session (fst s)) \<and>
   sh_snapshots (fst (fold (\<lambda>(name, callback, is_final). shell_add_default h name callback is_final) ds s)) =
     sh_snapshots (fst s)"
proof (induction ds arbitrary: s)
  case (Cons d ds)
  obtain name callback is_final where d: "d = (name, callback, is_final)" by (metis prod_cases3)
  show ?case
    using Cons.IH [of "shell_add_default h name callback is_final s"] shell_add_default_session [of h name callback is_final s]
    by (simp add: d)
qed simp

lemma initialize_machine:
  assumes "h_malloc h (snd s) = (p, w)" "h_calloc h w = (True, w1)" "p \<noteq> 0"
  shows "sh_sm (fst (shell_initialize h s)) \<noteq> None"
proof -
  have keep: "(sh_sm (fst (shell_add_default h n c f t)) = None) = (sh_sm (fst t) = None)" for n c f t
    by (simp add: shell_add_default_def)
  from assms show ?thesis
    by (simp add: shell_initialize_def polycall_init_with_config_def polycall_sm_create_with_integrity_def
        default_shell_states_def keep Let_def del: not_None_eq)
qed

lemma initialize_begins:
  assumes "shell_ok (fst s)" "sh_sm (fst s) = None"
  shows "begins h (fst s) (fst (shell_initialize h s))"
proof -
  obtain p w where m: "h_malloc h (snd s) = (p, w)" by (metis prod.collapse)
  obtain memory w1 where c: "h_calloc h w = (memory, w1)" by (metis prod.collapse)
  from assms have none: "sh_snapshots (fst s) ! unat i = None" if "i < 32" for i :: u32
    using that by (auto simp: shell_ok_def subset_iff word_less_nat_alt intro: nth_mem)
  show ?thesis
  proof (cases "p \<noteq> 0 \<and> memory")
    case False
    with m c have "\<not> ample h" unfolding ample_def by (metis fst_conv)
    with False m c assms(2) show ?thesis
      by (auto simp: shell_initialize_def polycall_init_with_config_def polycall_sm_create_with_integrity_def
          begins_def Let_def)
  next
    case True
    let ?sh = "\<lambda>c. (fst s)\<lparr>sh_ctx := c, sh_sm := snd (polycall_sm_create_with_integrity True (h_time h w1) p True None)\<rparr>"
    have fresh: "shell_session (?sh c) = fresh_session (h_time h w1) p None" for c
      using none by (auto simp: shell_session_def fresh_session_def intro!: ext)
    obtain c' where i: "shell_initialize h s = line_out h ''State machine initialized with default states''
        (fold (\<lambda>(name, callback, is_final). shell_add_default h name callback is_final) default_shell_states (?sh c', w1))"
      using True m c by (simp add: shell_initialize_def polycall_init_with_config_def
          polycall_sm_create_with_integrity_def Let_def)
    let ?es = "map (\<lambda>(name, callback, is_final). (h_time h w1, AddState (Some name) (h_code h callback) 0 is_final)) default_shell_states"
    have "map snd ?es = default_calls h" by (simp add: default_shell_states_def default_calls_def)
    with i add_defaults_session [of h default_shell_states "(?sh c', w1)"] fresh [of c'] assms(2) True
    have "begins h (fst s) (fst (fold (\<lambda>(name, callback, is_final). shell_add_default h name callback is_final)
        default_shell_states (?sh c', w1)))"
      unfolding begins_def called_def
      by (intro conjI disjI2 exI [of _ "h_time h w1"] exI [of _ p] exI [of _ ?es]) (simp_all del: fold_simps)
    with i show ?thesis by simp
  qed
qed

text \<open>
  After some lines there is no machine, and with memory there was no line \<open>init\<close>; or the
  session had the five calls at one of them, and at each later line the call it asks for.
\<close>

abbreviation says_init :: "string \<Rightarrow> bool" where
  "says_init line \<equiv> fst (shell_words line) = Some ''init''"

definition sessioned :: "'w host \<Rightarrow> string list \<Rightarrow> shell \<Rightarrow> bool" where
  "sessioned h ls sh \<longleftrightarrow> shell_ok sh \<and>
     (if sh_sm sh = None then ample h \<longrightarrow> (\<forall>l \<in> set ls. \<not> says_init l)
      else \<exists>before line after. ls = before @ line # after \<and> says_init line \<and>
        (ample h \<longrightarrow> (\<forall>l \<in> set before. \<not> says_init l)) \<and>
        called (default_calls h @ List.map_filter line_call after) sh)"

lemma history_simps [simp]:
  "sh_sm (shell_add_to_history t sh) = sh_sm sh" "sh_snapshots (shell_add_to_history t sh) = sh_snapshots sh"
  "shell_ok (shell_add_to_history t sh) = shell_ok sh"
  "sessioned h ls (shell_add_to_history t sh) = sessioned h ls sh"
  "overruns c a (shell_add_to_history t sh) = overruns c a sh"
proof -
  show sm: "sh_sm (shell_add_to_history t sh) = sh_sm sh"
    and ss: "sh_snapshots (shell_add_to_history t sh) = sh_snapshots sh"
    by (simp_all add: shell_add_to_history_def Let_def)
  then show ok: "shell_ok (shell_add_to_history t sh) = shell_ok sh" by (simp add: shell_ok_def)
  then show "sessioned h ls (shell_add_to_history t sh) = sessioned h ls sh"
    "overruns c a (shell_add_to_history t sh) = overruns c a sh"
    by (simp_all add: sessioned_def overruns_def sm called_def)
qed

lemma sessioned_ok: "sessioned h ls sh \<Longrightarrow> shell_ok sh"
  by (simp add: sessioned_def)

lemma called_machine: "called cs sh \<Longrightarrow> sh_sm sh \<noteq> None"
proof -
  assume "called cs sh"
  then obtain now ctx es where "ctx \<noteq> 0" and s: "shell_session sh = fold session_step es (fresh_session now ctx None)"
    by (auto simp: called_def)
  then have "session_wf (shell_session sh)" unfolding s by (intro session.inv_run session_wf_fresh)
  then show ?thesis by (simp add: session_wf_def)
qed

lemma called_moves:
  assumes "called cs a" "moves c a b"
  shows "called (cs @ (case c of None \<Rightarrow> [] | Some e \<Rightarrow> [e])) b"
proof -
  from assms(1) obtain now ctx es where s: "ctx \<noteq> 0" "map snd es = cs"
      "shell_session a = fold session_step es (fresh_session now ctx None)"
    by (auto simp: called_def)
  note machine = called_machine [OF assms(1)]
  show ?thesis
  proof (cases c)
    case None
    with machine assms(2) have "shell_session b = shell_session a" by (simp add: moves_def del: not_None_eq)
    with s None show ?thesis by (auto simp: called_def)
  next
    case (Some e)
    with machine assms(2) obtain t where "shell_session b = session_step (t, e) (shell_session a)"
      by (auto simp: moves_def)
    with s Some show ?thesis
      unfolding called_def by (intro exI [of _ now] exI [of _ ctx] exI [of _ "es @ [(t, e)]"]) simp
  qed
qed

lemma sessioned_moves:
  assumes "sessioned h ls a" "moves (line_call line) a b" "sh_sm a = None \<Longrightarrow> \<not> says_init line"
  shows "sessioned h (ls @ [line]) b"
proof (cases "sh_sm a = None")
  case True
  with assms show ?thesis by (simp add: moves_def sessioned_def)
next
  case False
  with assms(1) obtain before l after where ls: "ls = before @ l # after" "says_init l"
        "ample h \<longrightarrow> (\<forall>l \<in> set before. \<not> says_init l)"
      and c: "called (default_calls h @ List.map_filter line_call after) a"
    by (auto simp: sessioned_def simp del: not_None_eq)
  have "List.map_filter line_call (after @ [line]) =
      List.map_filter line_call after @ (case line_call line of None \<Rightarrow> [] | Some e \<Rightarrow> [e])"
    by (simp add: List.map_filter_def split: option.split)
  with called_moves [OF c assms(2)] have "called (default_calls h @ List.map_filter line_call (after @ [line])) b" by simp
  with called_machine [OF this] ls moves_ok [OF sessioned_ok [OF assms(1)] assms(2)] show ?thesis
    unfolding sessioned_def
    by (simp del: not_None_eq) (intro exI [of _ before] exI [of _ l] exI [of _ "after @ [line]"], simp)
qed

lemma sessioned_begins:
  assumes "sessioned h ls a" "begins h a b" "says_init line"
  shows "sessioned h (ls @ [line]) b"
proof -
  from assms(1) have ok: "shell_ok a" by (rule sessioned_ok)
  from assms(2) have a: "sh_sm a = None" and snaps: "sh_snapshots b = sh_snapshots a" by (simp_all add: begins_def)
  with assms(1) have first: "ample h \<longrightarrow> (\<forall>l \<in> set ls. \<not> says_init l)" by (simp add: sessioned_def)
  from assms(2) consider "sh_sm b = None" "\<not> ample h" | "called (default_calls h) b" by (auto simp: begins_def)
  then show ?thesis
  proof cases
    case 1
    with ok a snaps show ?thesis by (simp add: sessioned_def shell_ok_def)
  next
    case 2
    then obtain now ctx es where "ctx \<noteq> 0" and s: "shell_session b = fold session_step es (fresh_session now ctx None)"
      by (auto simp: called_def)
    then have "session_wf (shell_session b)" unfolding s by (intro session.inv_run session_wf_fresh)
    with called_machine [OF 2] ok snaps have "shell_ok b" by (simp add: shell_ok_def del: not_None_eq)
    with called_machine [OF 2] 2 assms(3) first show ?thesis
      unfolding sessioned_def
      by (simp del: not_None_eq) (intro exI [of _ ls] exI [of _ line] exI [of _ "[]"], simp add: List.map_filter_def)
  qed
qed

lemma command_outcome:
  fixes s :: "shell \<times> 'a" and h :: "'a host"
  assumes "sessioned h ls (fst s)" and words: "shell_words line = (Some command, arg1, arg2, arg3)"
  shows "overruns command arg1 (fst s) \<and> shell_command h command arg1 arg2 arg3 s = Some Undefined \<or>
    \<not> overruns command arg1 (fst s) \<and>
    (\<exists>s'. shell_command h command arg1 arg2 arg3 s = Some (Returned s') \<and> sessioned h (ls @ [line]) (fst s'))"
proof (cases "command = ''restore''")
  case True
  have "\<not> says_init line" "line_call line = command_call ''restore'' arg1 arg2 arg3"
    using words True by (simp_all add: line_call_def)
  with restore_outcome [of s arg1 h arg2 arg3] sessioned_moves [OF assms(1), of line] True show ?thesis
    by (auto simp: shell_command_def overruns_def)
next
  case False
  have call: "line_call line = command_call command arg1 arg2 arg3" using words by (simp add: line_call_def)
  have init: "says_init line = (command = ''init'')" using words by simp
  define P where "P r \<longleftrightarrow> (\<exists>s'. r = Some (Returned s') \<and> sessioned h (ls @ [line]) (fst s'))" for r :: "(shell \<times> 'a) run"
  have obey: "P (f s)" if "obeys (command_call command arg1 arg2 arg3) f" "command \<noteq> ''init''" for f
    using that sessioned_moves [OF assms(1), of line] unfolding obeys_def P_def call init by blast
  have same: "P (returns t)" if "fst t = fst s" "line_call line = None" "command \<noteq> ''init'' \<or> sh_sm (fst s) \<noteq> None" for t
    using sessioned_moves [OF assms(1), of line "fst s"] that by (auto simp: P_def init)
  have start: "P (returns (shell_initialize h s))" if "sh_sm (fst s) = None" "command = ''init''"
    using sessioned_begins [OF assms(1) initialize_begins [OF sessioned_ok [OF assms(1)] that(1)], of line] that(2)
    by (simp add: P_def init)
  have snap: "P (shell_snapshot h arg1 s)" if "command = ''snapshot''"
    using snapshot_moves [OF sessioned_ok [OF assms(1)], of h arg1 arg2 arg3] sessioned_moves [OF assms(1), of line] that
    unfolding P_def call init by auto
  have lists: "fst (shell_list_states h s) = fst s" "fst (shell_list_transitions h s) = fst s"
      "fst (shell_show_history h s) = fst s"
    by (simp_all add: shell_list_states_def shell_list_transitions_def shell_show_history_def split: option.splits)
  have "P (shell_command h command arg1 arg2 arg3 s)"
  proof (cases "command \<in> {''add_state'', ''add_transition'', ''execute'', ''verify'', ''snapshot'', ''lock'', ''unlock'', ''diagnostics''}")
    case True
    have diag: "obeys (command_call ''diagnostics'' arg1 arg2 arg3) (shell_diagnostics h arg1)"
      using diagnostics_obeys command_call_None [of "''diagnostics''" arg1 arg2 arg3] by simp
    from True show ?thesis
      by (elim insertE emptyE)
        (simp_all add: shell_command_def snap obey commands_obey execute_obeys diag del: returns_def)
  next
    case other: False
    with False have "line_call line = None" unfolding call by (intro command_call_None) simp
    with other False show ?thesis
      by (cases "command = ''init'' \<and> sh_sm (fst s) = None") (auto simp: shell_command_def start same lists simp del: returns_def)
  qed
  then have "\<exists>s'. shell_command h command arg1 arg2 arg3 s = Some (Returned s') \<and> sessioned h (ls @ [line]) (fst s')"
    by (simp add: P_def)
  with False show ?thesis by (simp add: overruns_def)
qed

lemma shell_words_Nil [simp]: "shell_words [] = (None, None, None, None)"
  by (simp add: shell_words_def strtok_def)

definition input_line :: "string \<Rightarrow> string" where
  "input_line chunk = takeWhile (\<lambda>c. c \<noteq> CHR 0x0A) (cstr chunk)"

abbreviation says_quit :: "string \<Rightarrow> bool" where
  "says_quit line \<equiv> fst (shell_words line) = Some ''quit''"

lemma line_outcome:
  assumes "sessioned h ls (fst s)"
  shows "(\<exists>c a x. shell_words (input_line chunk) = (Some c, a, x) \<and> overruns c a (fst s)) \<and>
       shell_line h chunk s = Some Undefined \<or>
     \<not> (\<exists>c a x. shell_words (input_line chunk) = (Some c, a, x) \<and> overruns c a (fst s)) \<and>
     (\<exists>s'. shell_line h chunk s = Some (Returned (\<not> says_quit (input_line chunk), s')) \<and>
        sessioned h (if says_quit (input_line chunk) then ls else ls @ [input_line chunk]) (fst s'))"
proof -
  let ?input = "input_line chunk"
  let ?s = "apfst (shell_add_to_history ?input) s"
  obtain c a x y where words: "shell_words ?input = (c, a, x, y)" by (metis prod_cases4)
  show ?thesis
  proof (cases "?input = [] \<or> c = None")
    case True
    then have none: "shell_words ?input = (None, a, x, y)" using words by auto
    then have "sessioned h (ls @ [?input]) (fst s)"
      by (intro sessioned_moves [OF assms]) (simp_all add: line_call_def)
    with none show ?thesis
      by (cases "?input = []") (auto simp: shell_line_def Let_def input_line_def [symmetric])
  next
    case False
    then obtain cmd where cmd: "shell_words ?input = (Some cmd, a, x, y)" "?input \<noteq> []" using words by blast
    from assms have "sessioned h ls (fst ?s)" by simp
    from command_outcome [OF this cmd(1)] cmd assms show ?thesis
      by (cases "cmd = ''quit''")
        (auto simp: shell_line_def Let_def input_line_def [symmetric] overruns_def)
  qed
qed

text \<open>The lines \<open>fgets\<close> delivers before the end of the input or \<open>quit\<close>.\<close>

function typed_lines :: "string \<Rightarrow> string list" where
  "typed_lines stdin =
     (case fgets (MAX_INPUT - 1) False stdin of
        None \<Rightarrow> []
      | Some (chunk, rest, at_end) \<Rightarrow>
          if says_quit (input_line chunk) then [] else input_line chunk # typed_lines rest)"
  by pat_completeness auto

termination
  by (relation "measure length") (auto dest!: fgets_progress simp: MAX_INPUT_def)

declare typed_lines.simps [simp del]

lemma loop_outcome:
  "sessioned h ls (fst s) \<Longrightarrow> shell_loop h stdin s = Some Undefined \<or>
   (\<exists>s'. shell_loop h stdin s = Some (Returned s') \<and> sessioned h (ls @ typed_lines stdin) (fst s'))"
proof (induction stdin arbitrary: ls s rule: measure_induct_rule [where f = length])
  case (less stdin)
  show ?case
  proof (cases "fgets (MAX_INPUT - 1) False stdin")
    case None
    then show ?thesis
      using less.prems by (simp add: shell_loop.simps [of h stdin] typed_lines.simps [of stdin])
  next
    case (Some r)
    obtain chunk rest at_end where r: "r = (chunk, rest, at_end)" by (metis prod_cases3)
    from Some r have shorter: "length rest < length stdin"
      by (auto simp: MAX_INPUT_def dest!: fgets_progress)
    let ?t = "say h (endl @ ''> '') s"
    let ?l = "input_line chunk"
    from less.prems have "sessioned h ls (fst ?t)" by simp
    from line_outcome [OF this, of chunk] show ?thesis
    proof (elim disjE conjE exE)
      assume "shell_line h chunk ?t = Some Undefined"
      with Some r show ?thesis by (simp add: shell_loop.simps [of h stdin])
    next
      fix s' assume l: "shell_line h chunk ?t = Some (Returned (\<not> says_quit ?l, s'))"
        "sessioned h (if says_quit ?l then ls else ls @ [?l]) (fst s')"
      show ?thesis
      proof (cases "says_quit ?l")
        case True
        with Some r l show ?thesis by (simp add: shell_loop.simps [of h stdin] typed_lines.simps [of stdin])
      next
        case False
        with l(2) less.IH [OF shorter, of "ls @ [?l]" s'] have "shell_loop h rest s' = Some Undefined \<or>
          (\<exists>s''. shell_loop h rest s' = Some (Returned s'') \<and> sessioned h (ls @ ?l # typed_lines rest) (fst s''))" by simp
        with Some r l False show ?thesis
          by (simp add: shell_loop.simps [of h stdin] typed_lines.simps [of stdin])
      qed
    qed
  qed
qed

text \<open>Only \<open>restore\<close> can be undefined.\<close>

lemma loop_returns:
  "sessioned h ls (fst s) \<Longrightarrow> \<forall>l \<in> set (typed_lines stdin). fst (shell_words l) \<noteq> Some ''restore'' \<Longrightarrow>
   \<exists>s'. shell_loop h stdin s = Some (Returned s')"
proof (induction stdin arbitrary: ls s rule: measure_induct_rule [where f = length])
  case (less stdin)
  show ?case
  proof (cases "fgets (MAX_INPUT - 1) False stdin")
    case None
    then show ?thesis by (simp add: shell_loop.simps [of h stdin])
  next
    case (Some r)
    obtain chunk rest at_end where r: "r = (chunk, rest, at_end)" by (metis prod_cases3)
    from Some r have shorter: "length rest < length stdin"
      by (auto simp: MAX_INPUT_def dest!: fgets_progress)
    let ?t = "say h (endl @ ''> '') s"
    let ?l = "input_line chunk"
    have lines: "typed_lines stdin = (if says_quit ?l then [] else ?l # typed_lines rest)"
      using Some r by (simp add: typed_lines.simps [of stdin])
    with less.prems(2) have "fst (shell_words ?l) \<noteq> Some ''restore''" by (cases "says_quit ?l") auto
    then have calm: "\<not> (\<exists>c a x. shell_words ?l = (Some c, a, x) \<and> overruns c a (fst ?t))"
      by (auto simp: overruns_def)
    from less.prems(1) have "sessioned h ls (fst ?t)" by simp
    from line_outcome [OF this, of chunk] calm obtain s' where
      l: "shell_line h chunk ?t = Some (Returned (\<not> says_quit ?l, s'))"
        "sessioned h (if says_quit ?l then ls else ls @ [?l]) (fst s')" by blast
    show ?thesis
    proof (cases "says_quit ?l")
      case True
      with Some r l show ?thesis by (simp add: shell_loop.simps [of h stdin])
    next
      case False
      with l(2) less.IH [OF shorter, of "ls @ [?l]" s'] less.prems(2) lines
      have "\<exists>s''. shell_loop h rest s' = Some (Returned s'')" by simp
      with Some r l False show ?thesis by (simp add: shell_loop.simps [of h stdin])
    qed
  qed
qed

lemma sessioned_zero: "sessioned h [] zero_shell"
  by (simp add: sessioned_def shell_ok_def zero_shell_def)

end
