(* ===== verification/State_Shell_Properties.thy ===== *)
theory State_Shell_Properties
  imports State_Shell_Laws Network_Properties "HOL-Library.Code_Target_Nat"
begin

text \<open>
  The properties of the command line for state machines. The witnesses run it on a world
  without files and sockets whose memory never ends.
\<close>

definition shell_host :: "unit host" where
  "shell_host = \<lparr>h_sockets = undefined, h_send = \<lambda>fd bytes flags w. (-1, w), h_print = \<lambda>text w. w,
     h_calloc = \<lambda>w. (True, w), h_malloc = \<lambda>w. (7, w), h_time = \<lambda>w. 0, h_code = \<lambda>name. 1,
     h_stat = \<lambda>path w. None, h_mkdir = \<lambda>path w. (False, w), h_opendir = \<lambda>path w. (None, w),
     h_closedir = \<lambda>w. w, h_open = \<lambda>path w. None\<rparr>"

text \<open>The shell after the line \<open>init\<close>.\<close>

lemma shell_init:
  "\<exists>s. shell_loop shell_host (''init'' @ endl) (zero_shell, ()) = Some (Returned s) \<and> sh_sm (fst s) \<noteq> None"
proof -
  let ?t = "apfst (shell_add_to_history ''init'') (say shell_host (endl @ ''> '') (zero_shell, ()))"
  have f: "fgets (MAX_INPUT - 1) False (''init'' @ endl) = Some (''init'' @ endl, [], False)"
    "fgets (MAX_INPUT - 1) False [] = None" "input_line (''init'' @ endl) = ''init''"
    "shell_words ''init'' = (Some ''init'', None, None, None)" by code_simp+
  have none: "sh_sm (fst ?t) = None" by (simp add: zero_shell_def)
  have l: "shell_line shell_host (''init'' @ endl) (say shell_host (endl @ ''> '') (zero_shell, ())) =
      Some (Returned (True, shell_initialize shell_host ?t))"
    unfolding shell_line_def Let_def input_line_def [symmetric] f prod.case option.case
    using none by (simp add: shell_command_def)
  have "sh_sm (fst (shell_initialize shell_host ?t)) \<noteq> None"
    by (rule initialize_machine [of _ _ 7 "()" "()"]) (simp_all add: shell_host_def)
  then show ?thesis
    by (simp only: shell_loop.simps [of _ "''init'' @ endl"] shell_loop.simps [of _ "[]"] f l option.case prod.case
        run_then_simps if_True returns_def) simp
qed

text \<open>
  C39: The command line is a client of the state machine API, line by line. There is a
  machine after the input exactly if, memory permitting, some line said \<open>init\<close>. Then the
  machine and the snapshots are those of a session on a fresh machine with these calls, in
  this order and no other: the five additions of the default states at the first \<open>init\<close>
  that succeeded, and for each line after it the one call \<open>line_call\<close> reads from its words,
  \<open>lock 2\<close> as locking state 2 and so on; none for a line without its arguments and for
  the commands that only print. In particular the machine is well formed.
\<close>

theorem shell_refines_sessions:
  assumes "shell_loop h stdin (zero_shell, w) = Some (Returned s)"
  shows "case sh_sm (fst s) of
      None \<Rightarrow> ample h \<longrightarrow> (\<forall>line \<in> set (typed_lines stdin). fst (shell_words line) \<noteq> Some ''init'')
    | Some m \<Rightarrow> sm_wf m \<and>
        (\<exists>before line after now ctx es. typed_lines stdin = before @ line # after \<and>
           fst (shell_words line) = Some ''init'' \<and>
           (ample h \<longrightarrow> (\<forall>line \<in> set before. fst (shell_words line) \<noteq> Some ''init'')) \<and> ctx \<noteq> 0 \<and>
           map snd es = default_calls h @ List.map_filter line_call after \<and>
           shell_session (fst s) = fold session_step es (fresh_session now ctx None))"
proof -
  from loop_outcome [of h "[]" "(zero_shell, w)" stdin] assms sessioned_zero [of h]
  have ok: "sessioned h (typed_lines stdin) (fst s)" by simp
  show ?thesis
  proof (cases "sh_sm (fst s)")
    case (Some m)
    with ok have "sm_wf m" by (simp add: sessioned_def shell_ok_def session_wf_def)
    with ok Some show ?thesis unfolding sessioned_def called_def by simp
  qed (use ok in \<open>simp add: sessioned_def\<close>)
qed

lemma four_lines:
  "typed_lines (''init'' @ endl @ ''lock 2'' @ endl @ ''history'' @ endl @ ''unlock 2'' @ endl @ ''quit'' @ endl @ ''lock 3'' @ endl) =
     [''init'', ''lock 2'', ''history'', ''unlock 2'']"
  "map (fst \<circ> shell_words) [''init'', ''lock 2'', ''history'', ''unlock 2''] = [Some ''init'', Some ''lock'', Some ''history'', Some ''unlock'']"
  "shell_words ''lock 2'' = (Some ''lock'', Some ''2'', None, None)"
  "shell_words ''unlock 2'' = (Some ''unlock'', Some ''2'', None, None)"
  "shell_words ''history'' = (Some ''history'', None, None, None)" "atoi ''2'' = 2"
  by code_simp+

theorem shell_refines_sessions_witness:
  "\<exists>s m now ctx es. shell_loop shell_host
       (''init'' @ endl @ ''lock 2'' @ endl @ ''history'' @ endl @ ''unlock 2'' @ endl @ ''quit'' @ endl @ ''lock 3'' @ endl)
       (zero_shell, ()) = Some (Returned s) \<and> sh_sm (fst s) = Some m \<and> sm_wf m \<and>
     map snd es = default_calls shell_host @ [LockState 2, UnlockState 2] \<and>
     shell_session (fst s) = fold session_step es (fresh_session now ctx None)"
proof -
  let ?in = "''init'' @ endl @ ''lock 2'' @ endl @ ''history'' @ endl @ ''unlock 2'' @ endl @ ''quit'' @ endl @ ''lock 3'' @ endl"
  have ample: "ample shell_host" by (simp add: ample_def shell_host_def)
  have words: "fst (shell_words ''init'') = Some ''init''" "fst (shell_words ''lock 2'') = Some ''lock''"
      "fst (shell_words ''history'') = Some ''history''" "fst (shell_words ''unlock 2'') = Some ''unlock''"
    using four_lines(2) by simp_all
  have "\<forall>l \<in> set (typed_lines ?in). fst (shell_words l) \<noteq> Some ''restore''"
    unfolding four_lines(1) by (simp add: words)
  with loop_returns [of shell_host "[]" "(zero_shell, ())" ?in] sessioned_zero obtain s where
    s: "shell_loop shell_host ?in (zero_shell, ()) = Some (Returned s)" by auto
  note ref = shell_refines_sessions [OF s, unfolded four_lines(1)]
  obtain m where m: "sh_sm (fst s) = Some m"
    using ref ample words(1) by (cases "sh_sm (fst s)") auto
  from ref m obtain before line after now ctx es where
      r: "sm_wf m" "[''init'', ''lock 2'', ''history'', ''unlock 2''] = before @ line # after" "fst (shell_words line) = Some ''init''"
        "map snd es = default_calls shell_host @ List.map_filter line_call after"
        "shell_session (fst s) = fold session_step es (fresh_session now ctx None)" by auto
  from r(2,3) words have "after = [''lock 2'', ''history'', ''unlock 2'']"
    by (auto simp: Cons_eq_append_conv)
  then have "List.map_filter line_call after = [LockState 2, UnlockState 2]"
    by (simp add: List.map_filter_def line_call_def four_lines(3-6) command_call_def)
  with s m r show ?thesis by auto
qed

text \<open>
  C40: One command reads behind an array. In every shell that the prompt has brought about, a
  line is undefined exactly if there is a machine and the line is \<open>restore\<close> with a number
  from 32 on, which \<open>g_has_snapshot\<close> is indexed with unchecked; a negative number counts as
  one. Every other line returns.
\<close>

theorem restore_index_unchecked:
  assumes "shell_loop h stdin (zero_shell, w) = Some (Returned s)"
  shows "(shell_line h chunk s = Some Undefined \<longleftrightarrow>
      sh_sm (fst s) \<noteq> None \<and>
      (\<exists>a x. shell_words (input_line chunk) = (Some ''restore'', Some a, x) \<and> POLYCALL_MAX_STATES \<le> atoi a)) \<and>
    (shell_line h chunk s \<noteq> Some Undefined \<longrightarrow> (\<exists>more s'. shell_line h chunk s = Some (Returned (more, s'))))"
proof -
  from loop_outcome [of h "[]" "(zero_shell, w)" stdin] assms sessioned_zero [of h]
  have ok: "sessioned h (typed_lines stdin) (fst s)" by simp
  have "(\<exists>c a x. shell_words (input_line chunk) = (Some c, a, x) \<and> overruns c a (fst s)) \<longleftrightarrow>
      sh_sm (fst s) \<noteq> None \<and> (\<exists>a x. shell_words (input_line chunk) = (Some ''restore'', Some a, x) \<and> 32 \<le> atoi a)"
    by (auto simp: overruns_def)
  with line_outcome [OF ok, of chunk] show ?thesis by auto
qed

theorem restore_index_unchecked_witness:
  "\<exists>s. shell_loop shell_host (''init'' @ endl) (zero_shell, ()) = Some (Returned s) \<and>
     shell_line shell_host ''restore -1'' s = Some Undefined"
proof -
  from shell_init obtain s where s: "shell_loop shell_host (''init'' @ endl) (zero_shell, ()) = Some (Returned s)"
    "sh_sm (fst s) \<noteq> None" by blast
  have "shell_words (input_line ''restore -1'') = (Some ''restore'', Some ''-1'', None, None)" "32 \<le> atoi ''-1''"
    by code_simp+
  with restore_index_unchecked [OF s(1), of "''restore -1''"] s show ?thesis by auto
qed

text \<open>
  The command line ends on every input, with exit code 0 and machine and context
  released, or is undefined. It is undefined if a line is, and also at the end, if the
  machine could not be allocated once and there was no \<open>init\<close> that succeeded later: the
  context freed then is freed again.
\<close>

lemma shell_main_ends:
  "case shell_loop h stdin (say h (''PolyCall CLI - Type '' @ quote ''help'' @ '' for commands'' @ endl) (zero_shell, w)) of
     None \<Rightarrow> False
   | Some Undefined \<Rightarrow> shell_main h stdin w = Some Undefined
   | Some (Returned s) \<Rightarrow>
       (if \<exists>p. sh_ctx (fst s) = Some (p, None) then shell_main h stdin w = Some Undefined
        else \<exists>sh w'. shell_main h stdin w = Some (Returned (0, sh, w')) \<and> sh_sm sh = None \<and> sh_ctx sh = None)"
proof -
  let ?t = "say h (''PolyCall CLI - Type '' @ quote ''help'' @ '' for commands'' @ endl) (zero_shell, w)"
  from sessioned_zero have "sessioned h [] (fst ?t)" by simp
  from loop_outcome [OF this, of stdin] show ?thesis
    by (auto simp: shell_main_def shell_cleanup_def Let_def line_out_def say_def polycall_sm_destroy_def
        split: option.splits prod.splits)
qed

lemma failed_init_frees_twice:
  "shell_main (shell_host\<lparr>h_calloc := \<lambda>w. (False, w)\<rparr>) (''init'' @ endl) () = Some Undefined"
proof -
  have "case shell_main (shell_host\<lparr>h_calloc := \<lambda>w. (False, w)\<rparr>) (''init'' @ endl) () of
      Some Undefined \<Rightarrow> True | _ \<Rightarrow> False"
    by code_simp
  then show ?thesis by (auto split: option.splits outcome.splits)
qed

text \<open>
  The test of the default machine passes wherever its two allocations succeed.
\<close>

lemma initialization_test_passes:
  assumes "ctx_block \<noteq> 0"
  shows "test_state_machine_initialization linker ctx_block True now"
proof -
  obtain c where init: "initialize_state_machine linker ctx_block True now True True =
      (SM_SUCCESS, Some (ctx_block, c), Some (default_machine linker ctx_block now))"
    using initialize_default [OF assms, of linker now] by blast
  have num: "sm_num_states (default_machine linker ctx_block now) = 5"
    "sm_num_transitions (default_machine linker ctx_block now) > 0"
    by (simp_all add: default_machine_def Let_def)
  have "map (\<lambda>st. cstr (st_name st)) (take 5 (sm_states (default_machine linker ctx_block now))) =
      map sc_name (DEFAULT_STATES linker)"
    by (simp add: default_machine_def Let_def DEFAULT_STATES_def cstr_fill) (simp add: cstr_def)
  from arg_cong [OF this, of set] have "\<forall>d \<in> set (DEFAULT_STATES linker).
      \<exists>st \<in> set (take 5 (sm_states (default_machine linker ctx_block now))). cstr (st_name st) = sc_name d"
    by (metis (mono_tags, lifting) imageE imageI list.set_map)
  then show ?thesis
    by (simp add: test_state_machine_initialization_def init num list_all_iff list_ex_iff DEFAULT_STATES_def
        polycall_sm_destroy_def polycall_cleanup_def)
qed

end
