(* ===== verification/Spec2Isabelle.thy ===== *)
theory Spec2Isabelle
  imports State_Machine_Properties Protocol_Properties Micro_Properties Config_Properties
    Tokenizer_Properties Ast_Properties Parser_Properties Network_Properties
    Runtime_Properties State_Shell_Properties
begin

text \<open>
  A verification development of libpolycall, version 1.0.1: the C library and the command
  line program under \<open>src\<close> and \<open>include\<close>, and the command line for state machines under
  \<open>test\<close>. File names below are relative to the repository.

  \<^bold>\<open>The program.\<close> A \<^emph>\<open>context\<close> (\<open>polycall.c\<close>) holds an error text and a memory
  pool. A \<^emph>\<open>state machine\<close> (\<open>polycall_state_machine.c\<close>) is a pair of fixed tables, 32
  states and 64 transitions between them, with a checksum, a version and a lock on every
  state, callbacks on entering, leaving and moving, and snapshots. The \<^emph>\<open>protocol\<close>
  (\<open>polycall_protocol.c\<close>) puts messages into packets of a 16-byte header and a payload, sends
  them through an endpoint of the network, checks and dispatches packets that arrive, and
  drives a session from INIT over HANDSHAKE, AUTH and READY by executing named transitions
  of a state machine it is given. \<^emph>\<open>Micro services\<close> (\<open>polycall_micro.c\<close>) are a table of 32
  slots with a bit mask, each with a command queue, kept next to a protocol and a state
  machine. The \<^emph>\<open>configuration\<close> (\<open>polycall_config.c\<close>) is read from a project file, a
  runtime file and a language file, and has its own \<open>polycall config\<close> commands. The
  \<^emph>\<open>tokenizer\<close> (\<open>polycall_token.c\<close>, \<open>polycall_tokenizer.c\<close>) splits a text into tokens, the
  \<^emph>\<open>parser\<close> (\<open>polycall_parser.c\<close>) makes a syntax tree of them. The \<^emph>\<open>network\<close>
  (\<open>network.c\<close>) has programs of one listening endpoint and a table of ten clients, served by
  a \<open>select\<close> loop. The \<^emph>\<open>command line\<close> (\<open>main.c\<close>) puts context, state machine,
  configuration and network programs together: a prompt, a mode that reads a file, and port
  mappings for the directories of services. \<open>test/test_polystate.c\<close> is a second command
  line, for state machines only.

  \<^bold>\<open>Theories, in the order they build on each other.\<close>

  \<^item> \<open>Polycall_Prelude\<close>: machine words, C strings in buffers (\<open>strncpy\<close>,
    \<open>snprintf\<close>), decimal numbers, little-endian bytes, and the interfaces
    \<open>fixed_codec\<close> (a record of fixed size on the wire), \<open>partial_store\<close> (a key-value
    store that may refuse), \<open>stepwise_invariant\<close> and \<open>monotone_invariant\<close> (what every
    operation keeps, every sequence of operations keeps).
  \<^item> \<open>Checksum\<close>: rotation of words and the interface \<open>rolling_checksum\<close>: a mixing step
    that is injective in the accumulator and in the byte detects every change of one byte.
    Instances: \<open>state_sum\<close> (rotate by 8, the state machine) and \<open>payload_sum\<close> (rotate by
    5, the protocol).
  \<^item> \<open>Memory\<close>: heaps of blocks, with the interface \<open>allocator\<close> and its instance \<open>heap\<close>,
    the type \<open>run\<close> of computations that may not return or be undefined, and the interface
    \<open>run_invariant\<close>, the counterpart of \<open>stepwise_invariant\<close> for them: the first operation
    that blocks or is undefined ends the sequence.
  \<^item> \<open>Polycall_Context\<close>: \<open>polycall.c\<close>.
  \<^item> \<open>State_Machine\<close>: every operation of \<open>polycall_state_machine.c\<close> over
    \<open>state_machine\<close>. \<open>State_Machine_Invariant\<close>: the invariant \<open>sm_wf\<close> and that every
    operation keeps it, and when a transition is taken. \<open>State_Machine_Session\<close>: any
    sequence of calls (\<open>session_step\<close>), the instances \<open>session\<close> of both invariant
    interfaces, and snapshots. \<open>State_Machine_Default\<close>: the machine of
    \<open>initialize_state_machine\<close>, written out. \<open>Transition_Engine\<close>: the contract
    \<open>transition_engine\<close> a client that executes transitions by name relies on, and its
    instance \<open>machine\<close> for \<open>polycall_sm_execute_transition\<close>.
    \<open>State_Machine_Properties\<close>: the properties.
  \<^item> \<open>Network\<close>: endpoints, packets and \<open>net_send\<close> of \<open>network.c\<close>. \<open>Network_Program\<close>:
    mutexes with the contract \<open>mutex_field\<close>, the socket calls \<open>os_sockets\<close>, ports, opening and
    closing of endpoints, \<open>net_receive\<close>. \<open>Network_Run\<close>: the client table, start and end of a
    program, one turn of the loop (\<open>net_run\<close>). Instances of the contract: \<open>endpoint_mutex\<close>,
    \<open>table_mutex\<close>, \<open>slot_mutex\<close>. \<open>Network_Laws\<close>: the table as a multiset of connections,
    and when a turn returns. \<open>Network_Descriptors\<close>: which descriptors are open.
    \<open>Network_Session\<close>: sequences of calls (\<open>network_step\<close>), the instances \<open>network\<close> (any
    calls) and \<open>turning\<close> (turns, with the descriptors open) of \<open>run_invariant\<close>, when a turn
    ends and when it does not. \<open>Network_Properties\<close>: the properties.
  \<^item> \<open>Protocol\<close>: every operation of \<open>polycall_protocol.c\<close> over \<open>protocol_io\<close> (the
    context, the static error buffer, and the log of packets sent and callbacks invoked).
    \<open>Protocol_Wire\<close>: the header as instance \<open>header\<close> of \<open>fixed_codec\<close>, well-formed
    packets, and the outcomes of sending and processing. \<open>Protocol_Session\<close>: the automaton
    \<open>proto_edge\<close> of the life cycle, sequences of operations (\<open>protocol_step\<close>), their
    invariants, and the instance \<open>refusing\<close> of \<open>stepwise_invariant\<close> for sessions whose state
    machine refuses every transition. \<open>Protocol_Properties\<close>: the properties.
  \<^item> \<open>Micro\<close>: every operation of \<open>polycall_micro.c\<close>. \<open>Micro_Invariant\<close>: the bit mask
    as a set of slots, the invariant \<open>micro_wf\<close>, the instance \<open>micro\<close> of
    \<open>stepwise_invariant\<close>, and the lemmas on scanning, queues and garbage collection.
    \<open>Micro_Properties\<close>: the properties.
  \<^item> \<open>Config_Text\<close>: the C library functions the configuration reads text with, and the file's
    own text functions. \<open>Config_File\<close>: the configuration and the parser of one file.
    \<open>Config_Load\<close>: the hierarchy of files, showing, validating, migrating and the commands,
    with the file system as a map from paths to files that may be unreadable, and
    \<open>output_device\<close> for what opening, writing and removing a destination do. \<open>Config_Laws\<close>:
    the values as instance \<open>entries\<close> of \<open>partial_store\<close>, the settings of a file, the invariant
    \<open>config_wf\<close>, and that printed lines read back. \<open>Config_Properties\<close>: the properties.
  \<^item> \<open>Token\<close>: every operation of \<open>polycall_token.c\<close>; \<open>Token_Laws\<close>: arrays, and what
    destroying one releases. \<open>Tokenizer\<close>: every operation of \<open>polycall_tokenizer.c\<close>.
    \<open>Lexical\<close>: the languages of the four matchers and the interfaces \<open>token_matcher\<close> and
    \<open>complete_matcher\<close> with instances \<open>idents\<close>, \<open>numbers\<close>, \<open>strings\<close> and \<open>operators\<close> (numbers
    of the first only). \<open>Tokenizer_Laws\<close>: the reference \<open>lexemes\<close> of the scanning loop.
    \<open>Tokenizer_Properties\<close>: the properties.
  \<^item> \<open>Ast\<close>: nodes, trees and every public operation on them of \<open>polycall_parser.c\<close>.
    \<open>Ast_Laws\<close>: trees as a datatype, and the operations as functions of trees.
    \<open>Ast_Properties\<close>: the properties. \<open>Parser\<close>: the node pool, the recursive descent, parsing
    of strings and files. \<open>Parser_Properties\<close>: the properties.
  \<^item> \<open>Runtime\<close>: state, handlers and commands of \<open>main.c\<close>. \<open>Runtime_Main\<close>: listings,
    network programs, prompt, file mode and \<open>main\<close>. \<open>Runtime_Ports\<close>:
    \<open>polycall_init_with_directory\<close>. \<open>Runtime_Laws\<close>: what each leaves alone, the history as a
    list, the outcomes of lines and loops. \<open>Runtime_Properties\<close>: the properties.
  \<^item> \<open>State_Shell\<close>: \<open>test/test_polystate.c\<close> and \<open>test/test_polystate_machine.c\<close>.
    \<open>State_Shell_Laws\<close>: the call a line asks for (\<open>line_call\<close>), that it is the one the line
    makes, and the session of the lines typed.
    \<open>State_Shell_Properties\<close>: the properties.

  \<^bold>\<open>How the code is represented.\<close> A struct is a record with its fields in their widths
  (\<open>uint32_t\<close> is \<open>32 word\<close> and wraps); an enumeration is a datatype; a table in a fixed
  array is the whole array as a list, with its count beside it, so that slots beyond the
  count keep their old contents as in the code. A pointer to an object is an option
  (\<open>None\<close> for NULL) where no two pointers to it matter, and an address of a heap where they
  do: the strings of tokens and the nodes of syntax trees. Function pointers are addresses,
  and operations return the calls they make in order, or functions where the program passes
  its own. \<open>time(NULL)\<close>, \<open>send\<close>, \<open>strtod\<close> and the user-supplied integrity check are
  parameters. For network and command line the operating system is a record of functions of
  the state of the world (\<open>os_sockets\<close>, \<open>host\<close>), which operations pass along; results of
  allocations are drawn from the world before the operation that uses them.

  A computation that may fail to return or be undefined has type \<open>run\<close>: \<open>None\<close> is that it
  does not return (a mutex held by the thread itself, a loop without end, fuel that does not
  suffice), \<open>Some Undefined\<close> is undefined behaviour (memory that is not there, freed twice, a
  write behind an array, a destroyed mutex), \<open>Some (Returned x)\<close> is the result. A sequence of
  such computations (\<open>fold_run\<close>) ends with the first that is not \<open>Returned\<close>. In \<open>Micro\<close> and
  \<open>Token\<close>, where everything returns, \<open>None\<close> alone is undefined behaviour. Functions are
  computable. Most loops are structural recursion over the array, the bytes or the lines they
  run through, or recursion with a measure on the input left; \<open>process_loop\<close>,
  \<open>find_available_port\<close> and \<open>event_loop\<close>, which need not end, are partial functions. The
  parser and the operations on trees take fuel: the fuel of a tree is the depth of the C
  stack, and the properties show that the height of the tree is enough; the fuel of the
  parser is its number of steps, and the properties say for which tokens some fuel suffices
  and for which none does.

  \<^bold>\<open>Assumptions.\<close> Little-endian and LP64 (the header and the checksums read memory); the C
  locale; POSIX branches of conditional code; allocation succeeds where the code goes on to
  use the memory at once, and \<open>strdup\<close> of an error text. The padding of a state holds the
  zeros of its \<open>calloc\<close>, and a stored \<open>bool\<close> is the byte 0 or 1. An endpoint that \<open>net_send\<close>
  is given has a free mutex, which it takes and releases around the one call. A path names a
  file of its own. Forming a pointer behind an array without access to it is not counted as
  undefined. A mutex in zeroed memory is unlocked, and a mutex of the default kind blocks the
  thread that holds it. Where a property speaks of descriptors the system is \<open>honest\<close>: a new
  socket has a descriptor that was not open, and calls open and close nothing else, as POSIX
  promises. A property about echoing takes \<open>recv\<close> to deliver as many bytes as it says. Bounds
  that appear in theorems: 32 states, 64 transitions and 32-byte names of the state machine;
  4096 bytes of packet buffer, so 4080 of payload; fewer than \<open>2 ^ 32\<close> calls where a version
  or sequence number must not wrap; 32 services and 64 commands; 32 servers, 128 values, keys
  under 64 and values under 256 bytes, and lines of at most 1023 characters (\<open>fgets\<close>); 10
  clients, ports 8080 to 8180 and 8 network programs, so 8 port mappings (the table has room
  for 64); 257 levels of a tree.

  \<^bold>\<open>What the properties show.\<close> State machine: its tables stay well formed under any sequence
  of calls; what a transition does, on its target and its callbacks; any change of a covered
  byte is detected and no false alarm is raised; and a snapshot can only be restored if
  nothing has changed since. Protocol: a message sent is received with its payload, corrupted
  payloads are refused, packets of a session are well formed and numbered in order, the update
  function follows the life-cycle automaton, with a suitable machine and a send that takes the
  handshake three updates reach READY, and with the machine \<open>polycall_protocol_init\<close> creates
  no session ever leaves INIT. Micro services: table, mask and queues stay consistent and no
  shift leaves the mask, if batches have the commands they count, and garbage collection is
  exact for distinct ids. Configuration: what was loaded is consistent, layers override each
  other as documented, what is shown reads back, and the commands never change a file they can
  open, but overwrite one they cannot read. Tokenizer: the matchers take the longest prefix,
  the tokens recorded are the lexemes of the input, but every scan fails at the end and
  destroying the tokenizer frees its buffer twice. Trees: validation, adding and destroying do
  what they should; optimization keeps the root only. Parser: no string is ever parsed, and
  every tree \<open>parse_tokens\<close> returns points into freed memory. Network: the client table is a
  bag of connections, after any calls that return its mutexes are free, calls block only on a
  client that is gone, a program whose turns return closes what it opened, start and search
  for a port have the outcomes listed, and once a client disconnects the loop blocks for ever.
  Command line: when \<open>main\<close> returns, what a session at the prompt can bring about, that
  clients are echoed, when the table of programs overflows, that port mappings never conflict
  (so two services of the repository's own configuration cannot both be mapped), and when a
  signal cannot end the process. State machine command line: it is a client of the API that
  makes exactly the calls its lines ask for, and one command reads behind an array.

  \<^bold>\<open>Not modelled.\<close> The thread shim (\<open>polycall_pthread.h\<close>) and the other Windows branches:
  they only rename calls of the platform. The Java bridge: its functions are stubs that
  return 0. The bindings in other languages and the examples: programs of their own that
  speak to the library from outside. Of \<open>main.c\<close>, the registration of the signal handler and
  the texts of \<open>errno\<close>; of headers, what declares without defining.
\<close>

end
